(* ===== verification/Kernel_Prelude.thy ===== *)
theory Kernel_Prelude
  imports Main "HOL-Library.Word" "HOL-Library.Monad_Syntax"
begin

unbundle bit_operations_syntax

text \<open>
  Types, constants and generic lemmas shared by every component.

  \<^item> C integers keep their width: \<open>uint64_t\<close>, \<open>size_t\<close>, \<open>uintptr_t\<close> and every pointer are
    \<open>64 word\<close>, so addition wraps as the hardware does.
  \<^item> A C pointer is an address; \<open>NULL\<close> is 0.
  \<^item> A function that may not come back (it dereferences \<open>NULL\<close>, spins on a lock that is
    held, or panics) has an \<open>option\<close> result: \<open>None\<close> means that the call does not return.
    Such bodies are written in the option monad, in the order of the C statements.
\<close>

type_synonym u8 = "8 word"
type_synonym u16 = "16 word"
type_synonym u32 = "32 word"
type_synonym u64 = "64 word"
type_synonym addr = "64 word"
type_synonym mem = "addr \<Rightarrow> u8"

abbreviation NULL :: addr where
  "NULL \<equiv> 0"

text \<open>
  The proof collections of the development: \<open>mem_simps\<close> gathers read-over-write facts of the
  stores, \<open>ops\<close> the definitions of loop-free operations that automation may unfold.
\<close>

named_theorems mem_simps "read-over-write equations of the stores"
named_theorems ops "definitions of loop-free operations"

section \<open>Error numbers (include/lib/errno.h)\<close>

definition ENOMEM :: int where "ENOMEM = 1"
definition ENOENT :: int where "ENOENT = 2"
definition EINVAL :: int where "EINVAL = 3"
definition EBADF :: int where "EBADF = 4"
definition ENOTDIR :: int where "ENOTDIR = 5"
definition EISDIR :: int where "EISDIR = 6"
definition ENOSPC :: int where "ENOSPC = 7"
definition EEXIST :: int where "EEXIST = 8"
definition ENOEXEC :: int where "ENOEXEC = 9"
definition EFAULT :: int where "EFAULT = 10"
definition EAGAIN :: int where "EAGAIN = 11"
definition EBUSY :: int where "EBUSY = 12"
definition ENOSYS :: int where "ENOSYS = 13"

lemmas errno_defs = ENOMEM_def ENOENT_def EINVAL_def EBADF_def ENOTDIR_def EISDIR_def
  ENOSPC_def EEXIST_def ENOEXEC_def EFAULT_def EAGAIN_def EBUSY_def ENOSYS_def

section \<open>The option monad as control flow\<close>

definition assert_opt :: "bool \<Rightarrow> unit option" where
  "assert_opt b = (if b then Some () else None)"

lemma assert_opt_True [simp]: "assert_opt True = Some ()"
  by (simp add: assert_opt_def)

lemma assert_opt_False [simp]: "assert_opt False = None"
  by (simp add: assert_opt_def)

lemma assert_opt_bind_Some [simp]:
  "(assert_opt b \<bind> f = Some y) = (b \<and> f () = Some y)"
  by (simp add: assert_opt_def)

lemma bind_Some_iff: "(m \<bind> f = Some y) = (\<exists>x. m = Some x \<and> f x = Some y)"
  by (cases m) auto

lemma bind_None_iff: "(m \<bind> f = None) = (m = None \<or> (\<exists>x. m = Some x \<and> f x = None))"
  by (cases m) auto

section \<open>Binary representation of naturals and words\<close>

lemma pow2_bracket: "0 < (x::nat) \<Longrightarrow> \<exists>k. 2 ^ k \<le> x \<and> x < 2 ^ Suc k"
  using ex_power_ivl1 [of 2 x] by auto

lemma bit_nat_above: "(x::nat) < 2 ^ k \<Longrightarrow> k \<le> i \<Longrightarrow> \<not> bit x i"
  by (metis bit_take_bit_iff leD take_bit_nat_eq_self)

lemma bit_nat_top: "2 ^ k \<le> (x::nat) \<Longrightarrow> x < 2 ^ Suc k \<Longrightarrow> bit x k"
proof -
  assume "2 ^ k \<le> x" "x < 2 ^ Suc k"
  then have "x div 2 ^ k = 1"
    by (simp add: div_nat_eqI)
  then show ?thesis by (simp add: bit_iff_odd)
qed

lemma bit_unat: "bit (unat w) i = bit w i"
  by (simp add: bit_simps)

lemma unat_pow2: "k < LENGTH('a) \<Longrightarrow> unat (2 ^ k :: 'a::len word) = 2 ^ k"
  by (metis of_nat_numeral of_nat_power power_strict_increasing_iff one_less_numeral_iff
      semiring_norm(76) unat_of_nat mod_less)

lemma scast_of_nat_u32: "k < 2 ^ 31 \<Longrightarrow> scast (of_nat k :: u32) = (of_nat k :: u64)"
proof -
  assume "k < 2 ^ 31"
  then have "sint (of_nat k :: u32) = int k"
    by (simp add: signed_of_nat signed_take_bit_int_eq_self_iff)
  then show ?thesis by (simp only: scast_eq) simp
qed

lemma word_top_bit:
  fixes w :: "'a::len word"
  assumes "w \<noteq> 0"
  obtains k where "k < LENGTH('a)" and "2 ^ k \<le> unat w" and "unat w < 2 ^ Suc k"
    and "bit w k" and "\<forall>i > k. \<not> bit w i"
proof -
  from assms have "0 < unat w" by (simp add: unat_gt_0)
  then obtain k where k: "2 ^ k \<le> unat w" "unat w < 2 ^ Suc k"
    using pow2_bracket by blast
  have "k < LENGTH('a)"
  proof (rule ccontr)
    assume "\<not> k < LENGTH('a)"
    then have "(2::nat) ^ LENGTH('a) \<le> 2 ^ k" by simp
    with k(1) show False using unsigned_less [of w, where ?'a = nat] by linarith
  qed
  moreover have "bit w k" using bit_nat_top [OF k] by (simp add: bit_unat)
  moreover have "\<not> bit w i" if "k < i" for i
    using bit_nat_above [OF k(2), of i] that by (simp add: bit_unat)
  ultimately show thesis using k that by blast
qed

section \<open>Runs of bytes in memory\<close>

definition bytes_at :: "mem \<Rightarrow> addr \<Rightarrow> nat \<Rightarrow> u8 list" where
  "bytes_at m p n = map (\<lambda>i. m (p + of_nat i)) [0..<n]"

primrec put_bytes :: "mem \<Rightarrow> addr \<Rightarrow> u8 list \<Rightarrow> mem" where
  "put_bytes m p [] = m"
| "put_bytes m p (y # ys) = put_bytes (m(p := y)) (p + 1) ys"

definition apart :: "addr \<Rightarrow> nat \<Rightarrow> addr \<Rightarrow> nat \<Rightarrow> bool" where
  "apart p n q k \<longleftrightarrow> (\<forall>i < n. \<forall>j < k. p + of_nat i \<noteq> q + of_nat j)"

lemma bytes_at_Suc: "bytes_at m p (Suc n) = m p # bytes_at m (p + 1) n"
proof -
  have "[0..<Suc n] = 0 # map Suc [0..<n]" by (simp add: map_Suc_upt upt_conv_Cons del: upt_Suc)
  then show ?thesis by (simp add: bytes_at_def ac_simps del: upt_Suc)
qed

lemma length_bytes_at [simp]: "length (bytes_at m p n) = n"
  by (simp add: bytes_at_def)

lemma apart_Suc: "apart p (Suc n) q k \<Longrightarrow> apart (p + 1) n q k \<and> (\<forall>j < k. p \<noteq> q + of_nat j)"
  unfolding apart_def by (auto simp: add.assoc) (metis Suc_mono add.assoc of_nat_Suc, force)

lemma apartI:
  assumes "unat p + n \<le> unat q" and "unat q + k \<le> 2 ^ 64"
  shows "apart p n q k" and "apart q k p n"
proof -
  have "p + of_nat i \<noteq> q + of_nat j" if "i < n" "j < k" for i j
  proof -
    have "unat (p + of_nat i) = unat p + i" "unat (q + of_nat j) = unat q + j"
      using assms that by (auto simp: unat_word_ariths unat_of_nat)
    then show ?thesis using assms that by fastforce
  qed
  then show "apart p n q k" "apart q k p n" by (auto simp: apart_def) metis
qed

section \<open>Rounding and aligned bases\<close>

text \<open>\<open>(x | mask) + 1\<close> is the next multiple of a power of two above \<open>x\<close>.\<close>

lemma or_mask_plus_1:
  fixes x :: "'a::len word"
  shows "(x OR mask n) + 1 = push_bit n (drop_bit n x) + 2 ^ n"
proof -
  have "x OR mask n = push_bit n (drop_bit n x) OR mask n"
    by (rule bit_word_eqI) (auto simp: bit_simps)
  also have "\<dots> = push_bit n (drop_bit n x) + mask n"
    by (rule disjunctive_add [symmetric]) (auto simp: bit_simps)
  finally show ?thesis by (simp add: add.assoc inc_mask_eq_exp)
qed

lemma unat_round_up:
  fixes x :: u64
  assumes "n < 64" "unat x + 2 ^ n < 2 ^ 64"
  shows "unat ((x OR mask n) + 1) = (unat x div 2 ^ n + 1) * 2 ^ n"
proof -
  have "unat (drop_bit n x) = unat x div 2 ^ n"
    unfolding drop_bit_eq_div unat_div using assms(1) by (subst unat_pow2) simp_all
  then have "drop_bit n x = of_nat (unat x div 2 ^ n)" by (metis of_nat_unat ucast_id)
  then have e: "push_bit n (drop_bit n x) = of_nat (unat x div 2 ^ n * 2 ^ n)"
    by (simp add: push_bit_eq_mult mult.commute)
  have "unat x div 2 ^ n * 2 ^ n \<le> unat x" by (rule div_times_less_eq_dividend)
  then have lt: "unat x div 2 ^ n * 2 ^ n + 2 ^ n < 2 ^ 64" using assms(2) by linarith
  have "(x OR mask n) + 1 = of_nat (unat x div 2 ^ n * 2 ^ n + 2 ^ n)"
    unfolding or_mask_plus_1 e by simp
  then have "unat ((x OR mask n) + 1) = unat x div 2 ^ n * 2 ^ n + 2 ^ n"
    using lt by (simp only: unat_of_nat) simp
  then show ?thesis by simp
qed

text \<open>An address below \<open>2 ^ n\<close> and a base with no bit below \<open>n\<close> do not share bits.\<close>

lemma or_high_base:
  fixes p h :: "'a::len word"
  assumes "unat p < 2 ^ n" "take_bit n h = 0"
  shows "p OR h = p + h" and "(p OR h) AND NOT h = p"
proof -
  have p: "\<not> bit p i" if "n \<le> i" for i using bit_nat_above [OF assms(1) that] by (simp add: bit_unat)
  have h: "\<not> bit h i" if "i < n" for i using assms(2) that by (metis bit_0_eq bit_take_bit_iff bot_apply bot_bool_def)
  have d: "\<not> bit p i \<or> \<not> bit h i" for i using p h by (metis not_less)
  then show "p OR h = p + h" by (rule disjunctive_add [symmetric])
  show "(p OR h) AND NOT h = p" by (rule bit_word_eqI) (use d in \<open>auto simp: bit_simps\<close>)
qed

end
