(* ===== verification/Kmath.thy ===== *)
theory Kmath
  imports Kernel_Prelude
begin

unbundle bit_operations_syntax

text \<open>
  \<^verbatim>\<open>lib/math.c\<close>: power-of-two rounding, integer logarithm and bitmaps. The bitmap operations
  work on the byte memory at \<open>bitmap + (n >> 3)\<close>, as the C array accesses do.
\<close>

section \<open>Definitions\<close>

definition npow2 :: "u64 \<Rightarrow> u64" where
  "npow2 n = (if n = 0 then 1 else
    (let n = n - 1;
         n = n OR drop_bit 1 n;
         n = n OR drop_bit 2 n;
         n = n OR drop_bit 4 n;
         n = n OR drop_bit 8 n;
         n = n OR drop_bit 16 n;
         n = n OR drop_bit 32 n
     in n + 1))"

text \<open>
  The compiler builtin \<open>__builtin_clzll\<close> counts leading zero bits and is undefined at 0, so
  \<open>log2\<close> has no result there.
\<close>

definition clzll :: "u64 \<Rightarrow> u64 option" where
  "clzll n = (if n = 0 then None
     else Some (of_nat (length (takeWhile (\<lambda>i. \<not> bit n i) (rev [0..<64])))))"

definition log2 :: "u64 \<Rightarrow> u64 option" where
  "log2 n = (case clzll n of None \<Rightarrow> None | Some z \<Rightarrow> Some (8 * 8 - z - 1))"

definition bitmap_set :: "addr \<Rightarrow> u64 \<Rightarrow> u64 \<Rightarrow> mem \<Rightarrow> mem" where
  "bitmap_set bitmap n b m =
    (let p = bitmap + drop_bit 3 n; k = unat (n AND 7) in
     if b \<noteq> 0 then m(p := m p OR push_bit k 1)
     else m(p := m p AND NOT (push_bit k 1)))"

definition bitmap_get :: "addr \<Rightarrow> u64 \<Rightarrow> mem \<Rightarrow> u8" where
  "bitmap_get bitmap n m = m (bitmap + drop_bit 3 n) AND push_bit (unat (n AND 7)) 1"

section \<open>Rounding up to a power of two\<close>

lemma smear_step:
  fixes w m :: "'a::len word"
  assumes "\<And>i. bit m i = (\<exists>d < s. bit w (i + d))"
  shows "bit (m OR drop_bit s m) i = (\<exists>d < 2 * s. bit w (i + d))"
proof -
  have "bit (m OR drop_bit s m) i = ((\<exists>d < s. bit w (i + d)) \<or> (\<exists>d < s. bit w (i + (s + d))))"
    by (simp add: bit_simps assms ac_simps)
  also have "\<dots> = (\<exists>d < 2 * s. bit w (i + d))"
  proof (intro iffI)
    assume "\<exists>d < 2 * s. bit w (i + d)"
    then obtain d where d: "d < 2 * s" "bit w (i + d)" by blast
    show "(\<exists>d < s. bit w (i + d)) \<or> (\<exists>d < s. bit w (i + (s + d)))"
    proof (cases "d < s")
      case False
      with d have "d - s < s" "bit w (i + (s + (d - s)))" by auto
      then show ?thesis by blast
    qed (use d in blast)
  next
    assume "(\<exists>d < s. bit w (i + d)) \<or> (\<exists>d < s. bit w (i + (s + d)))"
    then show "\<exists>d < 2 * s. bit w (i + d)" by (elim disjE exE conjE) force+
  qed
  finally show ?thesis .
qed

definition smear :: "u64 \<Rightarrow> u64" where
  "smear n = (let n = n OR drop_bit 1 n; n = n OR drop_bit 2 n;
         n = n OR drop_bit 4 n; n = n OR drop_bit 8 n;
         n = n OR drop_bit 16 n; n = n OR drop_bit 32 n
     in n)"

lemma npow2_smear: "npow2 n = (if n = 0 then 1 else smear (n - 1) + 1)"
  by (simp add: npow2_def smear_def Let_def)

lemma bit_smear: "bit (smear n) i = (\<exists>d < 64. bit n (i + d))"
proof -
  have s0: "\<And>i. bit n i = (\<exists>d < 1. bit n (i + d))" by simp
  note s1 = smear_step [OF s0, simplified]
  note s2 = smear_step [OF s1, simplified]
  note s3 = smear_step [OF s2, simplified]
  note s4 = smear_step [OF s3, simplified]
  note s5 = smear_step [OF s4, simplified]
  note s6 = smear_step [OF s5, simplified]
  show ?thesis by (simp add: smear_def Let_def s6)
qed

lemma smear_mask:
  assumes "2 ^ k \<le> unat n" and "unat n < 2 ^ Suc k"
  shows "smear n = mask (Suc k)"
proof (rule bit_word_eqI)
  fix i assume "i < LENGTH(64)"
  have top: "bit n k" using bit_nat_top [OF assms] by (simp add: bit_unat)
  have above: "\<not> bit n j" if "k < j" for j
    using bit_nat_above [OF assms(2), of j] that by (simp add: bit_unat)
  have k64: "k < 64" using top bit_imp_le_length [of n k] by simp
  have "(\<exists>d < 64. bit n (i + d)) = (i \<le> k)"
  proof
    assume "\<exists>d < 64. bit n (i + d)"
    then show "i \<le> k" using above by (metis le_add1 not_le order.strict_trans2)
  next
    assume "i \<le> k"
    then have "k - i < 64 \<and> bit n (i + (k - i))" using top k64 by simp
    then show "\<exists>d < 64. bit n (i + d)" by blast
  qed
  then show "bit (smear n) i = bit (mask (Suc k) :: u64) i"
    using \<open>i < LENGTH(64)\<close> by (simp add: bit_smear bit_mask_iff less_Suc_eq_le)
qed

lemma npow2_pow2:
  assumes "1 < unat n" and "2 ^ k < unat n" and "unat n \<le> 2 ^ Suc k"
  shows "npow2 n = 2 ^ Suc k"
proof -
  have n0: "n \<noteq> 0" using assms(1) by auto
  have "unat (n - 1) = unat n - 1" using n0 by (simp add: unat_minus_one)
  then have "2 ^ k \<le> unat (n - 1)" "unat (n - 1) < 2 ^ Suc k" using assms by auto
  then have "smear (n - 1) = mask (Suc k)" by (rule smear_mask)
  then show ?thesis using n0 by (simp only: npow2_smear if_False inc_mask_eq_exp)
qed

lemma npow2_one: "npow2 0 = 1" "npow2 1 = 1"
  by (simp_all add: npow2_smear smear_def)

text \<open>
  C36. For every size up to 2^63, \<open>npow2\<close> returns the least power of two that is not smaller:
  the result is a power of two, it is at least the argument, and every power of two that is at
  least the argument is at least the result.
\<close>

theorem npow2_least_power:
  assumes "unat n \<le> 2 ^ 63"
  shows "(\<exists>k < 64. npow2 n = 2 ^ k) \<and> unat n \<le> unat (npow2 n)
     \<and> (\<forall>j. unat n \<le> 2 ^ j \<longrightarrow> unat (npow2 n) \<le> 2 ^ j)"
proof (cases "unat n \<le> 1")
  case True
  then have "n = 0 \<or> n = 1" 
    by (metis le_less less_one unat_1 unat_0_iff unsigned_word_eqI)
  then have "npow2 n = 1" using npow2_one by auto
  then show ?thesis using True by (intro conjI exI [of _ 0]) auto
next
  case False
  then have pos: "0 < unat n - 1" by simp
  obtain k where k: "2 ^ k \<le> unat n - 1" "unat n - 1 < 2 ^ Suc k"
    using pow2_bracket [OF pos] by blast
  have k2: "2 ^ k < unat n" "unat n \<le> 2 ^ Suc k" using k False by auto
  have "(2::nat) ^ k < 2 ^ 63" using k2(1) assms by linarith
  then have k63: "k < 63" by (rule power_less_imp_less_exp [rotated]) simp
  have eq: "npow2 n = 2 ^ Suc k" using npow2_pow2 [OF _ k2] False by simp
  have ueq: "unat (npow2 n) = 2 ^ Suc k" unfolding eq using k63 by (intro unat_pow2) simp
  have "2 ^ Suc k \<le> (2::nat) ^ j" if "unat n \<le> 2 ^ j" for j
  proof -
    have "(2::nat) ^ k < 2 ^ j" using k2(1) that by linarith
    then have "k < j" by simp
    then show ?thesis by (intro power_increasing) auto
  qed
  then show ?thesis using eq ueq k2(2) k63 by (intro conjI exI [of _ "Suc k"]) auto
qed

theorem npow2_least_power_witness:
  "unat (5000 :: u64) \<le> 2 ^ 63 \<and> npow2 5000 = 8192 \<and> (\<exists>k < 64. npow2 5000 = 2 ^ k)"
  using npow2_least_power [of 5000] by (simp add: npow2_def)

lemma npow2_wraps:
  assumes "2 ^ 63 < unat n"
  shows "npow2 n = 0"
proof -
  have "unat n < 2 ^ 64" using unsigned_less [of n, where ?'a = nat] by simp
  then have "npow2 n = 2 ^ Suc 63" using assms by (intro npow2_pow2) auto
  then show ?thesis by simp
qed

section \<open>Integer logarithm\<close>

lemma clzll_top:
  assumes "k < 64" and "bit n k" and "\<And>i. k < i \<Longrightarrow> \<not> bit n i"
  shows "clzll n = Some (of_nat (63 - k))"
proof -
  have "rev [0..<64] = rev [Suc k..<64] @ k # rev [0..<k]"
    using upt_add_eq_append [of 0 "Suc k" "63 - k"] assms(1) by simp
  then have "takeWhile (\<lambda>i. \<not> bit n i) (rev [0..<64]) = rev [Suc k..<64]"
    using assms(2,3) by (simp add: takeWhile_append)
  moreover have "n \<noteq> 0" using assms(2) by auto
  ultimately show ?thesis by (simp add: clzll_def)
qed

text \<open>
  C37. \<open>log2\<close> is the integer logarithm: where it has a result \<open>k\<close> (that is, for every nonzero
  argument), the argument lies between 2^k and 2^(k+1).
\<close>

theorem log2_bracket:
  assumes "n \<noteq> 0"
  shows "\<exists>k. log2 n = Some k \<and> unat k < 64 \<and> 2 ^ unat k \<le> unat n \<and> unat n < 2 ^ Suc (unat k)"
proof -
  from assms obtain k where k: "k < LENGTH(64)" "2 ^ k \<le> unat n" "unat n < 2 ^ Suc k"
    "bit n k" "\<forall>i > k. \<not> bit n i"
    by (rule word_top_bit)
  have "log2 n = Some (64 - of_nat (63 - k) - 1)"
    using clzll_top [of k n] k by (simp add: log2_def)
  also have "64 - of_nat (63 - k) - 1 = (of_nat k :: u64)"
    using k(1) by (simp add: of_nat_diff)
  finally have "log2 n = Some (of_nat k)" .
  moreover have "unat (of_nat k :: u64) = k" using k(1) by (simp add: unat_of_nat)
  ultimately show ?thesis using k by auto
qed

theorem log2_bracket_witness: "(256 :: u64) \<noteq> 0 \<and> (\<exists>k. log2 256 = Some k \<and> 2 ^ unat k \<le> (256::nat))"
  using log2_bracket [of 256] by auto

lemma log2_zero: "log2 0 = None"
  by (simp add: log2_def clzll_def)

lemma log2_pow2: "k < 64 \<Longrightarrow> log2 (2 ^ k) = Some (of_nat k)"
proof -
  assume k: "k < 64"
  then have "clzll (2 ^ k) = Some (of_nat (63 - k))"
    by (intro clzll_top) (auto simp: bit_exp_iff)
  then show ?thesis using k by (simp add: log2_def of_nat_diff)
qed

section \<open>Bitmaps\<close>

lemma bitmap_index_inj:
  "drop_bit 3 i = drop_bit 3 j \<Longrightarrow> i AND 7 = j AND 7 \<Longrightarrow> i = (j :: u64)"
proof -
  assume a: "drop_bit 3 i = drop_bit 3 j" "i AND 7 = j AND 7"
  have m: "(7 :: u64) = mask 3" by (simp add: mask_eq_exp_minus_1)
  have "push_bit 3 (drop_bit 3 i) + take_bit 3 i = push_bit 3 (drop_bit 3 j) + take_bit 3 j"
    using a by (simp add: m take_bit_eq_mask)
  then show ?thesis by (simp add: bits_ident)
qed

lemma push_bit_disjoint:
  assumes "k < LENGTH('a)" and "l < LENGTH('a)" and "k \<noteq> l"
  shows "(w OR push_bit k 1) AND push_bit l 1 = (w AND push_bit l 1 :: 'a::len word)"
    and "(w AND NOT (push_bit k 1)) AND push_bit l 1 = (w AND push_bit l 1 :: 'a::len word)"
  using assms by (auto intro!: bit_word_eqI simp: bit_simps)

lemma push_bit_same:
  assumes "k < LENGTH('a)"
  shows "(w OR push_bit k 1) AND push_bit k 1 = (push_bit k 1 :: 'a::len word)"
    and "(w AND NOT (push_bit k 1)) AND push_bit k 1 = (0 :: 'a::len word)"
  using assms by (auto intro!: bit_word_eqI simp: bit_simps)

lemma unat_and7: "unat (n AND 7 :: u64) < 8"
proof -
  have "n AND 7 = take_bit 3 n" by (simp add: take_bit_eq_mask mask_eq_exp_minus_1)
  then show ?thesis using take_bit_nat_less_exp [of 3 "unat n"] by (simp add: unsigned_take_bit_eq)
qed

text \<open>Bitmap bits are independent cells.\<close>

lemma bitmap_get_set:
  "bitmap_get bm j (bitmap_set bm i b m) =
     (if i = j then (if b \<noteq> 0 then push_bit (unat (i AND 7)) 1 else 0) else bitmap_get bm j m)"
proof (cases "drop_bit 3 i = drop_bit 3 j")
  case True
  have lt: "unat (i AND 7) < LENGTH(8)" "unat (j AND 7) < LENGTH(8)" using unat_and7 by auto
  show ?thesis
  proof (cases "i = j")
    case False
    with True have "i AND 7 \<noteq> j AND 7" using bitmap_index_inj by blast
    then have "unat (i AND 7) \<noteq> unat (j AND 7)" by (metis unsigned_word_eqI)
    with push_bit_disjoint [OF lt] True False show ?thesis
      by (simp add: bitmap_get_def bitmap_set_def Let_def)
  qed (use push_bit_same [OF lt(1)] in \<open>simp add: bitmap_get_def bitmap_set_def Let_def\<close>)
next
  case False
  then show ?thesis by (auto simp: bitmap_get_def bitmap_set_def Let_def)
qed

lemma push_bit_1_nonzero: "push_bit (unat (i AND 7 :: u64)) (1 :: u8) \<noteq> 0"
  using unat_and7 [of i] by (simp add: push_bit_eq_0_iff)

lemma bitmap_get_set_frame:
  "p \<noteq> bm + drop_bit 3 n \<Longrightarrow> bitmap_set bm n b m p = m p"
  by (simp add: bitmap_set_def Let_def)

end
