(* ===== verification/Kstring.thy ===== *)
theory Kstring
  imports Kernel_Prelude
begin

unbundle bit_operations_syntax

text \<open>
  \<^verbatim>\<open>lib/string.c\<close> on the byte memory. A loop that runs until it meets a NUL byte is a
  \<open>partial_function\<close>: without a terminator it does not return. Loops with a count are
  recursive on the number of iterations left. \<open>char\<close> is signed on this target, so character
  differences are taken on \<open>sint\<close>.

  \<open>cstr m p s\<close> says that \<open>p\<close> points to the NUL-terminated string with the bytes \<open>s\<close>.
\<close>

section \<open>Memory blocks\<close>

primrec memcpy_loop :: "nat \<Rightarrow> addr \<Rightarrow> addr \<Rightarrow> mem \<Rightarrow> mem" where
  "memcpy_loop 0 d s m = m"
| "memcpy_loop (Suc k) d s m = memcpy_loop k (d + 1) (s + 1) (m(d := m s))"

definition memcpy :: "addr \<Rightarrow> addr \<Rightarrow> u64 \<Rightarrow> mem \<Rightarrow> addr \<times> mem" where
  "memcpy dest src num m = (dest, memcpy_loop (unat num) dest src m)"

primrec memcmp_loop :: "nat \<Rightarrow> addr \<Rightarrow> addr \<Rightarrow> mem \<Rightarrow> int" where
  "memcmp_loop 0 a b m = 0"
| "memcmp_loop (Suc k) a b m =
     (if m a \<noteq> m b then sint (ucast ((a + 1) - (b + 1)) :: u32)
      else memcmp_loop k (a + 1) (b + 1) m)"

definition memcmp :: "addr \<Rightarrow> addr \<Rightarrow> u64 \<Rightarrow> mem \<Rightarrow> int" where
  "memcmp aa bb num m = memcmp_loop (unat num) aa bb m"

text \<open>A 64-bit store: eight bytes, least significant first.\<close>

definition store64 :: "addr \<Rightarrow> u64 \<Rightarrow> mem \<Rightarrow> mem" where
  "store64 p v m = put_bytes m p (map (\<lambda>i. ucast (drop_bit (8 * i) v)) [0..<8])"

primrec memset_words :: "nat \<Rightarrow> addr \<Rightarrow> u64 \<Rightarrow> mem \<Rightarrow> mem" where
  "memset_words 0 ptr val m = m"
| "memset_words (Suc k) ptr val m = memset_words k (ptr + 8) val (store64 ptr val m)"

primrec memset_bytes :: "nat \<Rightarrow> addr \<Rightarrow> u8 \<Rightarrow> mem \<Rightarrow> mem" where
  "memset_bytes 0 ptr c m = m"
| "memset_bytes (Suc k) ptr c m = memset_bytes k (ptr + 1) c (m(ptr := c))"

definition memset :: "addr \<Rightarrow> u32 \<Rightarrow> u64 \<Rightarrow> mem \<Rightarrow> addr \<times> mem" where
  "memset str c n m =
    (let val = scast c :: u64;
         val = val OR push_bit 8 val;
         val = val OR push_bit 16 val;
         val = val OR push_bit 32 val;
         m = memset_words (unat (drop_bit 3 n)) str val m;
         m = (if n AND 7 \<noteq> 0
              then memset_bytes (unat (n AND 7)) (str + (n AND NOT 7)) (ucast c) m else m)
     in (str, m))"

section \<open>NUL-terminated strings\<close>

partial_function (option) strcmp :: "addr \<Rightarrow> addr \<Rightarrow> mem \<Rightarrow> int option" where
  "strcmp a b m =
     (if m a \<noteq> 0 \<and> m b \<noteq> 0 then
        (if m a \<noteq> m b then Some (sint (m a) - sint (m b)) else strcmp (a + 1) (b + 1) m)
      else Some (sint (m a) - sint (m b)))"

primrec strncmp_loop :: "nat \<Rightarrow> addr \<Rightarrow> addr \<Rightarrow> mem \<Rightarrow> int" where
  "strncmp_loop 0 a b m = 0"
| "strncmp_loop (Suc k) a b m =
     (if m a \<noteq> m b then sint (m a) - sint (m b)
      else if m a = 0 then 0 else strncmp_loop k (a + 1) (b + 1) m)"

definition strncmp :: "addr \<Rightarrow> addr \<Rightarrow> u64 \<Rightarrow> mem \<Rightarrow> int" where
  "strncmp a b n m = strncmp_loop (unat n) a b m"

partial_function (option) strcpy :: "addr \<Rightarrow> addr \<Rightarrow> mem \<Rightarrow> (addr \<times> mem) option" where
  "strcpy dest src m =
     (let c = m src; m = m(dest := c) in
      if c \<noteq> 0 then strcpy (dest + 1) (src + 1) m else Some (dest + 1, m))"

primrec strncpy_loop :: "nat \<Rightarrow> addr \<Rightarrow> addr \<Rightarrow> mem \<Rightarrow> mem" where
  "strncpy_loop 0 dest src m = m"
| "strncpy_loop (Suc k) dest src m =
     (let m' = m(dest := m src) in
      if m' src = 0 then m' else strncpy_loop k (dest + 1) (src + 1) m')"

definition strncpy :: "addr \<Rightarrow> addr \<Rightarrow> u64 \<Rightarrow> mem \<Rightarrow> addr \<times> mem" where
  "strncpy dest src n m = (dest, strncpy_loop (unat n) dest src m)"

partial_function (option) strend :: "addr \<Rightarrow> mem \<Rightarrow> addr option" where
  "strend b m = (if m b \<noteq> 0 then strend (b + 1) m else Some b)"

definition strlen :: "addr \<Rightarrow> mem \<Rightarrow> u64 option" where
  "strlen c m = do { b \<leftarrow> strend c m; Some (b - c) }"

partial_function (option) strchr :: "addr \<Rightarrow> int \<Rightarrow> mem \<Rightarrow> addr option" where
  "strchr s c m =
     (if m s \<noteq> 0 then (if sint (m s) = c then Some s else strchr (s + 1) c m) else Some NULL)"

text \<open>
  \<open>strtok\<close> keeps its position in \<open>llast\<close>, which the model passes and returns; the result is
  the token (\<open>NULL\<close> at the end), the new position and the memory.
\<close>

partial_function (option) strtok_loop ::
  "addr \<Rightarrow> addr \<Rightarrow> addr \<Rightarrow> mem \<Rightarrow> (addr \<times> addr \<times> mem) option" where
  "strtok_loop ret llast delim m =
     (if m llast \<noteq> 0 then do {
        d \<leftarrow> strchr delim (sint (m llast)) m;
        if d \<noteq> NULL then Some (ret, llast + 1, m(llast := 0))
        else strtok_loop ret (llast + 1) delim m
      }
      else if m ret = 0 then Some (NULL, llast, m)
      else Some (ret, llast, m))"

definition strtok :: "addr \<Rightarrow> addr \<Rightarrow> addr \<Rightarrow> mem \<Rightarrow> (addr \<times> addr \<times> mem) option" where
  "strtok str delim llast m =
     (let llast = (if str \<noteq> NULL then str else llast) in
      if llast = NULL then Some (NULL, llast, m)
      else strtok_loop llast llast delim m)"

text \<open>\<open>strempty\<close> scans backwards for a character other than a space.\<close>

primrec strempty_loop :: "nat \<Rightarrow> addr \<Rightarrow> mem \<Rightarrow> bool" where
  "strempty_loop 0 s m = True"
| "strempty_loop (Suc i) s m =
     (if m (s + of_nat i) \<noteq> 32 then False else strempty_loop i s m)"

definition strempty :: "addr \<Rightarrow> mem \<Rightarrow> bool option" where
  "strempty s m =
     (if s = NULL then Some True else if m s = 0 then Some True
      else do { i \<leftarrow> strlen s m; Some (strempty_loop (unat i) s m) })"

text \<open>
  \<open>atoi\<close> runs from the last character to the first; \<open>b\<close> is the weight of the digit. Additions
  and multiplications are on 32-bit \<open>int\<close>, with two's complement wrap-around written as words.
\<close>

primrec atoi_loop :: "nat \<Rightarrow> addr \<Rightarrow> u32 \<Rightarrow> u32 \<Rightarrow> mem \<Rightarrow> u32" where
  "atoi_loop 0 a b ret m = ret"
| "atoi_loop (Suc i) a b ret m =
     atoi_loop i a (b * 10) (ret + b * (scast (m (a + of_nat i)) - 48)) m"

definition atoi :: "addr \<Rightarrow> mem \<Rightarrow> int option" where
  "atoi a m = do {
     n \<leftarrow> strlen a m;
     let ndigits = sint (ucast n :: u32);
     Some (sint (atoi_loop (nat ndigits) a 1 0 m))
   }"

section \<open>Memory blocks: what the loops do\<close>

lemma put_bytes_append: "put_bytes m p (xs @ ys) = put_bytes (put_bytes m p xs) (p + of_nat (length xs)) ys"
  by (induction xs arbitrary: m p) (simp_all add: ac_simps)

lemma put_bytes_outside:
  "(\<And>i. i < length xs \<Longrightarrow> q \<noteq> p + of_nat i) \<Longrightarrow> put_bytes m p xs q = m q"
proof (induction xs arbitrary: m p)
  case (Cons x xs)
  have "q \<noteq> p" using Cons.prems [of 0] by simp
  moreover
  have "q \<noteq> p + 1 + of_nat i" if "i < length xs" for i
    using Cons.prems [of "Suc i"] that by (simp add: ac_simps)
  then have "put_bytes (m(p := x)) (p + 1) xs q = (m(p := x)) q" by (rule Cons.IH)
  ultimately show ?case by simp
qed simp

lemma add_of_nat_inj:
  fixes p :: addr
  assumes "p + of_nat i = p + of_nat j" "i < 2 ^ 64" "j < 2 ^ 64"
  shows "i = j"
proof -
  have "unat (of_nat i :: addr) = unat (of_nat j :: addr)" using assms(1) by simp
  then show ?thesis using assms(2,3) by (simp add: unat_of_nat)
qed

lemma put_bytes_nth:
  "length xs \<le> 2 ^ 64 \<Longrightarrow> i < length xs \<Longrightarrow> put_bytes m p xs (p + of_nat i) = xs ! i"
proof (induction xs arbitrary: m p i)
  case (Cons x xs)
  show ?case
  proof (cases i)
    case 0
    have "p \<noteq> p + 1 + of_nat j" if "j < length xs" for j
      using add_of_nat_inj [of p 0 "Suc j"] that Cons.prems(1) by (auto simp: ac_simps)
    then show ?thesis using 0 by (simp add: put_bytes_outside)
  next
    case (Suc k)
    have "put_bytes (m(p := x)) (p + 1) xs (p + 1 + of_nat k) = xs ! k"
      using Cons.prems Suc by (intro Cons.IH) simp_all
    then show ?thesis by (simp add: Suc add.assoc)
  qed
qed simp

lemma bytes_at_put_bytes: "length xs \<le> 2 ^ 64 \<Longrightarrow> bytes_at (put_bytes m p xs) p (length xs) = xs"
  by (rule nth_equalityI) (simp_all add: bytes_at_def put_bytes_nth)

lemma bytes_at_put_apart:
  "apart p n q (length xs) \<Longrightarrow> bytes_at (put_bytes m q xs) p n = bytes_at m p n"
  unfolding bytes_at_def apart_def by (auto intro!: put_bytes_outside)

lemma put_bytes_same: "put_bytes m p (bytes_at m p n) = m"
proof (induction n arbitrary: m p)
  case (Suc n)
  show ?case by (simp add: bytes_at_Suc Suc.IH)
qed (simp add: bytes_at_def)

lemma bytes_at_upd:
  "(\<And>j. j < n \<Longrightarrow> q \<noteq> p + of_nat j) \<Longrightarrow> bytes_at (m(q := v)) p n = bytes_at m p n"
  unfolding bytes_at_def by (rule map_cong [OF refl]) (metis atLeastLessThan_iff fun_upd_apply set_upt)

lemma apart_shift:
  assumes "apart p (Suc n) q (Suc k)"
  shows "apart (p + 1) n (q + 1) k"
  unfolding apart_def
proof (intro allI impI)
  fix i j assume "i < n" "j < k"
  then show "p + 1 + of_nat i \<noteq> q + 1 + of_nat j"
    using assms [unfolded apart_def, rule_format, of "Suc i" "Suc j"] by (simp add: ac_simps)
qed

lemma memcpy_loop_put:
  "apart d n s n \<Longrightarrow> memcpy_loop n d s m = put_bytes m d (bytes_at m s n)"
proof (induction n arbitrary: d s m)
  case (Suc n)
  have ne: "d \<noteq> s + of_nat j" if "j < Suc n" for j
    using Suc.prems [unfolded apart_def, rule_format, of 0 j] that by simp
  have "apart (d + 1) n (s + 1) n" using Suc.prems by (rule apart_shift)
  then have "memcpy_loop n (d + 1) (s + 1) (m(d := m s)) =
    put_bytes (m(d := m s)) (d + 1) (bytes_at (m(d := m s)) (s + 1) n)"
    by (rule Suc.IH)
  moreover have "bytes_at (m(d := m s)) (s + 1) n = bytes_at m (s + 1) n"
  proof (rule bytes_at_upd)
    fix j assume "j < n"
    then show "d \<noteq> s + 1 + of_nat j" using ne [of "Suc j"] by (simp add: add.assoc)
  qed
  ultimately show ?case by (simp add: bytes_at_Suc)
qed (simp add: bytes_at_def)

lemma memset_bytes_put: "memset_bytes k p c m = put_bytes m p (replicate k c)"
  by (induction k arbitrary: p m) simp_all

lemma scast_byte:
  fixes c :: u32
  assumes "c < 256"
  shows "scast c = (ucast c :: u64)" and "8 \<le> n \<Longrightarrow> \<not> bit c n"
proof -
  have "unat c < 2 ^ 8" using assms by (simp add: word_less_nat_alt)
  then show nb: "\<not> bit c n" if "8 \<le> n" for n
    using bit_nat_above [of "unat c" 8 n] that by (simp add: bit_unat)
  show "scast c = (ucast c :: u64)"
    by (rule bit_word_eqI) (auto simp: bit_simps nb min_def not_le)
qed

lemma memset_pattern:
  fixes c :: u32
  assumes "c < 256" and "i < 8"
  defines "v \<equiv> ucast c :: u64"
  defines "v1 \<equiv> v OR push_bit 8 v"
  defines "v2 \<equiv> v1 OR push_bit 16 v1"
  defines "v3 \<equiv> v2 OR push_bit 32 v2"
  shows "ucast (drop_bit (8 * i) v3) = (ucast c :: u8)"
proof (rule bit_word_eqI)
  fix j assume "j < LENGTH(8)"
  then have j: "j < 8" by simp
  have v: "bit v n = (n < 8 \<and> bit c n)" for n
    using scast_byte(2) [OF assms(1), of n] by (cases "n < 8") (auto simp: v_def bit_simps)
  have m8: "8 * k \<le> n \<Longrightarrow> (n - 8 * k) mod 8 = n mod 8" for k n :: nat
    by (metis le_add_diff_inverse mod_mult_self4)
  have v1: "bit v1 n = (n < 16 \<and> bit c (n mod 8))" for n
    using m8 [of 1 n] by (cases "n < 8") (auto simp: v1_def bit_simps v)
  have v2: "bit v2 n = (n < 32 \<and> bit c (n mod 8))" for n
    using m8 [of 2 n] by (cases "n < 16") (auto simp: v2_def bit_simps v1)
  have v3: "bit v3 n = (n < 64 \<and> bit c (n mod 8))" for n
    using m8 [of 4 n] by (cases "n < 32") (auto simp: v3_def bit_simps v2)
  show "bit (ucast (drop_bit (8 * i) v3) :: u8) j = bit (ucast c :: u8) j"
    using j assms(2) by (simp add: bit_simps v3)
qed

lemma store64_pattern:
  assumes "c < 256"
  defines "v \<equiv> scast (c :: u32) :: u64"
  defines "v1 \<equiv> v OR push_bit 8 v"
  defines "v2 \<equiv> v1 OR push_bit 16 v1"
  defines "v3 \<equiv> v2 OR push_bit 32 v2"
  shows "store64 p v3 m = put_bytes m p (replicate 8 (ucast c))"
proof -
  have "map (\<lambda>i. ucast (drop_bit (8 * i) v3)) [0..<8] = replicate 8 (ucast c :: u8)"
    using memset_pattern [OF assms(1)]
    unfolding v3_def v2_def v1_def v_def scast_byte(1) [OF assms(1)]
    by (intro nth_equalityI) simp_all
  then show ?thesis by (simp only: store64_def)
qed

lemma memset_words_put:
  assumes "\<And>p m. store64 p v m = put_bytes m p (replicate 8 c)"
  shows "memset_words k p v m = put_bytes m p (replicate (8 * k) c)"
proof (induction k arbitrary: p m)
  case (Suc k)
  have "replicate (8 * Suc k) c = replicate 8 c @ replicate (8 * k) c"
    by (simp add: replicate_add)
  then show ?case by (simp only: memset_words.simps assms Suc.IH put_bytes_append) simp
qed simp

lemma word_div8:
  fixes n :: u64
  shows "unat (drop_bit 3 n) = unat n div 8" and "unat (n AND 7) = unat n mod 8"
    and "n AND NOT 7 = of_nat (8 * (unat n div 8))"
proof -
  have 7: "(7 :: u64) = mask 3" by (simp add: mask_eq_exp_minus_1)
  show 1: "unat (drop_bit 3 n) = unat n div 8" by (simp add: drop_bit_eq_div unat_div)
  show "unat (n AND 7) = unat n mod 8"
    by (simp add: 7 take_bit_eq_mask [symmetric] take_bit_eq_mod unat_mod)
  have "n AND NOT 7 = push_bit 3 (drop_bit 3 n)"
    unfolding 7 by (rule bit_word_eqI) (auto simp: bit_simps)
  also have "\<dots> = of_nat (8 * unat (drop_bit 3 n))"
    by (simp add: push_bit_eq_mult mult.commute)
  finally show "n AND NOT 7 = of_nat (8 * (unat n div 8))" by (simp only: 1)
qed

lemma memset_put:
  assumes "c < 256"
  shows "memset str c n m = (str, put_bytes m str (replicate (unat n) (ucast c)))"
proof -
  have n: "replicate (unat n) x = replicate (8 * (unat n div 8)) x @ replicate (unat n mod 8) x" for x :: u8
    by (simp add: replicate_add [symmetric])
  note w = memset_words_put [OF store64_pattern [OF assms]]
  have tail: "(if n AND 7 \<noteq> 0 then memset_bytes (unat (n AND 7)) p b m' else m') =
      put_bytes m' p (replicate (unat n mod 8) b)" for p b m'
    by (simp add: memset_bytes_put word_div8(2) [symmetric])
  show ?thesis
    unfolding memset_def Let_def w tail unfolding word_div8 n put_bytes_append by simp
qed

section \<open>NUL-terminated strings: what the loops do\<close>

primrec cstr :: "mem \<Rightarrow> addr \<Rightarrow> u8 list \<Rightarrow> bool" where
  "cstr m p [] \<longleftrightarrow> m p = 0"
| "cstr m p (x # xs) \<longleftrightarrow> x \<noteq> 0 \<and> m p = x \<and> cstr m (p + 1) xs"

lemma cstr_put_bytes:
  "0 \<notin> set s \<Longrightarrow> length s < 2 ^ 64 \<Longrightarrow> cstr (put_bytes m p (s @ [0])) p s"
proof (induction s arbitrary: m p)
  case (Cons x xs)
  have "cstr (put_bytes (m(p := x)) (p + 1) (xs @ [0])) (p + 1) xs"
    using Cons.prems by (intro Cons.IH) simp_all
  moreover have "put_bytes m p ((x # xs) @ [0]) (p + of_nat 0) = ((x # xs) @ [0]) ! 0"
    using Cons.prems by (intro put_bytes_nth) simp_all
  ultimately show ?case using Cons.prems by simp
qed simp

lemma cstr_bytes_at: "cstr m p s \<Longrightarrow> bytes_at m p (Suc (length s)) = s @ [0]"
proof (induction s arbitrary: p)
  case (Cons x xs)
  then show ?case by (subst list.size, subst bytes_at_Suc) simp
qed (simp add: bytes_at_def)

lemma strend_cstr: "cstr m p s \<Longrightarrow> strend p m = Some (p + of_nat (length s))"
  by (induction s arbitrary: p) (simp_all add: strend.simps ac_simps)

lemma strlen_cstr: "cstr m p s \<Longrightarrow> strlen p m = Some (of_nat (length s))"
  by (simp add: strlen_def strend_cstr)

text \<open>The value \<open>strcmp\<close> computes, on the strings themselves.\<close>

fun cmp_chars :: "u8 list \<Rightarrow> u8 list \<Rightarrow> int" where
  "cmp_chars [] [] = 0"
| "cmp_chars [] (y # ys) = - sint y"
| "cmp_chars (x # xs) [] = sint x"
| "cmp_chars (x # xs) (y # ys) = (if x = y then cmp_chars xs ys else sint x - sint y)"

lemma strcmp_cstr: "cstr m a s \<Longrightarrow> cstr m b t \<Longrightarrow> strcmp a b m = Some (cmp_chars s t)"
  by (induction s t arbitrary: a b rule: cmp_chars.induct) (subst strcmp.simps; auto)+

lemma sint_eq_0: "sint (x :: u8) = 0 \<longleftrightarrow> x = 0"
  by (metis signed_0 signed_word_eqI)

lemma cmp_chars_eq: "0 \<notin> set s \<Longrightarrow> 0 \<notin> set t \<Longrightarrow> cmp_chars s t = 0 \<longleftrightarrow> s = t"
  by (induction s t rule: cmp_chars.induct) (auto simp: sint_eq_0 signed_word_eqI)

lemma cstr_no_zero: "cstr m p s \<Longrightarrow> 0 \<notin> set s"
  by (induction s arbitrary: p) auto

lemma sint_ascii: "x < 128 \<Longrightarrow> sint (x :: u8) = uint x"
  using order_trans [of "-128" 0 "uint x"]
  by (simp add: sint_uint signed_take_bit_int_eq_self_iff word_less_def)

lemma sint_ascii_less: "x < 128 \<Longrightarrow> y < 128 \<Longrightarrow> sint (x :: u8) < sint y \<longleftrightarrow> x < y"
  by (simp add: sint_ascii word_less_def)

lemma sint_ascii_pos: "x < 128 \<Longrightarrow> 0 < sint (x :: u8) \<longleftrightarrow> x \<noteq> 0"
  using sint_ascii_less [of 0 x] by (simp add: word_gt_0)

lemma cmp_chars_less:
  "0 \<notin> set s \<Longrightarrow> 0 \<notin> set t \<Longrightarrow> list_all (\<lambda>x. x < 128) s \<Longrightarrow> list_all (\<lambda>x. x < 128) t \<Longrightarrow>
   cmp_chars s t < 0 \<longleftrightarrow> ord_class.lexordp s t"
  by (induction s t rule: cmp_chars.induct)
    (auto simp: sint_ascii_less sint_ascii_pos not_less_iff_gr_or_eq)

lemma strchr_cstr:
  "cstr m p s \<Longrightarrow> strchr p (sint c) m =
     Some (if c \<in> set s then p + of_nat (length (takeWhile (\<lambda>x. x \<noteq> c) s)) else NULL)"
  by (induction s arbitrary: p) (subst strchr.simps; auto simp: ac_simps dest: signed_word_eqI)+

lemma cstr_upd:
  "(\<And>i. i \<le> length s \<Longrightarrow> q \<noteq> p + of_nat i) \<Longrightarrow> cstr (m(q := v)) p s = cstr m p s"
proof (induction s arbitrary: p)
  case (Cons x xs)
  have "q \<noteq> p + 1 + of_nat i" if "i \<le> length xs" for i
    using Cons.prems [of "Suc i"] that by (simp add: ac_simps)
  then have "cstr (m(q := v)) (p + 1) xs = cstr m (p + 1) xs" by (rule Cons.IH)
  moreover have "(m(q := v)) p = m p" using Cons.prems [of 0] by simp
  ultimately show ?case by (simp only: cstr.simps)
qed auto

lemma strcpy_loop_put:
  "cstr m src s \<Longrightarrow> apart dest (Suc (length s)) src (Suc (length s)) \<Longrightarrow>
   strcpy dest src m = Some (dest + of_nat (Suc (length s)), put_bytes m dest (s @ [0]))"
proof (induction s arbitrary: dest src m)
  case Nil
  then show ?case by (subst strcpy.simps) simp
next
  case (Cons x xs)
  have "cstr (m(dest := x)) (src + 1) xs"
  proof (subst cstr_upd)
    fix i assume "i \<le> length xs"
    then show "dest \<noteq> src + 1 + of_nat i"
      using Cons.prems(2) [unfolded apart_def, rule_format, of 0 "Suc i"] by (simp add: ac_simps)
  qed (use Cons.prems(1) in simp)
  moreover have "apart (dest + 1) (Suc (length xs)) (src + 1) (Suc (length xs))"
    using Cons.prems(2) by (auto intro: apart_shift)
  ultimately have "strcpy (dest + 1) (src + 1) (m(dest := x)) =
     Some (dest + 1 + of_nat (Suc (length xs)), put_bytes (m(dest := x)) (dest + 1) (xs @ [0]))"
    by (rule Cons.IH)
  then show ?case using Cons.prems(1) by (subst strcpy.simps) (simp add: ac_simps)
qed

lemma cstr_nth: "cstr m p s \<Longrightarrow> i < length s \<Longrightarrow> m (p + of_nat i) = s ! i"
proof (induction s arbitrary: p i)
  case (Cons x xs)
  then show ?case by (cases i) (simp_all add: add.assoc [symmetric])
qed simp

lemma cstr_append:
  "cstr m p (xs @ y # ys) \<Longrightarrow> cstr m (p + of_nat (length xs)) (y # ys) \<and> cstr m (p + of_nat (length xs) + 1) ys"
proof (induction xs arbitrary: p)
  case (Cons x xs)
  then have "cstr m (p + 1) (xs @ y # ys)" by simp
  from Cons.IH [OF this] show ?case by (simp only: length_Cons of_nat_Suc add.assoc)
qed simp

lemma cstr_truncate:
  assumes "cstr m p (xs @ ys)" and "length (xs @ ys) < 2 ^ 64"
  shows "cstr (m(p + of_nat (length xs) := 0)) p xs"
  using assms
proof (induction xs arbitrary: p)
  case (Cons x xs)
  have "cstr (m((p + 1) + of_nat (length xs) := 0)) (p + 1) xs"
    using Cons.prems by (intro Cons.IH) simp_all
  moreover have "p + of_nat (Suc (length xs)) \<noteq> p"
    using add_of_nat_inj [of p "Suc (length xs)" 0] Cons.prems(2) by auto
  then have "(m(p + of_nat (Suc (length xs)) := 0)) p = m p" by simp
  ultimately show ?case using Cons.prems(1)
    by (simp only: cstr.simps list.size of_nat_Suc add.assoc append_Cons add.right_neutral add_Suc_right) simp
qed simp

lemma strchr_null_iff:
  assumes "cstr m p s" and "p \<noteq> NULL" and "unat p + length s < 2 ^ 64"
  shows "\<exists>d. strchr p (sint c) m = Some d \<and> (d = NULL \<longleftrightarrow> c \<notin> set s)"
proof -
  let ?k = "length (takeWhile (\<lambda>x. x \<noteq> c) s)"
  have "?k \<le> length s" by (rule length_takeWhile_le)
  then have "unat (p + of_nat ?k) = unat p + ?k"
    using assms(3) by (simp add: unat_word_ariths unat_of_nat)
  moreover have "unat p \<noteq> 0" using assms(2) by (simp add: unat_0_iff)
  ultimately have "p + of_nat ?k \<noteq> NULL" by (metis add_is_0 unsigned_0)
  then show ?thesis using assms(1) by (simp add: strchr_cstr)
qed

lemma strtok_loop_end:
  assumes "cstr m delim ds" "delim \<noteq> NULL" "unat delim + length ds < 2 ^ 64"
  shows "cstr m q s \<Longrightarrow> set s \<inter> set ds = {} \<Longrightarrow>
    strtok_loop ret q delim m = Some (if m ret = 0 then NULL else ret, q + of_nat (length s), m)"
proof (induction s arbitrary: q)
  case Nil
  then show ?case by (subst strtok_loop.simps) simp
next
  case (Cons x xs)
  from strchr_null_iff [OF assms, of x] Cons.prems
  show ?case by (subst strtok_loop.simps) (auto simp: Cons.IH ac_simps)
qed

lemma strtok_loop_hit:
  assumes "cstr m delim ds" "delim \<noteq> NULL" "unat delim + length ds < 2 ^ 64" "d \<in> set ds"
  shows "cstr m q (tok @ d # rest) \<Longrightarrow> set tok \<inter> set ds = {} \<Longrightarrow>
    strtok_loop ret q delim m =
      Some (ret, q + of_nat (length tok) + 1, m(q + of_nat (length tok) := 0))"
proof (induction tok arbitrary: q)
  case Nil
  from strchr_null_iff [OF assms(1-3), of d] Nil.prems assms(4)
  show ?case by (subst strtok_loop.simps) auto
next
  case (Cons x xs)
  from strchr_null_iff [OF assms(1-3), of x] Cons.prems
  show ?case by (subst strtok_loop.simps) (auto simp: Cons.IH ac_simps)
qed

text \<open>Decimal value of a digit string, most significant digit first.\<close>

definition decimal :: "nat list \<Rightarrow> nat" where
  "decimal = foldl (\<lambda>a d. 10 * a + d) 0"

lemma digit_value: "d < 10 \<Longrightarrow> scast (of_nat (d + 48) :: u8) - 48 = (of_nat d :: u32)"
proof -
  assume "d < 10"
  then have "d \<in> {0, 1, 2, 3, 4, 5, 6, 7, 8, 9}" by auto
  then show ?thesis by auto
qed

lemma atoi_loop_decimal:
  "(\<And>i. i < length ds \<Longrightarrow> ds ! i < 10 \<and> m (a + of_nat i) = of_nat (ds ! i + 48)) \<Longrightarrow>
   atoi_loop (length ds) a b ret m = ret + b * of_nat (decimal ds)"
proof (induction ds arbitrary: b ret rule: rev_induct)
  case (snoc d ds)
  have "ds ! i < 10 \<and> m (a + of_nat i) = of_nat (ds ! i + 48)" if "i < length ds" for i
    using snoc.prems [of i] that by (simp add: nth_append)
  then have "atoi_loop (length ds) a b' ret' m = ret' + b' * of_nat (decimal ds)" for b' ret'
    by (rule snoc.IH)
  moreover have "d < 10 \<and> m (a + of_nat (length ds)) = of_nat (d + 48)"
    using snoc.prems [of "length ds"] by simp
  ultimately show ?case
    using digit_value [of d] by (simp add: decimal_def algebra_simps)
qed (simp add: decimal_def)

text \<open>\<open>atoi\<close> returns the decimal value of every string of digits whose value fits in an \<open>int\<close>.\<close>

lemma atoi_value:
  assumes "cstr m a (map (\<lambda>d. of_nat (d + 48)) ds)" and "\<forall>d \<in> set ds. d < 10"
    and "decimal ds < 2 ^ 31" and "length ds < 2 ^ 31"
  shows "atoi a m = Some (int (decimal ds))"
proof -
  have "atoi_loop (length ds) a 1 0 m = of_nat (decimal ds)"
    using cstr_nth [OF assms(1)] assms(2) by (subst atoi_loop_decimal) auto
  moreover have "ucast (of_nat (length ds) :: u64) = (of_nat (length ds) :: u32)"
    by (rule bit_word_eqI) (simp add: bit_simps)
  moreover have "sint (of_nat k :: u32) = int k" if "k < 2 ^ 31" for k
    using that by (simp add: signed_of_nat signed_take_bit_int_eq_self_iff)
  ultimately show ?thesis
    using assms(3,4) by (simp add: atoi_def strlen_cstr [OF assms(1)])
qed

section \<open>Properties\<close>

text \<open>
  C35. \<open>memset\<close>, which writes eight bytes at a time and then the tail, fills exactly the \<open>n\<close> bytes
  from \<open>str\<close> with a byte value \<open>c\<close> and returns \<open>str\<close>: every byte of the block reads \<open>c\<close>
  afterwards and every other byte is unchanged.
\<close>

theorem memset_fills:
  assumes "c < 256"
  shows "\<exists>m'. memset str c n m = (str, m') \<and> bytes_at m' str (unat n) = replicate (unat n) (ucast c)
    \<and> (\<forall>q. (\<nexists>i. i < unat n \<and> q = str + of_nat i) \<longrightarrow> m' q = m q)"
proof -
  have "unat n \<le> 2 ^ 64" using unsigned_less [of n, where ?'a = nat] by simp
  then show ?thesis
    using bytes_at_put_bytes [of "replicate (unat n) (ucast c)" m str]
    by (auto simp: memset_put [OF assms] intro!: put_bytes_outside)
qed

theorem memset_fills_witness:
  "\<exists>m'. memset 64 7 11 (\<lambda>_. 1) = (64, m') \<and> bytes_at m' 64 (unat (11 :: u64)) = replicate (unat (11 :: u64)) (ucast (7 :: u32))
    \<and> (\<forall>q. (\<nexists>i. i < unat (11 :: u64) \<and> q = 64 + of_nat i) \<longrightarrow> m' q = 1)"
  by (rule memset_fills) simp

text \<open>
  C34. \<open>strcmp\<close> returns on any two NUL-terminated strings; the result is zero exactly when they are
  equal and, for 7-bit characters, negative exactly when the first is lexicographically smaller.
\<close>

theorem strcmp_correct:
  assumes "cstr m a s" and "cstr m b t"
  shows "\<exists>r. strcmp a b m = Some r \<and> (r = 0 \<longleftrightarrow> s = t)
    \<and> (list_all (\<lambda>x. x < 128) (s @ t) \<longrightarrow> (r < 0 \<longleftrightarrow> ord_class.lexordp s t))"
  using assms cmp_chars_eq [of s t] cmp_chars_less [of s t]
  by (auto simp: strcmp_cstr dest: cstr_no_zero)

theorem strcmp_correct_witness:
  "\<exists>r. strcmp 100 200 (put_bytes (put_bytes (\<lambda>_. 0) 100 [97, 98]) 200 [97, 99]) = Some r
    \<and> (r = 0 \<longleftrightarrow> [97, 98] = [97, 99 :: u8])
    \<and> (list_all (\<lambda>x. x < 128) ([97, 98] @ [97, 99 :: u8]) \<longrightarrow>
        (r < 0 \<longleftrightarrow> ord_class.lexordp [97, 98] [97, 99 :: u8]))"
  by (rule strcmp_correct) simp_all

text \<open>
  C33. \<open>strtok\<close> on a string cuts it at the first delimiter: the token is the part before it, now
  NUL-terminated in place, and the saved position is the string after it. With no delimiter left the
  whole string is the token, and the empty string gives \<open>NULL\<close> with the memory untouched.
\<close>

theorem strtok_splits:
  assumes "cstr m p s" "p \<noteq> NULL" "length s < 2 ^ 64"
    and "cstr m delim ds" "delim \<noteq> NULL" "unat delim + length ds < 2 ^ 64"
  shows "case dropWhile (\<lambda>x. x \<notin> set ds) s of
      [] \<Rightarrow> strtok p delim llast m = Some (if s = [] then NULL else p, p + of_nat (length s), m)
    | d # rest \<Rightarrow> \<exists>next m'. strtok p delim llast m = Some (p, next, m')
        \<and> cstr m' p (takeWhile (\<lambda>x. x \<notin> set ds) s) \<and> cstr m' next rest"
proof (cases "dropWhile (\<lambda>x. x \<notin> set ds) s")
  case Nil
  then have "set s \<inter> set ds = {}" by (auto simp: dropWhile_eq_Nil_conv)
  moreover have "m p = 0 \<longleftrightarrow> s = []" using assms(1) by (cases s) auto
  ultimately show ?thesis
    using assms(1,2) strtok_loop_end [OF assms(4-6), of p s p] unfolding Nil list.case
    by (simp add: strtok_def)
next
  case (Cons d rest)
  define tok where "tok = takeWhile (\<lambda>x. x \<notin> set ds) s"
  let ?m = "m(p + of_nat (length tok) := 0)"
  have s: "s = tok @ d # rest" using Cons by (metis takeWhile_dropWhile_id tok_def)
  have d: "d \<in> set ds" using Cons by (metis dropWhile_eq_Cons_conv)
  have tok: "set tok \<inter> set ds = {}" by (auto simp: tok_def dest: set_takeWhileD)
  have "strtok p delim llast m = Some (p, p + of_nat (length tok) + 1, ?m)"
    using strtok_loop_hit [OF assms(4-6) d _ tok] assms(1,2) by (simp add: strtok_def s)
  moreover have "cstr ?m p tok" using assms(1,3) unfolding s by (rule cstr_truncate)
  moreover have "cstr ?m (p + of_nat (length tok) + 1) rest"
  proof (subst cstr_upd)
    fix i assume "i \<le> length rest"
    then show "p + of_nat (length tok) \<noteq> p + of_nat (length tok) + 1 + of_nat i"
      using add_of_nat_inj [of p "length tok" "length tok + 1 + i"] assms(3) by (auto simp: s add.assoc)
  next
    show "cstr m (p + of_nat (length tok) + 1) rest" using assms(1) cstr_append unfolding s by blast
  qed
  ultimately show ?thesis unfolding Cons list.case tok_def by blast
qed

theorem strtok_splits_witness:
  "case dropWhile (\<lambda>x. x \<notin> set [47 :: u8]) [97, 47, 98] of
      [] \<Rightarrow> strtok 100 200 0 (put_bytes (put_bytes (\<lambda>_. 0) 100 [97, 47, 98]) 200 [47])
        = Some (if [97, 47, 98 :: u8] = [] then NULL else 100, 100 + of_nat (length [97, 47, 98 :: u8]),
            put_bytes (put_bytes (\<lambda>_. 0) 100 [97, 47, 98]) 200 [47])
    | d # rest \<Rightarrow> \<exists>next m'. strtok 100 200 0 (put_bytes (put_bytes (\<lambda>_. 0) 100 [97, 47, 98]) 200 [47])
          = Some (100, next, m')
        \<and> cstr m' 100 (takeWhile (\<lambda>x. x \<notin> set [47 :: u8]) [97, 47, 98]) \<and> cstr m' next rest"
  by (rule strtok_splits) simp_all

end
