(* ===== verification/Buddy.thy ===== *)
theory Buddy
  imports Kmath Kstring
begin

unbundle bit_operations_syntax

text \<open>
  \<^verbatim>\<open>mem/buddy.c\<close>: the buddy allocator of physical memory. Each usable region starts with a header
  and a bitmap with two bits per node of a binary tree of blocks; the blocks themselves follow. The
  headers are a typed store indexed by their (higher-half) address, the bitmap is in the byte
  memory \<open>ram\<close>, 32 bytes after the header. This theory holds the operations in the order of the
  source; the abstract tree and the proofs are in \<open>Buddy_Tree\<close> and \<open>Buddy_Refine\<close>.

  The shift \<open>2 << depth\<close> is on 32-bit \<open>int\<close> and converted to \<open>size_t\<close> afterwards. A function
  returns \<open>None\<close> where \<open>log2\<close> has no result, or where a loop does not end.
\<close>

definition BBMAP_FREE :: u8 where "BBMAP_FREE = 0"
definition BBMAP_SPLIT :: u8 where "BBMAP_SPLIT = 1"
definition BBMAP_USED :: u8 where "BBMAP_USED = 2"

lemmas bbmap_defs = BBMAP_FREE_def BBMAP_SPLIT_def BBMAP_USED_def

record mem_region =
  mr_base :: u64
  mr_len :: u64
  mr_usable :: bool

record buddy_region_header =
  usable_base :: u64
  usable_len :: u64
  max_depth :: u64
  bitmap_len :: u64

definition header_size :: u64 where "header_size = 32"

record buddy_state =
  ram :: mem
  headers :: "addr \<Rightarrow> buddy_region_header"
  mem_regions :: "mem_region list"
  hhdm_start :: u64

section \<open>The bitmap\<close>

definition buddy_bitmap_index :: "u64 \<Rightarrow> u64 \<Rightarrow> u64" where
  "buddy_bitmap_index depth n =
    (let a = scast (push_bit (unat depth) (2 :: u32)) - 2;
         a = (if depth = 0 then 0 else a);
         n = (if depth = 0 then 0 else n)
     in push_bit 1 n + a)"

definition buddy_bitmap_set :: "addr \<Rightarrow> u64 \<Rightarrow> u64 \<Rightarrow> u8 \<Rightarrow> mem \<Rightarrow> mem" where
  "buddy_bitmap_set bitmap depth n val m =
    (let i = buddy_bitmap_index depth n in
     bitmap_set bitmap (i + 1) (ucast (val AND 1)) (bitmap_set bitmap i (ucast (val AND 2)) m))"

definition buddy_bitmap_get :: "addr \<Rightarrow> u64 \<Rightarrow> u64 \<Rightarrow> mem \<Rightarrow> u8" where
  "buddy_bitmap_get bitmap depth n m =
    (let i = buddy_bitmap_index depth n;
         ret = 0;
         ret = (if bitmap_get bitmap i m \<noteq> 0 then ret OR 2 else ret)
     in if bitmap_get bitmap (i + 1) m \<noteq> 0 then ret OR 1 else ret)"

section \<open>Regions\<close>

definition buddy_init_region :: "mem_region \<Rightarrow> 'a buddy_state_scheme \<Rightarrow> 'a buddy_state_scheme option" where
  "buddy_init_region region s =
    (if \<not> mr_usable region then Some s
     else do {
       let bitmap_size_bytes = drop_bit 13 (mr_len region) + 1;
       let head = mr_base region OR hhdm_start s;
       let m = snd (memset (head + header_size) 0 bitmap_size_bytes (ram s));
       let usable_end = mr_base region + mr_len region;
       let curpos = mr_base region + header_size + bitmap_size_bytes;
       let curpos = (curpos OR 0xFFF) + 1;
       let len = drop_bit 1 (npow2 (usable_end - curpos));
       d \<leftarrow> log2 (drop_bit 12 len);
       Some (s\<lparr>ram := m, headers := (headers s)(head := (headers s head)
         \<lparr>usable_base := curpos, usable_len := len, max_depth := d\<rparr>)\<rparr>)
     })"

definition buddy_get_slab :: "buddy_region_header \<Rightarrow> u64 \<Rightarrow> u64 \<Rightarrow> u64" where
  "buddy_get_slab head depth n =
    (if depth = 0 then usable_base head
     else usable_base head + n * drop_bit (unat depth) (usable_len head))"

section \<open>Allocation\<close>

lemma odd_after_even: "n AND 1 = 0 \<Longrightarrow> (n + 1) AND 1 \<noteq> (0 :: u64)"
  by (metis and_one_eq even_plus_one_iff even_zero odd_one parity_cases zero_neq_one)

lemma depth_less_Suc:
  fixes depth tgt :: u64
  assumes "depth \<le> tgt" and "depth \<noteq> tgt"
  shows "unat (depth + 1) = Suc (unat depth)" and "unat depth < unat tgt"
proof -
  show lt: "unat depth < unat tgt" using assms by (metis word_less_nat_alt order_le_less)
  then show "unat (depth + 1) = Suc (unat depth)"
    using unsigned_less [of tgt, where ?'a = nat] by (simp add: unat_word_ariths)
qed

function buddy_alloc_traverse ::
  "buddy_region_header \<Rightarrow> addr \<Rightarrow> u64 \<Rightarrow> u64 \<Rightarrow> u64 \<Rightarrow> mem \<Rightarrow> u64 \<times> mem" where
  "buddy_alloc_traverse head bitmap depth n tgt_depth m =
    (if depth > tgt_depth then (0, m)
     else if tgt_depth > max_depth head then (0, m)
     else
       let val = buddy_bitmap_get bitmap depth n m in
       if val = BBMAP_USED then
         (if n AND 1 \<noteq> 0 then (0, m)
          else buddy_alloc_traverse head bitmap depth (n + 1) tgt_depth m)
       else if val = BBMAP_SPLIT then
         (if depth = tgt_depth then
            (if n AND 1 \<noteq> 0 then (0, m)
             else buddy_alloc_traverse head bitmap depth (n + 1) tgt_depth m)
          else
            (let (ret, m1) = buddy_alloc_traverse head bitmap (depth + 1) (push_bit 1 n) tgt_depth m in
             if ret \<noteq> 0 then (ret, m1)
             else buddy_alloc_traverse head bitmap (depth + 1) (push_bit 1 n + 1) tgt_depth m1))
       else if val = BBMAP_FREE then
         (if depth = tgt_depth then
            (buddy_get_slab head depth n, buddy_bitmap_set bitmap depth n BBMAP_USED m)
          else
            buddy_alloc_traverse head bitmap (depth + 1) (push_bit 1 n) tgt_depth
              (buddy_bitmap_set bitmap depth n BBMAP_SPLIT m))
       else (0, m))"
  by pat_completeness auto

termination
  by (relation "measures [\<lambda>(head, bitmap, depth, n, tgt, m). unat tgt - unat depth,
      \<lambda>(head, bitmap, depth, n, tgt, m). if n AND 1 = 0 then 1 else 0]")
    (auto simp: odd_after_even depth_less_Suc not_less intro!: diff_less_mono2)

declare buddy_alloc_traverse.simps [simp del]

definition buddy_alloc_helper :: "buddy_region_header \<Rightarrow> addr \<Rightarrow> u64 \<Rightarrow> mem \<Rightarrow> (u64 \<times> mem) option" where
  "buddy_alloc_helper head bitmap sz m =
    (if sz < 0x1000 then Some (0, m)
     else do {
       k \<leftarrow> log2 (drop_bit 12 sz);
       let tgt_depth = max_depth head - k;
       Some (buddy_alloc_traverse head bitmap 0 0 tgt_depth m)
     })"

text \<open>
  \<open>buddy_alloc\<close> tries the regions from the last to the first; \<open>rs\<close> is what is left of the
  reversed table.
\<close>

primrec buddy_alloc_regions :: "mem_region list \<Rightarrow> u64 \<Rightarrow> 'a buddy_state_scheme \<Rightarrow>
    (addr \<times> 'a buddy_state_scheme) option" where
  "buddy_alloc_regions [] sz s = Some (NULL, s)"
| "buddy_alloc_regions (r # rs) sz s = do {
     let head = mr_base r OR hhdm_start s;
     (ret, m) \<leftarrow> buddy_alloc_helper (headers s head) (head + header_size) sz (ram s);
     let s = s\<lparr>ram := m\<rparr>;
     if ret \<noteq> 0 then Some (ret OR hhdm_start s, s) else buddy_alloc_regions rs sz s
   }"

definition buddy_alloc :: "u64 \<Rightarrow> 'a buddy_state_scheme \<Rightarrow> (addr \<times> 'a buddy_state_scheme) option" where
  "buddy_alloc sz s =
    (if sz = 0 then Some (NULL, s) else buddy_alloc_regions (rev (mem_regions s)) sz s)"

section \<open>Release\<close>

text \<open>The search loop of \<open>buddy_free_helper\<close>; the result is the last node with a nonzero entry.\<close>

partial_function (option) buddy_free_find ::
  "addr \<Rightarrow> mem \<Rightarrow> u64 \<Rightarrow> u64 \<Rightarrow> u64 \<Rightarrow> u64 \<Rightarrow> u64 \<Rightarrow> u64 \<Rightarrow> (u64 \<times> u64) option" where
  "buddy_free_find bitmap m offset curlen depth n lastdepth lastn =
    (if buddy_bitmap_get bitmap depth n m \<noteq> 0 then
       (let lastn = n; lastdepth = depth;
            depth = depth + 1; n = push_bit 1 n; curlen = drop_bit 1 curlen in
        if offset \<ge> curlen
        then buddy_free_find bitmap m (offset - curlen) curlen depth (n + 1) lastdepth lastn
        else buddy_free_find bitmap m offset curlen depth n lastdepth lastn)
     else Some (lastdepth, lastn))"

function buddy_free_merge :: "addr \<Rightarrow> u64 \<Rightarrow> u64 \<Rightarrow> mem \<Rightarrow> mem" where
  "buddy_free_merge bitmap depth n m =
    (if depth > 0 \<and> buddy_bitmap_get bitmap depth (n XOR 1) m = BBMAP_FREE
     then buddy_free_merge bitmap (depth - 1) (drop_bit 1 n)
            (buddy_bitmap_set bitmap (depth - 1) (drop_bit 1 n) BBMAP_FREE m)
     else m)"
  by pat_completeness auto

termination
  by (relation "measure (\<lambda>(bitmap, depth, n, m). unat depth)")
    (auto simp: unat_minus_one word_gt_0 unat_gt_0)

declare buddy_free_merge.simps [simp del]

definition buddy_free_helper :: "buddy_region_header \<Rightarrow> addr \<Rightarrow> u64 \<Rightarrow> mem \<Rightarrow> mem option" where
  "buddy_free_helper head bitmap paddr m = do {
     let offset = paddr - usable_base head;
     (depth, n) \<leftarrow> buddy_free_find bitmap m offset (usable_len head) 0 0 0 0;
     let m = buddy_bitmap_set bitmap depth n BBMAP_FREE m;
     Some (buddy_free_merge bitmap depth n m)
   }"

text \<open>
  The last statement of \<open>buddy_free\<close> is \<open>assert(0)\<close>, which reports the failure, halts until the next
  interrupt and returns: the state is unchanged there.
\<close>

primrec buddy_free_regions :: "mem_region list \<Rightarrow> u64 \<Rightarrow> 'a buddy_state_scheme \<Rightarrow>
    'a buddy_state_scheme option" where
  "buddy_free_regions [] paddr s = Some s"
| "buddy_free_regions (r # rs) paddr s =
    (let head = mr_base r OR hhdm_start s; h = headers s head in
     if paddr \<ge> usable_base h \<and> paddr < usable_base h + usable_len h
     then do { m \<leftarrow> buddy_free_helper h (head + header_size) paddr (ram s); Some (s\<lparr>ram := m\<rparr>) }
     else buddy_free_regions rs paddr s)"

definition buddy_free :: "addr \<Rightarrow> 'a buddy_state_scheme \<Rightarrow> 'a buddy_state_scheme option" where
  "buddy_free ptr s =
    (if ptr = NULL then Some s
     else buddy_free_regions (rev (mem_regions s)) (ptr AND NOT (hhdm_start s)) s)"

section \<open>The memory map\<close>

text \<open>
  \<open>limine_parse_memregions\<close> walks the boot loader's memory map and appends to, or extends, the region
  table. The result is \<open>None\<close> where the code extends the entry before the first one, which is outside
  the table.
\<close>

datatype limine_memmap_type = MEMMAP_USABLE | MEMMAP_RESERVED | MEMMAP_ACPI_RECLAIMABLE | MEMMAP_ACPI_NVS
  | MEMMAP_BAD_MEMORY | MEMMAP_BOOTLOADER_RECLAIMABLE | MEMMAP_KERNEL_AND_MODULES | MEMMAP_FRAMEBUFFER

record limine_memmap_entry =
  le_base :: u64
  le_length :: u64
  le_type :: limine_memmap_type

definition extend_last :: "mem_region list \<Rightarrow> u64 \<Rightarrow> mem_region list option" where
  "extend_last rs len =
    (if rs = [] then None else Some (butlast rs @ [(last rs)\<lparr>mr_len := mr_len (last rs) + len\<rparr>]))"

definition limine_parse_entry :: "limine_memmap_entry \<Rightarrow> u64 \<times> bool \<times> mem_region list \<Rightarrow>
    (u64 \<times> bool \<times> mem_region list) option" where
  "limine_parse_entry e st =
    (case st of (ret, last_usable, rs) \<Rightarrow>
       if le_type e = MEMMAP_KERNEL_AND_MODULES then Some (le_length e, False, rs)
       else if le_type e \<in> {MEMMAP_USABLE, MEMMAP_ACPI_RECLAIMABLE, MEMMAP_BOOTLOADER_RECLAIMABLE} then
         (if last_usable then do { rs \<leftarrow> extend_last rs (le_length e); Some (ret, True, rs) }
          else Some (ret, True, rs @ [\<lparr>mr_base = le_base e, mr_len = le_length e,
             mr_usable = (le_type e \<noteq> MEMMAP_KERNEL_AND_MODULES)\<rparr>]))
       else
         (if \<not> last_usable then do { rs \<leftarrow> extend_last rs (le_length e); Some (ret, False, rs) }
          else Some (ret, False, rs @ [\<lparr>mr_base = le_base e, mr_len = le_length e, mr_usable = False\<rparr>])))"

primrec limine_parse_loop :: "limine_memmap_entry list \<Rightarrow> u64 \<times> bool \<times> mem_region list \<Rightarrow>
    (u64 \<times> bool \<times> mem_region list) option" where
  "limine_parse_loop [] st = Some st"
| "limine_parse_loop (e # es) st = do { st \<leftarrow> limine_parse_entry e st; limine_parse_loop es st }"

definition limine_parse_memregions :: "limine_memmap_entry list \<Rightarrow> mem_region list \<Rightarrow>
    (u64 \<times> mem_region list) option" where
  "limine_parse_memregions entries rs = do {
     (ret, last_usable, rs) \<leftarrow> limine_parse_loop entries (0, False, rs);
     Some (ret, rs)
   }"

section \<open>Early pages\<close>

text \<open>
  \<open>alloc_page_early\<close> hands out consecutive pages of a static buffer; when it is exhausted the code
  only logs an error and still returns the address.
\<close>

record early_mem =
  kmem :: addr
  kmem_len :: u64
  hwm :: u64

definition alloc_page_early :: "early_mem \<Rightarrow> addr \<times> early_mem" where
  "alloc_page_early e = (hwm e + kmem e, e\<lparr>hwm := hwm e + 0x1000\<rparr>)"

end
