(* ===== verification/Buddy_Tree.thy ===== *)
theory Buddy_Tree
  imports Main
begin

text \<open>
  What the buddy allocator promises, without bitmaps or machine words: a region of \<open>2 ^ k\<close> units is a
  tree that is free, used, or split in two halves. \<open>talloc j\<close> takes the leftmost free block \<open>j\<close>
  levels below the root, \<open>tfree j i\<close> gives block \<open>i\<close> of that level back and merges free halves.
  \<open>ublocks\<close> is the set of used blocks as (start, length) pairs, and the laws below are stated on it.
\<close>

datatype btree = Free | Used | Split btree btree

fun fits :: "nat \<Rightarrow> btree \<Rightarrow> bool" where
  "fits k (Split l r) = (case k of 0 \<Rightarrow> False | Suc k' \<Rightarrow> fits k' l \<and> fits k' r)"
| "fits k _ = True"

fun norm :: "btree \<Rightarrow> bool" where
  "norm (Split l r) \<longleftrightarrow> norm l \<and> norm r \<and> \<not> (l = Free \<and> r = Free)"
| "norm _ \<longleftrightarrow> True"

fun ublocks :: "nat \<Rightarrow> btree \<Rightarrow> nat \<Rightarrow> (nat \<times> nat) set" where
  "ublocks k Free a = {}"
| "ublocks k Used a = {(a, 2 ^ k)}"
| "ublocks (Suc k) (Split l r) a = ublocks k l a \<union> ublocks k r (a + 2 ^ k)"
| "ublocks 0 (Split l r) a = {}"

definition joinb :: "btree \<Rightarrow> btree \<Rightarrow> btree" where
  "joinb l r = (if l = Free \<and> r = Free then Free else Split l r)"

fun talloc :: "nat \<Rightarrow> btree \<Rightarrow> (btree \<times> nat) option" where
  "talloc 0 Free = Some (Used, 0)"
| "talloc 0 _ = None"
| "talloc (Suc j) Used = None"
| "talloc (Suc j) Free = map_option (\<lambda>(l, i). (Split l Free, i)) (talloc j Free)"
| "talloc (Suc j) (Split l r) =
     (case talloc j l of
        Some (l', i) \<Rightarrow> Some (Split l' r, i)
      | None \<Rightarrow> map_option (\<lambda>(r', i). (Split l r', 2 ^ j + i)) (talloc j r))"

fun used_at :: "nat \<Rightarrow> nat \<Rightarrow> btree \<Rightarrow> bool" where
  "used_at 0 i t \<longleftrightarrow> t = Used"
| "used_at (Suc j) i (Split l r) \<longleftrightarrow> (if i < 2 ^ j then used_at j i l else used_at j (i - 2 ^ j) r)"
| "used_at (Suc j) i _ \<longleftrightarrow> False"

fun tfree :: "nat \<Rightarrow> nat \<Rightarrow> btree \<Rightarrow> btree" where
  "tfree 0 i t = Free"
| "tfree (Suc j) i (Split l r) =
     (if i < 2 ^ j then joinb (tfree j i l) r else joinb l (tfree j (i - 2 ^ j) r))"
| "tfree (Suc j) i t = t"

section \<open>Shape\<close>

lemma ublocks_within:
  "(b, s) \<in> ublocks k t a \<Longrightarrow> a \<le> b \<and> b + s \<le> a + 2 ^ k \<and> 0 < s"
  by (induction k t a arbitrary: b s rule: ublocks.induct) fastforce+

lemma ublocks_disjoint:
  "(b, s) \<in> ublocks k t a \<Longrightarrow> (b', s') \<in> ublocks k t a \<Longrightarrow> (b, s) \<noteq> (b', s') \<Longrightarrow>
   b + s \<le> b' \<or> b' + s' \<le> b"
proof (induction k t a rule: ublocks.induct)
  case (3 k l r a)
  then show ?case using ublocks_within [of _ _ k l a] ublocks_within [of _ _ k r "a + 2 ^ k"] by fastforce
qed auto

lemma norm_nonempty: "norm t \<Longrightarrow> t \<noteq> Free \<Longrightarrow> fits k t \<Longrightarrow> ublocks k t a \<noteq> {}"
  by (induction k t a rule: ublocks.induct) auto

lemma ublocks_joinb: "ublocks (Suc k) (joinb l r) a = ublocks k l a \<union> ublocks k r (a + 2 ^ k)"
  by (simp add: joinb_def)

lemma fits_joinb: "fits k l \<Longrightarrow> fits k r \<Longrightarrow> fits (Suc k) (joinb l r)"
  by (simp add: joinb_def)

lemma norm_joinb: "norm l \<Longrightarrow> norm r \<Longrightarrow> norm (joinb l r)"
  by (simp add: joinb_def)

section \<open>Allocation\<close>

lemma talloc_Free: "talloc j Free \<noteq> None"
  by (induction j) auto

lemma talloc_not_Free: "talloc j t = Some (t', i) \<Longrightarrow> t' \<noteq> Free"
  by (cases "(j, t)" rule: talloc.cases) (auto split: option.splits)

lemma talloc_index: "talloc j t = Some (t', i) \<Longrightarrow> i < 2 ^ j"
  by (induction j t arbitrary: t' i rule: talloc.induct) (fastforce split: option.splits)+

lemma talloc_fits: "talloc j t = Some (t', i) \<Longrightarrow> fits k t \<Longrightarrow> j \<le> k \<Longrightarrow> fits k t'"
  by (induction j t arbitrary: t' i k rule: talloc.induct) (auto split: option.splits nat.splits)

lemma talloc_norm: "talloc j t = Some (t', i) \<Longrightarrow> norm t \<Longrightarrow> norm t'"
  by (induction j t arbitrary: t' i rule: talloc.induct) (auto split: option.splits dest: talloc_not_Free)

lemma talloc_SucE:
  assumes "talloc (Suc j) t = Some (t', i)"
  obtains (free) l where "t = Free" "t' = Split l Free" "talloc j Free = Some (l, i)"
  | (left) l r l' where "t = Split l r" "t' = Split l' r" "talloc j l = Some (l', i)"
  | (right) l r r' i' where "t = Split l r" "t' = Split l r'" "talloc j r = Some (r', i')" "i = 2 ^ j + i'"
      "talloc j l = None"
  using assms by (cases t) (auto split: option.splits)

lemma pow2_split: "j \<le> k \<Longrightarrow> (2 ^ j + i) * 2 ^ (k - j) = 2 ^ k + i * (2 ^ (k - j) :: nat)"
  by (simp add: algebra_simps flip: power_add)

lemma pow2_within: "j \<le> k \<Longrightarrow> i < 2 ^ j \<Longrightarrow> i * 2 ^ (k - j) + 2 ^ (k - j) \<le> (2 ^ k :: nat)"
proof -
  assume j: "j \<le> k" and "i < (2 ^ j :: nat)"
  then have "(i + 1) * 2 ^ (k - j) \<le> 2 ^ j * (2 ^ (k - j) :: nat)" by (intro mult_le_mono1) simp
  also have "\<dots> = 2 ^ k" using j by (simp flip: power_add)
  finally show ?thesis by simp
qed

lemma talloc_ublocks:
  "talloc j t = Some (t', i) \<Longrightarrow> fits k t \<Longrightarrow> j \<le> k \<Longrightarrow>
   ublocks k t' a = insert (a + i * 2 ^ (k - j), 2 ^ (k - j)) (ublocks k t a)"
proof (induction j arbitrary: t t' i k a)
  case 0
  then show ?case by (cases t) auto
next
  case (Suc j)
  obtain k' where k: "k = Suc k'" and j: "j \<le> k'" using Suc.prems(3) by (cases k) auto
  from Suc.prems(1) show ?case
  proof (cases rule: talloc_SucE)
    case (free l)
    then show ?thesis using Suc.IH [of Free l i k' a] j by (simp add: k)
  next
    case (left l r l')
    then show ?thesis using Suc.IH [of l l' i k' a] Suc.prems(2) j by (simp add: k)
  next
    case (right l r r' i')
    then show ?thesis using Suc.IH [of r r' i' k' "a + 2 ^ k'"] Suc.prems(2) j
      by (simp add: k pow2_split add.assoc)
  qed
qed

text \<open>The new block overlaps none of the old ones: it is one of the disjoint blocks of the new tree.\<close>

lemma talloc_not_in:
  "talloc j t = Some (t', i) \<Longrightarrow> fits k t \<Longrightarrow> j \<le> k \<Longrightarrow>
   (a + i * 2 ^ (k - j), 2 ^ (k - j)) \<notin> ublocks k t a"
proof (induction j arbitrary: t t' i k a)
  case 0
  then show ?case by (cases t) auto
next
  case (Suc j)
  obtain k' where k: "k = Suc k'" and j: "j \<le> k'" using Suc.prems(3) by (cases k) auto
  from Suc.prems(1) show ?case
  proof (cases rule: talloc_SucE)
    case (left l r l')
    have "i * 2 ^ (k' - j) < 2 ^ k'"
      using pow2_within [OF j talloc_index [OF left(3)]] by (rule less_le_trans [rotated]) simp
    then show ?thesis using left Suc.IH [of l l' i k' a] Suc.prems(2) j
        ublocks_within [of "a + i * 2 ^ (k' - j)" "2 ^ (k' - j)" k' r "a + 2 ^ k'"] by (auto simp: k)
  next
    case (right l r r' i')
    then show ?thesis using Suc.IH [of r r' i' k' "a + 2 ^ k'"] Suc.prems(2) j
        ublocks_within [of "a + (2 ^ k' + i' * 2 ^ (k' - j))" "2 ^ (k' - j)" k' l a]
      by (auto simp: k pow2_split add.assoc)
  qed (simp add: k)
qed

lemma talloc_fresh:
  assumes "talloc j t = Some (t', i)" "fits k t" "j \<le> k" "(b, s) \<in> ublocks k t a"
  shows "b + s \<le> a + i * 2 ^ (k - j) \<or> a + (i + 1) * 2 ^ (k - j) \<le> b"
proof -
  let ?x = "(a + i * 2 ^ (k - j), 2 ^ (k - j))"
  have "ublocks k t' a = insert ?x (ublocks k t a)" using assms(1-3) by (rule talloc_ublocks)
  moreover have "?x \<noteq> (b, s)" using talloc_not_in [OF assms(1-3)] assms(4) by metis
  ultimately show ?thesis using ublocks_disjoint [of "fst ?x" "snd ?x" k t' a b s] assms(4)
    by (auto simp: algebra_simps)
qed

lemma talloc_None:
  "talloc j t = None \<Longrightarrow> fits k t \<Longrightarrow> norm t \<Longrightarrow> j \<le> k \<Longrightarrow> i < 2 ^ j \<Longrightarrow>
   \<exists>b s. (b, s) \<in> ublocks k t a \<and> b < a + (i + 1) * 2 ^ (k - j) \<and> a + i * 2 ^ (k - j) < b + s"
proof (induction j arbitrary: t i k a)
  case 0
  then have "t \<noteq> Free" by auto
  then obtain b s where "(b, s) \<in> ublocks k t a" using norm_nonempty 0 by fastforce
  then show ?case using ublocks_within [of b s k t a] 0
    by - (rule exI [where x = b], rule exI [where x = s], auto)
next
  case (Suc j)
  obtain k' where k: "k = Suc k'" and j: "j \<le> k'" using Suc.prems(4) by (cases k) auto
  show ?case
  proof (cases t)
    case Free
    then show ?thesis using Suc.prems(1) talloc_Free [of "Suc j"] by metis
  next
    case Used
    have "i * 2 ^ (k - Suc j) < 2 ^ k"
      using pow2_within [OF Suc.prems(4,5)] by (rule less_le_trans [rotated]) simp
    then show ?thesis by (simp add: Used k)
  next
    case (Split l r)
    with Suc.prems have n: "talloc j l = None" "talloc j r = None" "fits k' l" "fits k' r" "norm l" "norm r"
      by (auto simp: k split: option.splits)
    show ?thesis
    proof (cases "i < 2 ^ j")
      case True
      then show ?thesis using Suc.IH [OF n(1,3,5) j True, of a] by (auto simp: Split k)
    next
      case False
      then obtain i' where i: "i = 2 ^ j + i'" by (metis le_add_diff_inverse not_less)
      then obtain b s where "(b, s) \<in> ublocks k' r (a + 2 ^ k')"
          "b < a + 2 ^ k' + (i' + 1) * 2 ^ (k' - j)" "a + 2 ^ k' + i' * 2 ^ (k' - j) < b + s"
        using Suc.IH [OF n(2,4,6) j, of i' "a + 2 ^ k'"] Suc.prems(5) by auto
      moreover have "i * 2 ^ (k' - j) = 2 ^ k' + i' * 2 ^ (k' - j)" by (simp add: i pow2_split [OF j])
      ultimately show ?thesis
        by - (rule exI [where x = b], rule exI [where x = s], simp add: Split k add_mult_distrib)
    qed
  qed
qed

section \<open>Release\<close>

lemma tfree_talloc: "talloc j t = Some (t', i) \<Longrightarrow> norm t \<Longrightarrow> used_at j i t' \<and> tfree j i t' = t"
proof (induction j arbitrary: t t' i)
  case 0
  then show ?case by (cases t) auto
next
  case (Suc j)
  from Suc.prems(1) show ?case
  proof (cases rule: talloc_SucE)
    case (free l)
    then show ?thesis using Suc.IH [of Free l i] talloc_index [of j Free l i] by (simp add: joinb_def)
  next
    case (left l r l')
    then show ?thesis using Suc.IH [of l l' i] Suc.prems(2) talloc_index [of j l l' i] by (auto simp: joinb_def)
  next
    case (right l r r' i')
    then show ?thesis using Suc.IH [of r r' i'] Suc.prems(2) by (auto simp: joinb_def)
  qed
qed

lemma tfree_fits: "fits k t \<Longrightarrow> fits k (tfree j i t)"
  by (induction j i t arbitrary: k rule: tfree.induct) (auto simp: fits_joinb split: nat.splits)

lemma tfree_norm: "norm t \<Longrightarrow> norm (tfree j i t)"
  by (induction j i t rule: tfree.induct) (auto simp: norm_joinb)

lemma used_at_SucE:
  assumes "used_at (Suc j) i t" and "fits k t"
  obtains (left) l r k' where "t = Split l r" "k = Suc k'" "i < 2 ^ j" "used_at j i l"
  | (right) l r k' i' where "t = Split l r" "k = Suc k'" "i = 2 ^ j + i'" "used_at j i' r"
proof (cases t)
  case (Split l r)
  with assms obtain k' where k: "k = Suc k'" by (cases k) auto
  show ?thesis
  proof (cases "i < 2 ^ j")
    case False
    then have "i = 2 ^ j + (i - 2 ^ j)" by simp
    with False Split k assms right show ?thesis by auto
  qed (use Split k assms left in auto)
qed (use assms in auto)

lemma used_at_in:
  "fits k t \<Longrightarrow> j \<le> k \<Longrightarrow> used_at j i t \<Longrightarrow> i < 2 ^ j \<Longrightarrow>
   (a + i * 2 ^ (k - j), 2 ^ (k - j)) \<in> ublocks k t a"
proof (induction j arbitrary: i t k a)
  case (Suc j)
  from Suc.prems(3,1) show ?case
  proof (cases rule: used_at_SucE)
    case (left l r k')
    then show ?thesis using Suc.IH [of k' l i a] Suc.prems by simp
  next
    case (right l r k' i')
    then show ?thesis using Suc.IH [of k' r i' "a + 2 ^ k'"] Suc.prems by (simp add: pow2_split add.assoc)
  qed
qed simp

lemma tfree_ublocks:
  "fits k t \<Longrightarrow> j \<le> k \<Longrightarrow> i < 2 ^ j \<Longrightarrow> used_at j i t \<Longrightarrow>
   ublocks k (tfree j i t) a = ublocks k t a - {(a + i * 2 ^ (k - j), 2 ^ (k - j))}"
proof (induction j arbitrary: i t k a)
  case (Suc j)
  from Suc.prems(4,1) show ?case
  proof (cases rule: used_at_SucE)
    case (left l r k')
    let ?x = "(a + i * 2 ^ (k' - j), 2 ^ (k' - j))"
    have j: "j \<le> k'" using left(2) Suc.prems(2) by simp
    have "ublocks k' (tfree j i l) a = ublocks k' l a - {?x}"
      using left Suc.prems(1) j by (intro Suc.IH) simp_all
    moreover have "i * 2 ^ (k' - j) < 2 ^ k'"
      using pow2_within [OF j left(3)] by (rule less_le_trans [rotated]) simp
    then have "?x \<notin> ublocks k' r (a + 2 ^ k')"
      using ublocks_within [of "fst ?x" "snd ?x" k' r "a + 2 ^ k'"] by auto
    ultimately show ?thesis using left(1-3) by (simp add: ublocks_joinb) blast
  next
    case (right l r k' i')
    let ?x = "(a + 2 ^ k' + i' * 2 ^ (k' - j), 2 ^ (k' - j))"
    have j: "j \<le> k'" using right(2) Suc.prems(2) by simp
    have "ublocks k' (tfree j i' r) (a + 2 ^ k') = ublocks k' r (a + 2 ^ k') - {?x}"
      using right Suc.prems(1,3) j by (intro Suc.IH) simp_all
    moreover have "?x \<notin> ublocks k' l a"
      using ublocks_within [of "fst ?x" "snd ?x" k' l a] by auto
    ultimately show ?thesis using right(1-3) j by (simp add: ublocks_joinb pow2_split add.assoc) blast
  qed
qed simp

text \<open>Conversely, every used block is a node of the tree.\<close>

lemma ublocks_used_at:
  "(b, s) \<in> ublocks k t a \<Longrightarrow>
   \<exists>j i. j \<le> k \<and> i < 2 ^ j \<and> used_at j i t \<and> b = a + i * 2 ^ (k - j) \<and> s = 2 ^ (k - j)"
proof (induction k t a rule: ublocks.induct)
  case (2 k a)
  then show ?case by (intro exI [where x = "0 :: nat"]) simp
next
  case (3 k l r a)
  show ?case
  proof (cases "(b, s) \<in> ublocks k l a")
    case True
    then obtain j i where "j \<le> k \<and> i < 2 ^ j \<and> used_at j i l \<and> b = a + i * 2 ^ (k - j) \<and> s = 2 ^ (k - j)"
      using "3.IH"(1) by blast
    then show ?thesis by - (rule exI [where x = "Suc j"], rule exI [where x = i], simp)
  next
    case False
    then have "(b, s) \<in> ublocks k r (a + 2 ^ k)" using "3.prems" by simp
    then obtain j i where "j \<le> k \<and> i < 2 ^ j \<and> used_at j i r \<and> b = a + 2 ^ k + i * 2 ^ (k - j) \<and> s = 2 ^ (k - j)"
      using "3.IH"(2) by blast
    then show ?thesis by - (rule exI [where x = "Suc j"], rule exI [where x = "2 ^ j + i"], simp add: pow2_split)
  qed
qed auto

end
