(* ===== verification/Buddy_Refine.thy ===== *)
theory Buddy_Refine
  imports Buddy Buddy_Tree
begin

unbundle bit_operations_syntax

text \<open>
  The operations of \<open>Buddy\<close> implement the abstract tree of \<open>Buddy_Tree\<close>. \<open>brep f k d n t\<close> says that the
  bitmap \<open>f\<close>, read as a function of depth and position, holds the tree \<open>t\<close> below bnode \<open>(d, n)\<close>, with
  \<open>k\<close> levels left: a free or used node has only free entries below it.
\<close>

section \<open>Words and naturals\<close>

lemma push_bit_1_of_nat: "push_bit 1 (of_nat n :: u64) = of_nat (2 * n)"
  by simp

lemma drop_bit_1_of_nat: "n < 2 ^ 63 \<Longrightarrow> drop_bit 1 (of_nat (2 * n) :: u64) = of_nat n"
  "n < 2 ^ 63 \<Longrightarrow> drop_bit 1 (of_nat (2 * n + 1) :: u64) = of_nat n"
  by (simp_all add: word_unat_eq_iff drop_bit_eq_div unat_div unat_of_nat del: of_nat_Suc of_nat_add of_nat_mult)

lemma and_1_of_nat: "(of_nat n :: u64) AND 1 = 0 \<longleftrightarrow> even n"
  by (simp add: and_one_eq flip: even_iff_mod_2_eq_zero)

lemma xor_1_of_nat: "(of_nat (2 * n) :: u64) XOR 1 = of_nat (2 * n + 1)"
  "(of_nat (2 * n + 1) :: u64) XOR 1 = of_nat (2 * n)"
  by (simp_all add: xor_one_eq)

lemma of_nat_eq_u64: "i < 2 ^ 64 \<Longrightarrow> j < 2 ^ 64 \<Longrightarrow> (of_nat i :: u64) = of_nat j \<longleftrightarrow> i = j"
  using add_of_nat_inj [of 0 i j] by auto

lemma less_pow30: "d < 30 \<Longrightarrow> n < 2 ^ d \<Longrightarrow> n < (2 ^ 30 :: nat)"
  by (meson less_trans power_strict_increasing_iff one_less_numeral_iff semiring_norm(76))

section \<open>Bitmap entries\<close>

definition slot :: "nat \<Rightarrow> nat \<Rightarrow> nat" where
  "slot d n = 2 ^ Suc d - 2 + 2 * n"

definition bnode :: "nat \<Rightarrow> nat \<Rightarrow> bool" where
  "bnode d n \<longleftrightarrow> d < 30 \<and> n < 2 ^ d"

definition entry :: "addr \<Rightarrow> mem \<Rightarrow> nat \<Rightarrow> nat \<Rightarrow> u8" where
  "entry B m d n = buddy_bitmap_get B (of_nat d) (of_nat n) m"

lemma slot_bounds: "n < 2 ^ d \<Longrightarrow> 2 ^ Suc d - 2 \<le> slot d n \<and> slot d n < 2 ^ Suc (Suc d) - 2"
  by (auto simp: slot_def)

lemma slot_inj: "n < 2 ^ d \<Longrightarrow> n' < 2 ^ d' \<Longrightarrow> slot d n = slot d' n' \<Longrightarrow> d = d' \<and> n = n'"
proof -
  assume n: "n < 2 ^ d" "n' < 2 ^ d'" and e: "slot d n = slot d' n'"
  have "\<not> d < d'" if "n < 2 ^ d" "slot d n = slot d' n'" for d d' n n'
  proof
    assume "d < d'"
    then have "(2 :: nat) ^ Suc (Suc d) \<le> 2 ^ Suc d'" by (intro power_increasing) auto
    then have "(2 :: nat) ^ Suc (Suc d) - 2 \<le> 2 ^ Suc d' - 2" by (rule diff_le_mono)
    then show False using slot_bounds [OF that(1)] that(2) by (simp only: slot_def) linarith
  qed
  from this [OF n(1) e] this [OF n(2) e [symmetric]] have "d = d'" by simp
  then show ?thesis using e by (simp only: slot_def add_left_cancel) simp
qed

lemma even_slot: "even (slot d n)"
  by (simp add: slot_def)

lemma buddy_bitmap_index_slot:
  assumes "bnode d n"
  shows "buddy_bitmap_index (of_nat d) (of_nat n) = of_nat (slot d n)"
proof -
  have d: "unat (of_nat d :: u64) = d" using assms by (simp add: bnode_def unat_of_nat)
  have "push_bit d (2 :: u32) = of_nat (2 ^ Suc d)" by (simp add: push_bit_eq_mult)
  moreover have "(2 :: nat) ^ Suc d < 2 ^ 31"
    using assms unfolding bnode_def by (intro power_strict_increasing) auto
  ultimately have "scast (push_bit d (2 :: u32)) = (of_nat (2 ^ Suc d) :: u64)"
    by (simp only: scast_of_nat_u32)
  moreover have "of_nat (2 ^ Suc d) - 2 = (of_nat (2 ^ Suc d - 2) :: u64)"
    by (subst of_nat_diff) simp_all
  ultimately show ?thesis
    using assms d by (auto simp: buddy_bitmap_index_def slot_def bnode_def)
qed

lemma slot_less: "bnode d n \<Longrightarrow> Suc (slot d n) < 2 ^ 32"
proof -
  assume n: "bnode d n"
  then have "(2 :: nat) ^ Suc (Suc d) \<le> 2 ^ 31" unfolding bnode_def by (intro power_increasing) auto
  then show ?thesis using slot_bounds [of n d] n unfolding bnode_def by (auto simp del: power_Suc)
qed

lemma bitmap_get_nonzero:
  "bitmap_get bm j (bitmap_set bm i b m) \<noteq> 0 \<longleftrightarrow> (if i = j then b \<noteq> 0 else bitmap_get bm j m \<noteq> 0)"
  using unat_and7 [of j] by (simp add: bitmap_get_set)

lemma entry_bits:
  "bnode d n \<Longrightarrow> entry B m d n =
     (if bitmap_get B (of_nat (slot d n)) m \<noteq> 0 then 2 else 0) OR
     (if bitmap_get B (of_nat (Suc (slot d n))) m \<noteq> 0 then 1 else 0)"
  by (simp add: entry_def buddy_bitmap_get_def buddy_bitmap_index_slot Let_def add.commute)

lemma entry_set:
  assumes "bnode d n" "bnode d' n'" "v \<in> {BBMAP_FREE, BBMAP_SPLIT, BBMAP_USED}"
  shows "entry B (buddy_bitmap_set B (of_nat d) (of_nat n) v m) d' n' =
    (if d = d' \<and> n = n' then v else entry B m d' n')"
proof -
  have i: "buddy_bitmap_index (of_nat d) (of_nat n) = of_nat (slot d n)"
    "buddy_bitmap_index (of_nat d') (of_nat n') = of_nat (slot d' n')"
    using assms by (simp_all add: buddy_bitmap_index_slot)
  let ?s = "slot d n" and ?s' = "slot d' n'" and ?m = "buddy_bitmap_set B (of_nat d) (of_nat n) v m"
  have e: "((of_nat x :: u64) = of_nat y) = (x = y)" if "x < 2 ^ 32" "y < 2 ^ 32" for x y
    using that by (intro of_nat_eq_u64) auto
  note l = slot_less [OF assms(1)] slot_less [OF assms(2)]
  have ne: "Suc ?s \<noteq> ?s'" "?s \<noteq> Suc ?s'" by (metis even_Suc even_slot)+
  have m: "?m = bitmap_set B (of_nat (Suc ?s)) (ucast (v AND 1)) (bitmap_set B (of_nat ?s) (ucast (v AND 2)) m)"
    by (simp add: buddy_bitmap_set_def i Let_def add.commute)
  have hi: "bitmap_get B (of_nat ?s') ?m \<noteq> 0 \<longleftrightarrow>
      (if ?s = ?s' then v AND 2 \<noteq> 0 else bitmap_get B (of_nat ?s') m \<noteq> 0)"
    unfolding m bitmap_get_nonzero using e [of "Suc ?s" ?s'] e [of ?s ?s'] l ne assms(3)
    by (auto simp: bbmap_defs)
  have lo: "bitmap_get B (of_nat (Suc ?s')) ?m \<noteq> 0 \<longleftrightarrow>
      (if ?s = ?s' then v AND 1 \<noteq> 0 else bitmap_get B (of_nat (Suc ?s')) m \<noteq> 0)"
    unfolding m bitmap_get_nonzero using e [of "Suc ?s" "Suc ?s'"] e [of ?s "Suc ?s'"] l ne assms(3)
    by (auto simp: bbmap_defs)
  have "?s = ?s' \<longleftrightarrow> d = d' \<and> n = n'"
    using slot_inj [of n d n' d'] assms by (auto simp: bnode_def)
  then show ?thesis
    unfolding entry_bits [OF assms(2)] hi lo using assms(3) by (auto simp: bbmap_defs)
qed

section \<open>Trees in the bitmap\<close>

primrec clear :: "addr \<Rightarrow> mem \<Rightarrow> nat \<Rightarrow> nat \<Rightarrow> nat \<Rightarrow> bool" where
  "clear B m 0 d n \<longleftrightarrow> entry B m d n = BBMAP_FREE"
| "clear B m (Suc k) d n \<longleftrightarrow> entry B m d n = BBMAP_FREE
     \<and> clear B m k (Suc d) (2 * n) \<and> clear B m k (Suc d) (2 * n + 1)"

definition below :: "addr \<Rightarrow> mem \<Rightarrow> nat \<Rightarrow> nat \<Rightarrow> nat \<Rightarrow> bool" where
  "below B m k d n = (case k of 0 \<Rightarrow> True
     | Suc k' \<Rightarrow> clear B m k' (Suc d) (2 * n) \<and> clear B m k' (Suc d) (2 * n + 1))"

fun brep :: "addr \<Rightarrow> mem \<Rightarrow> nat \<Rightarrow> nat \<Rightarrow> nat \<Rightarrow> btree \<Rightarrow> bool" where
  "brep B m k d n Free \<longleftrightarrow> entry B m d n = BBMAP_FREE \<and> below B m k d n"
| "brep B m k d n Used \<longleftrightarrow> entry B m d n = BBMAP_USED \<and> below B m k d n"
| "brep B m (Suc k) d n (Split l r) \<longleftrightarrow> entry B m d n = BBMAP_SPLIT
     \<and> brep B m k (Suc d) (2 * n) l \<and> brep B m k (Suc d) (2 * n + 1) r"
| "brep B m 0 d n (Split l r) \<longleftrightarrow> False"

lemma below_simps [simp]:
  "below B m 0 d n" 
  "below B m (Suc k) d n \<longleftrightarrow> clear B m k (Suc d) (2 * n) \<and> clear B m k (Suc d) (2 * n + 1)"
  by (simp_all add: below_def)

lemma clear_iff: "clear B m k d n \<longleftrightarrow> entry B m d n = BBMAP_FREE \<and> below B m k d n"
  by (cases k) simp_all

lemma clear_brep: "clear B m k d n \<longleftrightarrow> brep B m k d n Free"
  by (simp add: clear_iff)

lemma brep_fits: "brep B m k d n t \<Longrightarrow> fits k t"
  by (induction B m k d n t rule: brep.induct) auto

lemma brep_entry:
  "brep B m k d n t \<Longrightarrow> entry B m d n = (case t of Free \<Rightarrow> BBMAP_FREE | Used \<Rightarrow> BBMAP_USED | Split _ _ \<Rightarrow> BBMAP_SPLIT)"
  by (induction B m k d n t rule: brep.induct) auto

text \<open>\<open>desc d n\<close> are the nodes of the subtree at \<open>(d, n)\<close>.\<close>

definition desc :: "nat \<Rightarrow> nat \<Rightarrow> nat \<Rightarrow> nat \<Rightarrow> bool" where
  "desc d n d' n' \<longleftrightarrow> d \<le> d' \<and> n' div 2 ^ (d' - d) = n"

lemma desc_self [simp]: "desc d n d n"
  by (simp add: desc_def)

lemma desc_child: "desc (Suc d) c d' n' \<Longrightarrow> c div 2 = n \<Longrightarrow> desc d n d' n'"
proof -
  assume a: "desc (Suc d) c d' n'" "c div 2 = n"
  then have "d' - d = Suc (d' - Suc d)" unfolding desc_def by arith
  moreover have "n' div 2 ^ (d' - Suc d) div 2 = n" using a by (simp add: desc_def)
  ultimately show ?thesis using a by (simp add: desc_def flip: div_mult2_eq) (simp add: mult.commute)
qed

lemma desc_siblings: "desc (Suc d) (2 * n) d' n' \<Longrightarrow> \<not> desc (Suc d) (2 * n + 1) d' n'"
  by (simp add: desc_def)

lemma not_desc_parent [simp]: "\<not> desc (Suc d) c d n"
  by (simp add: desc_def)

definition agree :: "addr \<Rightarrow> mem \<Rightarrow> mem \<Rightarrow> (nat \<Rightarrow> nat \<Rightarrow> bool) \<Rightarrow> bool" where
  "agree B m m' P \<longleftrightarrow> (\<forall>d n. bnode d n \<longrightarrow> P d n \<longrightarrow> entry B m' d n = entry B m d n)"

lemma agreeD: "agree B m m' P \<Longrightarrow> bnode d n \<Longrightarrow> P d n \<Longrightarrow> entry B m' d n = entry B m d n"
  by (simp add: agree_def)

lemma agree_mono: "agree B m m' P \<Longrightarrow> (\<And>d n. Q d n \<Longrightarrow> P d n) \<Longrightarrow> agree B m m' Q"
  by (auto simp: agree_def)

lemma agree_trans: "agree B m m' P \<Longrightarrow> agree B m' m'' P \<Longrightarrow> agree B m m'' P"
  by (auto simp: agree_def)

lemma bnode_child: "bnode d n \<Longrightarrow> Suc d < 30 \<Longrightarrow> bnode (Suc d) (2 * n) \<and> bnode (Suc d) (2 * n + 1)"
  by (auto simp: bnode_def)

text \<open>A tree only depends on the entries of its levels.\<close>

abbreviation levels :: "nat \<Rightarrow> nat \<Rightarrow> nat \<Rightarrow> nat \<Rightarrow> nat \<Rightarrow> bool" where
  "levels k d n \<equiv> \<lambda>d' n'. desc d n d' n' \<and> d' \<le> d + k"

lemma agree_levels:
  assumes "agree B m m' (levels (Suc k) d n)"
  shows "agree B m m' (levels k (Suc d) (2 * n))" "agree B m m' (levels k (Suc d) (2 * n + 1))"
  using assms by (rule agree_mono, auto intro: desc_child)+

lemma clear_agree_levels:
  "agree B m m' (levels k d n) \<Longrightarrow> bnode d n \<Longrightarrow> d + k < 30 \<Longrightarrow> clear B m k d n \<Longrightarrow> clear B m' k d n"
proof (induction k arbitrary: d n)
  case 0
  then show ?case using agreeD [OF 0(1), of d n] by simp
next
  case (Suc k)
  show ?case
    using Suc.IH [OF agree_levels(1) [OF Suc.prems(1)]] Suc.IH [OF agree_levels(2) [OF Suc.prems(1)]]
      Suc.prems bnode_child [of d n] agreeD [OF Suc.prems(1), of d n]
    by simp
qed

lemma brep_agree_levels:
  "agree B m m' (levels k d n) \<Longrightarrow> bnode d n \<Longrightarrow> d + k < 30 \<Longrightarrow> brep B m k d n t \<Longrightarrow> brep B m' k d n t"
proof (induction t arbitrary: k d n)
  case Free
  then show ?case using clear_agree_levels [OF Free.prems(1,2,3)] by (simp add: clear_iff)
next
  case Used
  then show ?case
  proof (cases k)
    case (Suc k')
    note a = agree_levels [OF Used.prems(1) [unfolded Suc]]
    show ?thesis
      using Used.prems Suc clear_agree_levels [OF a(1)] clear_agree_levels [OF a(2)]
        bnode_child [of d n] agreeD [OF Used.prems(1), of d n] by simp
  qed (use agreeD [OF Used.prems(1), of d n] in simp)
next
  case (Split l r)
  then obtain k' where k: "k = Suc k'" by (cases k) auto
  note a = agree_levels [OF Split.prems(1) [unfolded k]]
  show ?case
    using Split.IH(1) [OF a(1)] Split.IH(2) [OF a(2)] Split.prems k
      bnode_child [of d n] agreeD [OF Split.prems(1), of d n] by simp
qed

lemma clear_agree:
  "agree B m m' (desc d n) \<Longrightarrow> bnode d n \<Longrightarrow> d + k < 30 \<Longrightarrow> clear B m k d n \<Longrightarrow> clear B m' k d n"
  by (rule clear_agree_levels, erule agree_mono, simp_all)

lemma brep_agree:
  "agree B m m' (desc d n) \<Longrightarrow> bnode d n \<Longrightarrow> d + k < 30 \<Longrightarrow> brep B m k d n t \<Longrightarrow> brep B m' k d n t"
  by (rule brep_agree_levels, erule agree_mono, simp_all)

lemma set_agree:
  assumes "bnode d n" "v \<in> {BBMAP_FREE, BBMAP_SPLIT, BBMAP_USED}"
  shows "agree B m (buddy_bitmap_set B (of_nat d) (of_nat n) v m) (\<lambda>d' n'. (d', n') \<noteq> (d, n))"
  using assms by (auto simp: agree_def entry_set)

text \<open>The bytes of the bitmap of a tree of depth \<open>D\<close>; everything else is left alone.\<close>

definition bitmap_bytes :: "nat \<Rightarrow> nat" where
  "bitmap_bytes D = 2 ^ (D + 2) div 8 + 1"

definition keeps :: "addr \<Rightarrow> nat \<Rightarrow> mem \<Rightarrow> mem \<Rightarrow> bool" where
  "keeps B D m m' \<longleftrightarrow> (\<forall>p. (\<forall>i < bitmap_bytes D. p \<noteq> B + of_nat i) \<longrightarrow> m' p = m p)"

lemma keeps_refl [simp]: "keeps B D m m"
  by (simp add: keeps_def)

lemma keeps_trans: "keeps B D m m' \<Longrightarrow> keeps B D m' m'' \<Longrightarrow> keeps B D m m''"
  by (auto simp: keeps_def)

lemma slot_byte:
  assumes "bnode d n" "d \<le> D"
  shows "drop_bit 3 (of_nat (slot d n) :: u64) = of_nat (slot d n div 8)" "slot d n div 8 < bitmap_bytes D"
    and "drop_bit 3 (of_nat (Suc (slot d n)) :: u64) = of_nat (Suc (slot d n) div 8)"
      "Suc (slot d n) div 8 < bitmap_bytes D"
proof -
  have "(2 :: nat) ^ (d + 2) \<le> 2 ^ (D + 2)" using assms(2) by (intro power_increasing) auto
  moreover have "slot d n < 2 ^ (d + 2) - 2" using slot_bounds [of n d] assms(1) by (simp add: bnode_def)
  ultimately have "Suc (slot d n) \<le> 2 ^ (D + 2)" by linarith
  then have "Suc (slot d n) div 8 \<le> 2 ^ (D + 2) div 8" by (rule div_le_mono)
  moreover have "slot d n div 8 \<le> Suc (slot d n) div 8" by (rule div_le_mono) simp
  ultimately show "slot d n div 8 < bitmap_bytes D" "Suc (slot d n) div 8 < bitmap_bytes D"
    by (simp_all add: bitmap_bytes_def)
  have "drop_bit 3 (of_nat x :: u64) = of_nat (x div 8)" if "x < 2 ^ 32" for x
    using that by (simp add: word_unat_eq_iff drop_bit_eq_div unat_div unat_of_nat)
  then show "drop_bit 3 (of_nat (slot d n) :: u64) = of_nat (slot d n div 8)"
    "drop_bit 3 (of_nat (Suc (slot d n)) :: u64) = of_nat (Suc (slot d n) div 8)"
    using slot_less [OF assms(1)] by (simp_all del: of_nat_Suc)
qed

lemma set_keeps:
  assumes "bnode d n" "d \<le> D"
  shows "keeps B D m (buddy_bitmap_set B (of_nat d) (of_nat n) v m)"
  unfolding keeps_def
proof (intro allI impI)
  fix p assume p: "\<forall>i < bitmap_bytes D. p \<noteq> B + of_nat i"
  have e: "(1 :: u64) + of_nat (slot d n) = of_nat (Suc (slot d n))" by simp
  show "buddy_bitmap_set B (of_nat d) (of_nat n) v m p = m p"
    unfolding buddy_bitmap_set_def buddy_bitmap_index_slot [OF assms(1)] Let_def
    using p slot_byte [OF assms]
    by (subst bitmap_get_set_frame, simp add: add.commute [of _ "1 :: u64"] e del: of_nat_Suc)
      (subst bitmap_get_set_frame, simp_all)
qed

section \<open>Allocation\<close>

definition region_ok :: "buddy_region_header \<Rightarrow> nat \<Rightarrow> bool" where
  "region_ok h D \<longleftrightarrow> D < 29 \<and> max_depth h = of_nat D \<and> usable_len h = 2 ^ (D + 12)
     \<and> usable_base h \<noteq> 0 \<and> unat (usable_base h) + 2 ^ (D + 12) \<le> 2 ^ 64"

lemma unat_get_slab:
  assumes "region_ok h D" "d \<le> D" "n < 2 ^ d"
  shows "unat (buddy_get_slab h (of_nat d) (of_nat n)) = unat (usable_base h) + n * 2 ^ (D - d + 12)"
proof -
  have D: "D < 29" and len: "usable_len h = 2 ^ (D + 12)"
    and ub: "unat (usable_base h) + 2 ^ (D + 12) \<le> 2 ^ 64" using assms(1) by (auto simp: region_ok_def)
  have d: "unat (of_nat d :: u64) = d" using D assms(2) by (simp add: unat_of_nat)
  have "unat (usable_len h) = 2 ^ (D + 12)" unfolding len using D by (intro unat_pow2) simp
  then have "unat (drop_bit d (usable_len h)) = 2 ^ (D + 12) div 2 ^ d"
    by (simp add: drop_bit_eq_div unat_div) (subst unat_pow2; use D assms(2) in simp)
  also have "\<dots> = 2 ^ (D - d + 12)" using assms(2) by (simp flip: power_diff)
  finally have 1: "unat (drop_bit d (usable_len h)) = 2 ^ (D - d + 12)" .
  have "n * 2 ^ (D + 12 - d) + 2 ^ (D + 12 - d) \<le> 2 ^ (D + 12)"
    using assms(2,3) by (intro pow2_within) auto
  moreover have "D + 12 - d = D - d + 12" using assms(2) by simp
  ultimately have 2: "n * 2 ^ (D - d + 12) + 2 ^ (D - d + 12) \<le> 2 ^ (D + 12)" by (simp only:)
  have n: "n < 2 ^ 64" using less_pow30 [of d n] D assms(2,3) by simp
  have "(0 :: nat) < 2 ^ (D - d + 12)" by simp
  then have "unat (usable_base h) + n * 2 ^ (D - d + 12) < 2 ^ 64" using 2 ub by linarith
  then have "unat (usable_base h + of_nat n * drop_bit d (usable_len h)) =
      unat (usable_base h) + n * 2 ^ (D - d + 12)"
    using n by (simp add: unat_word_ariths 1 unat_of_nat)
  moreover have "n = 0" if "d = 0" using that assms(3) by simp
  ultimately show ?thesis using d by (auto simp: buddy_get_slab_def)
qed

lemma get_slab_nonzero:
  assumes "region_ok h D" "d \<le> D" "n < 2 ^ d"
  shows "buddy_get_slab h (of_nat d) (of_nat n) \<noteq> 0"
  using unat_get_slab [OF assms] assms(1) by (auto simp: region_ok_def unat_0_iff)

abbreviation trav :: "buddy_region_header \<Rightarrow> addr \<Rightarrow> nat \<Rightarrow> nat \<Rightarrow> nat \<Rightarrow> mem \<Rightarrow> u64 \<times> mem" where
  "trav h B d n T m \<equiv> buddy_alloc_traverse h B (of_nat d) (of_nat n) (of_nat T) m"

lemma trav_step:
  assumes "region_ok h D" "d + j \<le> D"
  shows "trav h B d n (d + j) m =
    (if entry B m d n = BBMAP_USED \<or> entry B m d n = BBMAP_SPLIT \<and> j = 0 then
       (if odd n then (0, m) else trav h B d (n + 1) (d + j) m)
     else if entry B m d n = BBMAP_SPLIT then
       (let (ret, m1) = trav h B (Suc d) (2 * n) (d + j) m in
        if ret \<noteq> 0 then (ret, m1) else trav h B (Suc d) (2 * n + 1) (d + j) m1)
     else if entry B m d n = BBMAP_FREE then
       (if j = 0 then (buddy_get_slab h (of_nat d) (of_nat n),
          buddy_bitmap_set B (of_nat d) (of_nat n) BBMAP_USED m)
        else trav h B (Suc d) (2 * n) (d + j) (buddy_bitmap_set B (of_nat d) (of_nat n) BBMAP_SPLIT m))
     else (0, m))"
proof -
  have D: "D < 29" "max_depth h = of_nat D" using assms(1) by (auto simp: region_ok_def)
  have c: "((of_nat d :: u64) > of_nat (d + j)) = False" "(of_nat (d + j) > max_depth h) = False"
    using D assms(2) by (simp_all add: word_less_nat_alt unat_of_nat del: of_nat_add)
  have e: "((of_nat d :: u64) = of_nat (d + j)) = (j = 0)"
    using D assms(2) by (subst of_nat_eq_u64) auto
  have w: "(of_nat n :: u64) + 1 = of_nat (n + 1)" "(of_nat d :: u64) + 1 = of_nat (Suc d)"
    "push_bit 1 (of_nat n :: u64) = of_nat (2 * n)" "(of_nat (2 * n) :: u64) + 1 = of_nat (2 * n + 1)"
    by simp_all
  have ne: "BBMAP_USED \<noteq> BBMAP_SPLIT" "BBMAP_SPLIT \<noteq> BBMAP_USED" by (simp_all add: bbmap_defs)
  show ?thesis
    by (subst buddy_alloc_traverse.simps, unfold c e w and_1_of_nat entry_def [symmetric] Let_def if_False)
      (cases "entry B m d n = BBMAP_USED"; cases "entry B m d n = BBMAP_SPLIT"; cases "j = 0";
        simp only: ne simp_thms if_True if_False)
qed

text \<open>A failed search leaves the bitmap alone; on an even node it may go on with the sibling.\<close>

lemma trav_None:
  assumes h: "region_ok h D"
  shows "talloc j t = None \<Longrightarrow> brep B m k d n t \<Longrightarrow> d + k = D \<Longrightarrow> j \<le> k \<Longrightarrow>
    trav h B d n (d + j) m = (0, m) \<or>
    even n \<and> (t = Used \<or> j = 0) \<and> trav h B d n (d + j) m = trav h B d (n + 1) (d + j) m"
proof (induction j arbitrary: t k d n)
  case 0
  then have "t \<noteq> Free" by auto
  then show ?case using trav_step [OF h, of d 0 B n m] brep_entry [OF 0(2)] 0(3)
    by (auto split: btree.splits simp: bbmap_defs)
next
  case (Suc j)
  have le: "d + Suc j \<le> D" using Suc.prems(3,4) by simp
  show ?case
  proof (cases t)
    case Free
    then show ?thesis using Suc.prems(1) talloc_Free [of "Suc j"] by metis
  next
    case Used
    then show ?thesis using trav_step [OF h le, of B n m] brep_entry [OF Suc.prems(2)] by auto
  next
    case (Split l r)
    then obtain k' where k: "k = Suc k'" using Suc.prems(2) by (cases k) auto
    have n: "talloc j l = None" "talloc j r = None" "brep B m k' (Suc d) (2 * n) l" "brep B m k' (Suc d) (2 * n + 1) r"
      using Suc.prems(1,2) Split k by (auto split: option.splits)
    have "d + Suc j = Suc d + j" "Suc d + k' = D" "j \<le> k'" using Suc.prems(3,4) k by auto
    note IH = Suc.IH [OF n(1,3) this(2,3)] Suc.IH [OF n(2,4) this(2,3)] and e = this(1)
    have r: "trav h B (Suc d) (2 * n + 1) (d + Suc j) m = (0, m)" using IH(2) e by auto
    then have "trav h B (Suc d) (2 * n) (d + Suc j) m = (0, m)" using IH(1) e by auto
    then show ?thesis
      using trav_step [OF h le, of B n m] brep_entry [OF Suc.prems(2)] r by (simp add: Split bbmap_defs)
  qed
qed

lemma below_agree:
  assumes "agree B m m' (\<lambda>d' n'. (d', n') \<noteq> (d, n))" "bnode d n" "d + k < 30" "below B m k d n"
  shows "below B m' k d n"
proof (cases k)
  case (Suc k')
  have "agree B m m' (desc (Suc d) (2 * n))" "agree B m m' (desc (Suc d) (2 * n + 1))"
    using assms(1) by (rule agree_mono; auto)+
  then show ?thesis
    using assms Suc clear_agree [of B m m' "Suc d" "2 * n" k'] clear_agree [of B m m' "Suc d" "2 * n + 1" k']
      bnode_child [of d n] by simp
qed simp

text \<open>Replacing one half of a split node.\<close>

lemma brep_Split_left:
  assumes "brep B m' k (Suc d) (2 * n) l'" "agree B m m' (\<lambda>d' n'. \<not> desc (Suc d) (2 * n) d' n')"
    and "brep B m k (Suc d) (2 * n + 1) r" "entry B m d n = BBMAP_SPLIT" "bnode d n" "Suc d + k < 30"
  shows "brep B m' (Suc k) d n (Split l' r)"
proof -
  have "agree B m m' (desc (Suc d) (2 * n + 1))"
    by (rule agree_mono [OF assms(2)]) (auto dest: desc_siblings)
  then have "brep B m' k (Suc d) (2 * n + 1) r"
    by (rule brep_agree) (use assms(3,6) bnode_child [OF assms(5)] in simp_all)
  then show ?thesis using assms(1,4,5) agreeD [OF assms(2), of d n] by simp
qed

lemma brep_Split_right:
  assumes "brep B m' k (Suc d) (2 * n + 1) r'" "agree B m m' (\<lambda>d' n'. \<not> desc (Suc d) (2 * n + 1) d' n')"
    and "brep B m k (Suc d) (2 * n) l" "entry B m d n = BBMAP_SPLIT" "bnode d n" "Suc d + k < 30"
  shows "brep B m' (Suc k) d n (Split l r')"
proof -
  have "agree B m m' (desc (Suc d) (2 * n))"
    by (rule agree_mono [OF assms(2)]) (auto dest: desc_siblings)
  then have "brep B m' k (Suc d) (2 * n) l"
    by (rule brep_agree) (use assms(3,6) bnode_child [OF assms(5)] in simp_all)
  then show ?thesis using assms(1,4,5) agreeD [OF assms(2), of d n] by simp
qed

lemma agree_child:
  "agree B m m' (\<lambda>d' n'. \<not> desc (Suc d) c d' n') \<Longrightarrow> c div 2 = n \<Longrightarrow>
   agree B m m' (\<lambda>d' n'. \<not> desc d n d' n')"
  by (erule agree_mono) (use desc_child in blast)

lemma index_less: "c < 2 ^ d \<Longrightarrow> x < 2 ^ j \<Longrightarrow> c * 2 ^ j + x < 2 ^ (d + j)" for c x :: nat
proof -
  assume "c < 2 ^ d" "x < 2 ^ j"
  then have "c * 2 ^ j + x < (c + 1) * 2 ^ j" by simp
  also have "(c + 1) * 2 ^ j \<le> 2 ^ d * 2 ^ j" using \<open>c < 2 ^ d\<close> by (intro mult_le_mono1) simp
  finally show ?thesis by (simp only: power_add)
qed

lemma trav_Some:
  assumes h: "region_ok h D"
  shows "talloc j t = Some (t', i) \<Longrightarrow> brep B m k d n t \<Longrightarrow> d + k = D \<Longrightarrow> j \<le> k \<Longrightarrow> bnode d n \<Longrightarrow>
    \<exists>m'. trav h B d n (d + j) m = (buddy_get_slab h (of_nat (d + j)) (of_nat (n * 2 ^ j + i)), m')
      \<and> brep B m' k d n t' \<and> agree B m m' (\<lambda>d' n'. \<not> desc d n d' n') \<and> keeps B D m m'"
proof (induction j arbitrary: t t' i k d n m)
  case 0
  then have t: "t = Free" "t' = Used" "i = 0" by (cases t, auto)+
  have D: "d + k < 30" using h 0(3) by (simp add: region_ok_def)
  let ?m = "buddy_bitmap_set B (of_nat d) (of_nat n) BBMAP_USED m"
  have a: "agree B m ?m (\<lambda>d' n'. (d', n') \<noteq> (d, n))" using 0(5) by (rule set_agree) simp
  have "brep B ?m k d n Used"
    using 0(2,5) below_agree [OF a 0(5) D] by (simp add: t entry_set)
  moreover have "agree B m ?m (\<lambda>d' n'. \<not> desc d n d' n')" by (rule agree_mono [OF a]) auto
  moreover have "keeps B D m ?m" using 0(3,5) by (intro set_keeps) auto
  moreover have "trav h B d n (d + 0) m = (buddy_get_slab h (of_nat d) (of_nat n), ?m)"
    using trav_step [OF h, of d 0 B n m] 0(2,3) by (simp add: t bbmap_defs)
  ultimately show ?case using t by auto
next
  case (Suc j)
  have le: "d + Suc j \<le> D" using Suc.prems(3,4) by simp
  obtain k' where k: "k = Suc k'" and j: "j \<le> k'" and D: "Suc d + k' = D" using Suc.prems(3,4) by (cases k) auto
  have D30: "Suc d + k' < 30" "Suc d < 30" using h D by (auto simp: region_ok_def)
  have e: "d + Suc j = Suc d + j" by simp
  have nodes: "bnode (Suc d) (2 * n)" "bnode (Suc d) (2 * n + 1)" using bnode_child [OF Suc.prems(5) D30(2)] by auto
  have child_slab: "buddy_get_slab h (of_nat (Suc d + j)) (of_nat (c * 2 ^ j + x)) \<noteq> 0"
    if "x < 2 ^ j" "bnode (Suc d) c" for c x
    using that D j by (intro get_slab_nonzero [OF h] index_less) (auto simp: bnode_def)
  from Suc.prems(1) show ?case
  proof (cases rule: talloc_SucE)
    case (free l)
    let ?m = "buddy_bitmap_set B (of_nat d) (of_nat n) BBMAP_SPLIT m"
    have a: "agree B m ?m (\<lambda>d' n'. (d', n') \<noteq> (d, n))" using Suc.prems(5) by (rule set_agree) simp
    have "below B ?m k d n"
      using Suc.prems(2,3,5) D30 free(1) k by (intro below_agree [OF a]) auto
    then have b: "brep B ?m k' (Suc d) (2 * n) Free" "brep B ?m k' (Suc d) (2 * n + 1) Free"
      using k by (simp_all add: clear_brep)
    from Suc.IH [OF free(3) b(1) D j nodes(1)] obtain m' where
      m': "trav h B (Suc d) (2 * n) (Suc d + j) ?m = (buddy_get_slab h (of_nat (Suc d + j)) (of_nat (2 * n * 2 ^ j + i)), m')"
        "brep B m' k' (Suc d) (2 * n) l" "agree B ?m m' (\<lambda>d' n'. \<not> desc (Suc d) (2 * n) d' n')" "keeps B D ?m m'"
      by auto
    have "trav h B d n (d + Suc j) m = trav h B (Suc d) (2 * n) (Suc d + j) ?m"
      using trav_step [OF h le, of B n m] Suc.prems(2) free(1) by (simp add: bbmap_defs)
    moreover have "brep B m' k d n (Split l Free)"
      unfolding k using m'(2,3) b(2) by (rule brep_Split_left) (use Suc.prems(5) D30 in \<open>simp_all add: entry_set\<close>)
    moreover have "agree B m ?m (\<lambda>d' n'. \<not> desc d n d' n')" by (rule agree_mono [OF a]) auto
    then have "agree B m m' (\<lambda>d' n'. \<not> desc d n d' n')"
      by (rule agree_trans) (rule agree_child [OF m'(3)], simp)
    moreover have "keeps B D m m'"
      by (rule keeps_trans [OF set_keeps [OF Suc.prems(5)] m'(4)]) (use le in simp)
    moreover have "n * 2 ^ Suc j + i = 2 * n * 2 ^ j + i" by simp
    ultimately show ?thesis using m'(1) unfolding free(2) e by (intro exI [of _ m']) (simp only: simp_thms)
  next
    case (left l r l')
    have b: "brep B m k' (Suc d) (2 * n) l" "brep B m k' (Suc d) (2 * n + 1) r" "entry B m d n = BBMAP_SPLIT"
      using Suc.prems(2) left(1) k by simp_all
    from Suc.IH [OF left(3) b(1) D j nodes(1)] obtain m' where
      m': "trav h B (Suc d) (2 * n) (Suc d + j) m = (buddy_get_slab h (of_nat (Suc d + j)) (of_nat (2 * n * 2 ^ j + i)), m')"
        "brep B m' k' (Suc d) (2 * n) l'" "agree B m m' (\<lambda>d' n'. \<not> desc (Suc d) (2 * n) d' n')" "keeps B D m m'"
      by auto
    have idx: "n * 2 ^ Suc j + i = 2 * n * 2 ^ j + i" by simp
    have "trav h B d n (d + Suc j) m = trav h B (Suc d) (2 * n) (Suc d + j) m"
      using trav_step [OF h le, of B n m] b(3) m'(1) child_slab [OF talloc_index [OF left(3)] nodes(1)] e
      by (simp add: bbmap_defs)
    moreover have "brep B m' k d n (Split l' r)"
      unfolding k using m'(2,3) b(2,3) Suc.prems(5) D30(1) by (rule brep_Split_left)
    moreover have "agree B m m' (\<lambda>d' n'. \<not> desc d n d' n')" by (rule agree_child [OF m'(3)]) simp
    ultimately show ?thesis using m'(1,4) unfolding left(2) e idx by (intro exI [of _ m']) (simp only: simp_thms)
  next
    case (right l r r' i')
    have b: "brep B m k' (Suc d) (2 * n) l" "brep B m k' (Suc d) (2 * n + 1) r" "entry B m d n = BBMAP_SPLIT"
      using Suc.prems(2) right(1) k by simp_all
    from Suc.IH [OF right(3) b(2) D j nodes(2)] obtain m' where
      m': "trav h B (Suc d) (2 * n + 1) (Suc d + j) m =
          (buddy_get_slab h (of_nat (Suc d + j)) (of_nat ((2 * n + 1) * 2 ^ j + i')), m')"
        "brep B m' k' (Suc d) (2 * n + 1) r'" "agree B m m' (\<lambda>d' n'. \<not> desc (Suc d) (2 * n + 1) d' n')" "keeps B D m m'"
      by auto
    have idx: "n * 2 ^ Suc j + i = (2 * n + 1) * 2 ^ j + i'" by (simp add: right(4))
    have "trav h B d n (d + Suc j) m = trav h B (Suc d) (2 * n + 1) (Suc d + j) m"
      using trav_step [OF h le, of B n m] b(3) m'(1) trav_None [OF h right(5) b(1) D j]
        child_slab [OF talloc_index [OF right(3)] nodes(2)] e
      by (auto simp add: bbmap_defs)
    moreover have "brep B m' k d n (Split l r')"
      unfolding k using m'(2,3) b(1,3) Suc.prems(5) D30(1) by (rule brep_Split_right)
    moreover have "agree B m m' (\<lambda>d' n'. \<not> desc d n d' n')" by (rule agree_child [OF m'(3)]) simp
    ultimately show ?thesis using m'(1,4) unfolding right(2) e idx by (intro exI [of _ m']) (simp only: simp_thms)
  qed
qed

lemma entry_root: "entry B m 0 n = entry B m 0 0"
  by (simp add: entry_def buddy_bitmap_get_def buddy_bitmap_index_def)

lemma trav_root_None:
  assumes "region_ok h D" "talloc j t = None" "brep B m D 0 0 t" "j \<le> D"
  shows "trav h B 0 0 j m = (0, m)"
proof (cases "t = Used \<or> j = 0")
  case True
  moreover have "t \<noteq> Free" using assms(2) talloc_Free by metis
  ultimately have "trav h B 0 1 (0 + j) m = (0, m)"
    using trav_step [OF assms(1), of 0 j B 1 m] assms(4) brep_entry [OF assms(3)] entry_root [of B m 1]
    by (auto split: btree.splits)
  then show ?thesis using trav_None [OF assms(1-3) _ assms(4)] by auto
next
  case False
  then show ?thesis using trav_None [OF assms(1-3) _ assms(4)] by auto
qed

section \<open>Release\<close>

lemma find_step:
  "buddy_free_find B m off len (of_nat d) (of_nat n) ld ln =
    (if entry B m d n = BBMAP_FREE then Some (ld, ln)
     else if drop_bit 1 len \<le> off
       then buddy_free_find B m (off - drop_bit 1 len) (drop_bit 1 len) (of_nat (Suc d)) (of_nat (2 * n + 1)) (of_nat d) (of_nat n)
       else buddy_free_find B m off (drop_bit 1 len) (of_nat (Suc d)) (of_nat (2 * n)) (of_nat d) (of_nat n))"
proof -
  have w: "(of_nat d :: u64) + 1 = of_nat (Suc d)" "push_bit 1 (of_nat n :: u64) = of_nat (2 * n)"
    "(of_nat (2 * n) :: u64) + 1 = of_nat (2 * n + 1)"
    by simp_all
  show ?thesis
    by (subst buddy_free_find.simps, unfold w entry_def [symmetric] Let_def)
      (cases "entry B m d n = BBMAP_FREE"; simp only: bbmap_defs simp_thms if_True if_False)
qed

lemma half_len: "e < 63 \<Longrightarrow> drop_bit 1 (of_nat (2 ^ Suc e) :: u64) = of_nat (2 ^ e)"
proof -
  assume "e < 63"
  then have "(2 :: nat) ^ e < 2 ^ 63" by (intro power_strict_increasing) auto
  then show ?thesis using drop_bit_1_of_nat(1) [of "2 ^ e"] by (simp only: power_Suc)
qed

lemma of_nat_le_u64: "i < 2 ^ 64 \<Longrightarrow> j < 2 ^ 64 \<Longrightarrow> (of_nat i :: u64) \<le> of_nat j \<longleftrightarrow> i \<le> j"
  by (simp add: word_le_nat_alt unat_of_nat)

lemma block_offset_less: "j \<le> k \<Longrightarrow> i < 2 ^ j \<Longrightarrow> i * 2 ^ (k - j + 12) < (2 ^ (k + 12) :: nat)"
proof -
  assume j: "j \<le> k" and i: "i < (2 :: nat) ^ j"
  have e: "k + 12 - j = k - j + 12" using j by simp
  have "i * 2 ^ (k + 12 - j) + 2 ^ (k + 12 - j) \<le> (2 :: nat) ^ (k + 12)"
    using i j by (intro pow2_within) auto
  then show ?thesis unfolding e by (rule less_le_trans [rotated]) simp
qed

text \<open>What the bitmap holds at a used node.\<close>

lemma used_at_entry:
  "used_at j i t \<Longrightarrow> brep B m k d n t \<Longrightarrow> i < 2 ^ j \<Longrightarrow> j \<le> k \<Longrightarrow>
   entry B m (d + j) (n * 2 ^ j + i) = BBMAP_USED
   \<and> (j < k \<longrightarrow> entry B m (Suc (d + j)) (2 * (n * 2 ^ j + i)) = BBMAP_FREE)"
proof (induction j arbitrary: i t k d n)
  case 0
  then show ?case by (cases k) (simp_all add: clear_iff)
next
  case (Suc j)
  from Suc.prems(1) brep_fits [OF Suc.prems(2)] show ?case
  proof (cases rule: used_at_SucE)
    case (left l r k')
    then show ?thesis using Suc.IH [of i l k' "Suc d" "2 * n"] Suc.prems by (simp add: ac_simps)
  next
    case (right l r k' i')
    then show ?thesis using Suc.IH [of i' r k' "Suc d" "2 * n + 1"] Suc.prems by (simp add: ac_simps)
  qed
qed

text \<open>The search walks down to the used node of the block.\<close>

lemma find_reach:
  "used_at j i t \<Longrightarrow> brep B m k d n t \<Longrightarrow> i < 2 ^ j \<Longrightarrow> j \<le> k \<Longrightarrow> d + k < 29 \<Longrightarrow>
   \<exists>ld' ln'. buddy_free_find B m (of_nat (i * 2 ^ (k - j + 12))) (of_nat (2 ^ (k + 12))) (of_nat d) (of_nat n) ld ln =
     buddy_free_find B m 0 (of_nat (2 ^ (k - j + 12))) (of_nat (d + j)) (of_nat (n * 2 ^ j + i)) ld' ln'"
proof (induction j arbitrary: i t k d n ld ln)
  case 0
  then show ?case by auto
next
  case (Suc j)
  obtain l r k' where t: "t = Split l r" and k: "k = Suc k'"
    using Suc.prems(1) brep_fits [OF Suc.prems(2)] by (cases rule: used_at_SucE) auto
  have j: "j \<le> k'" and D: "Suc d + k' < 29" and e: "k - Suc j = k' - j" using Suc.prems(4,5) k by auto
  have b: "brep B m k' (Suc d) (2 * n) l" "brep B m k' (Suc d) (2 * n + 1) r" "entry B m d n \<noteq> BBMAP_FREE"
    using Suc.prems(2) by (simp_all add: t k bbmap_defs)
  have s: "k + 12 = Suc (k' + 12)" using k by simp
  have half: "drop_bit 1 (of_nat (2 ^ (k + 12)) :: u64) = of_nat (2 ^ (k' + 12))"
    unfolding s using D by (intro half_len) simp
  have "(2 :: nat) ^ Suc (k' + 12) < 2 ^ 64" using D by (intro power_strict_increasing) auto
  then have lt: "2 * (2 :: nat) ^ (k' + 12) < 2 ^ 64" by (simp only: power_Suc)
  show ?case
  proof (cases "i < 2 ^ j")
    case True
    have "i * 2 ^ (k' - j + 12) < 2 ^ (k' + 12)" using block_offset_less [OF j True] .
    then have "\<not> of_nat (2 ^ (k' + 12)) \<le> (of_nat (i * 2 ^ (k' - j + 12)) :: u64)"
      using lt by (subst of_nat_le_u64) linarith+
    moreover have idx: "n * 2 ^ Suc j + i = 2 * n * 2 ^ j + i" by simp
    have "used_at j i l" using Suc.prems(1) t True by simp
    note IH = Suc.IH [OF this b(1) True j D, of "of_nat d" "of_nat n"]
    ultimately show ?thesis
      using b(3) IH by (subst find_step, unfold half e idx) (simp only: if_False if_True simp_thms add_Suc add_Suc_right)
  next
    case False
    then obtain i' where i: "i = 2 ^ j + i'" by (metis le_add_diff_inverse not_less)
    then have i': "i' < 2 ^ j" using Suc.prems(3) by simp
    have e2: "k' - j + 12 = k' + 12 - j" using j by simp
    have off: "i * 2 ^ (k' - j + 12) = 2 ^ (k' + 12) + i' * 2 ^ (k' - j + 12)"
      unfolding i e2 using j by (intro pow2_split) simp
    have "i' * 2 ^ (k' - j + 12) < 2 ^ (k' + 12)" using block_offset_less [OF j i'] .
    then have "of_nat (2 ^ (k' + 12)) \<le> (of_nat (i * 2 ^ (k' - j + 12)) :: u64)"
      unfolding off using lt by (subst of_nat_le_u64) linarith+
    moreover have "(of_nat (i * 2 ^ (k' - j + 12)) :: u64) - of_nat (2 ^ (k' + 12)) = of_nat (i' * 2 ^ (k' - j + 12))"
      unfolding off by simp
    moreover have idx: "n * 2 ^ Suc j + i = (2 * n + 1) * 2 ^ j + i'" by (simp add: i)
    have "used_at j i' r" using Suc.prems(1) t i by simp
    note IH = Suc.IH [OF this b(2) i' j D, of "of_nat d" "of_nat n"]
    ultimately show ?thesis
      using b(3) IH by (subst find_step, unfold half e idx) (simp only: if_False if_True simp_thms add_Suc add_Suc_right)
  qed
qed

text \<open>From a node at offset 0 the search takes the left child.\<close>

lemma find_left:
  assumes "entry B m d n \<noteq> BBMAP_FREE" "Suc e < 64"
  shows "buddy_free_find B m 0 (of_nat (2 ^ Suc e)) (of_nat d) (of_nat n) ld ln =
    buddy_free_find B m 0 (of_nat (2 ^ e)) (of_nat (Suc d)) (of_nat (2 * n)) (of_nat d) (of_nat n)"
proof -
  have half: "drop_bit 1 (of_nat (2 ^ Suc e) :: u64) = of_nat (2 ^ e)" using assms(2) by (intro half_len) simp
  have "(2 :: nat) ^ e < 2 ^ 64" using assms(2) by (intro power_strict_increasing) auto
  then have "\<not> of_nat (2 ^ e) \<le> (of_nat 0 :: u64)" by (subst of_nat_le_u64) simp_all
  then show ?thesis using assms(1)
    by (subst find_step, unfold half) (simp only: semiring_1_class.of_nat_0 if_False simp_thms)
qed

lemma find_used:
  assumes "used_at j i t" "brep B m k d n t" "i < 2 ^ j" "j \<le> k" "d + k < 29"
    and "j = k \<Longrightarrow> entry B m (Suc (d + j)) (2 * (n * 2 ^ j + i)) = BBMAP_FREE"
  shows "buddy_free_find B m (of_nat (i * 2 ^ (k - j + 12))) (of_nat (2 ^ (k + 12))) (of_nat d) (of_nat n) ld ln =
     Some (of_nat (d + j), of_nat (n * 2 ^ j + i))"
proof -
  have e: "k - j + 12 = Suc (k - j + 11)" by simp
  have u: "entry B m (d + j) (n * 2 ^ j + i) \<noteq> BBMAP_FREE
      \<and> (j < k \<longrightarrow> entry B m (Suc (d + j)) (2 * (n * 2 ^ j + i)) = BBMAP_FREE)"
    using used_at_entry [OF assms(1-4)] by (simp add: bbmap_defs)
  then have c: "entry B m (Suc (d + j)) (2 * (n * 2 ^ j + i)) = BBMAP_FREE" using assms(4,6) by linarith
  from find_reach [OF assms(1-5), of ld ln] obtain ld' ln' where
    "buddy_free_find B m (of_nat (i * 2 ^ (k - j + 12))) (of_nat (2 ^ (k + 12))) (of_nat d) (of_nat n) ld ln =
     buddy_free_find B m 0 (of_nat (2 ^ (k - j + 12))) (of_nat (d + j)) (of_nat (n * 2 ^ j + i)) ld' ln'" by blast
  also have "\<dots> = buddy_free_find B m 0 (of_nat (2 ^ (k - j + 11))) (of_nat (Suc (d + j))) (of_nat (2 * (n * 2 ^ j + i)))
      (of_nat (d + j)) (of_nat (n * 2 ^ j + i))"
    unfolding e using u assms(5) by (intro find_left) simp_all
  also have "\<dots> = Some (of_nat (d + j), of_nat (n * 2 ^ j + i))" by (subst find_step) (simp only: c if_True simp_thms)
  finally show ?thesis .
qed

text \<open>Merging goes up while the sibling is free.\<close>

abbreviation mark_free :: "addr \<Rightarrow> nat \<Rightarrow> nat \<Rightarrow> mem \<Rightarrow> mem" where
  "mark_free B d n m \<equiv> buddy_bitmap_set B (of_nat d) (of_nat n) BBMAP_FREE m"

lemma merge_root: "buddy_free_merge B 0 n m = m"
  by (subst buddy_free_merge.simps) simp

lemma merge_step:
  assumes "bnode (Suc d) c" "c = 2 * n \<and> sib = 2 * n + 1 \<or> c = 2 * n + 1 \<and> sib = 2 * n"
  shows "buddy_free_merge B (of_nat (Suc d)) (of_nat c) m =
    (if entry B m (Suc d) sib = BBMAP_FREE then buddy_free_merge B (of_nat d) (of_nat n) (mark_free B d n m) else m)"
proof -
  have "n < 2 ^ 30" using assms less_pow30 [of "Suc d" c] by (auto simp: bnode_def)
  then have h: "drop_bit 1 (of_nat c :: u64) = of_nat n" using assms(2) drop_bit_1_of_nat [of n] by auto
  have x: "(of_nat c :: u64) XOR 1 = of_nat sib" using assms(2) xor_1_of_nat [of n] by auto
  have d: "((of_nat (Suc d) :: u64) > 0) = True" "(of_nat (Suc d) :: u64) - 1 = of_nat d"
    using assms(1) by (simp_all add: word_less_nat_alt unat_of_nat bnode_def del: of_nat_Suc) simp
  show ?thesis
    by (subst buddy_free_merge.simps, unfold h x d entry_def [symmetric]) (simp only: simp_thms)
qed

lemma brep_joinb:
  assumes "brep B m k (Suc d) (2 * n) l" "brep B m k (Suc d) (2 * n + 1) r" "entry B m d n = BBMAP_SPLIT"
    and "bnode d n" "Suc d + k < 30"
  shows "brep B (if l = Free \<and> r = Free then mark_free B d n m else m) (Suc k) d n (joinb l r)"
proof (cases "l = Free \<and> r = Free")
  case True
  have "agree B m (mark_free B d n m) (\<lambda>d' n'. (d', n') \<noteq> (d, n))" using assms(4) by (rule set_agree) simp
  then have "below B (mark_free B d n m) (Suc k) d n"
    by (rule below_agree) (use assms True in \<open>simp_all add: clear_brep\<close>)
  then show ?thesis using True assms(4) by (simp add: joinb_def entry_set)
qed (use assms in \<open>auto simp: joinb_def\<close>)

lemma merge_up:
  assumes "brep B m' k (Suc d) (2 * n) l" "brep B m' k (Suc d) (2 * n + 1) r" "entry B m' d n = BBMAP_SPLIT"
    and "bnode d n" "Suc d + k < 30" and a: "agree B m m' (\<lambda>d' n'. \<not> desc d n d' n')" and "keeps B (Suc d + k) m m'"
    and c: "c = 2 * n \<and> sib = 2 * n + 1 \<and> x = l \<and> y = r \<or> c = 2 * n + 1 \<and> sib = 2 * n \<and> x = r \<and> y = l"
  shows "\<exists>m''. (if x = Free then buddy_free_merge B (of_nat (Suc d)) (of_nat c) m' else m') =
        (if joinb l r = Free then buddy_free_merge B (of_nat d) (of_nat n) m'' else m'')
     \<and> brep B m'' (Suc k) d n (joinb l r) \<and> agree B m m'' (\<lambda>d' n'. \<not> desc d n d' n') \<and> keeps B (Suc d + k) m m''"
proof -
  let ?m = "if l = Free \<and> r = Free then mark_free B d n m' else m'"
  have nodes: "bnode (Suc d) c" using bnode_child [OF assms(4)] assms(5) c by auto
  have "brep B m' k (Suc d) sib y" using assms(1,2) c by auto
  then have sib: "entry B m' (Suc d) sib = BBMAP_FREE \<longleftrightarrow> y = Free"
    using brep_entry by (auto simp: bbmap_defs split: btree.splits)
  have "(if x = Free then buddy_free_merge B (of_nat (Suc d)) (of_nat c) m' else m') =
      (if joinb l r = Free then buddy_free_merge B (of_nat d) (of_nat n) ?m else ?m)"
    using merge_step [OF nodes, of n sib B m'] c unfolding sib by (auto simp: joinb_def simp del: of_nat_Suc)
  moreover have "brep B ?m (Suc k) d n (joinb l r)" using assms(1-5) by (rule brep_joinb)
  moreover have "agree B m' (mark_free B d n m') (\<lambda>d' n'. \<not> desc d n d' n')"
    using set_agree [OF assms(4), of BBMAP_FREE] by (rule agree_mono) auto
  then have "agree B m ?m (\<lambda>d' n'. \<not> desc d n d' n')" using a by (auto intro: agree_trans)
  moreover have "keeps B (Suc d + k) m ?m"
    using assms(7) set_keeps [OF assms(4), of "Suc d + k"] by (auto intro: keeps_trans)
  ultimately show ?thesis by blast
qed

lemma merge_used:
  "used_at j i t \<Longrightarrow> brep B m k d n t \<Longrightarrow> i < 2 ^ j \<Longrightarrow> j \<le> k \<Longrightarrow> d + k < 30 \<Longrightarrow> bnode d n \<Longrightarrow>
   \<exists>m'. buddy_free_merge B (of_nat (d + j)) (of_nat (n * 2 ^ j + i)) (mark_free B (d + j) (n * 2 ^ j + i) m) =
        (if tfree j i t = Free then buddy_free_merge B (of_nat d) (of_nat n) m' else m')
     \<and> brep B m' k d n (tfree j i t) \<and> agree B m m' (\<lambda>d' n'. \<not> desc d n d' n') \<and> keeps B (d + k) m m'"
proof (induction j arbitrary: i t k d n)
  case 0
  have a: "agree B m (mark_free B d n m) (\<lambda>d' n'. (d', n') \<noteq> (d, n))" using 0(6) by (rule set_agree) simp
  have "brep B (mark_free B d n m) k d n Free"
    using 0 below_agree [OF a 0(6,5)] by (simp add: entry_set)
  moreover have "agree B m (mark_free B d n m) (\<lambda>d' n'. \<not> desc d n d' n')" by (rule agree_mono [OF a]) auto
  moreover have "keeps B (d + k) m (mark_free B d n m)" using 0(6) by (rule set_keeps) simp
  ultimately show ?case using 0(3) by (intro exI [of _ "mark_free B d n m"]) simp
next
  case (Suc j)
  obtain l r k' where t: "t = Split l r" and k: "k = Suc k'"
    using Suc.prems(1) brep_fits [OF Suc.prems(2)] by (cases rule: used_at_SucE) auto
  have j: "j \<le> k'" and D: "Suc d + k' < 30" "Suc d < 30" and dk: "d + k = Suc d + k'" and dj: "d + Suc j = Suc d + j"
    using Suc.prems(4,5) k by auto
  have b: "brep B m k' (Suc d) (2 * n) l" "brep B m k' (Suc d) (2 * n + 1) r" "entry B m d n = BBMAP_SPLIT"
    using Suc.prems(2) by (simp_all add: t k)
  have nodes: "bnode (Suc d) (2 * n)" "bnode (Suc d) (2 * n + 1)" using bnode_child [OF Suc.prems(6) D(2)] by auto
  show ?case
  proof (cases "i < 2 ^ j")
    case True
    have idx: "n * 2 ^ Suc j + i = 2 * n * 2 ^ j + i" by simp
    have u: "used_at j i l" and tf: "tfree (Suc j) i t = joinb (tfree j i l) r" using Suc.prems(1) True by (simp_all add: t)
    from Suc.IH [OF u b(1) True j D(1) nodes(1)] obtain m' where
      m': "buddy_free_merge B (of_nat (Suc d + j)) (of_nat (2 * n * 2 ^ j + i)) (mark_free B (Suc d + j) (2 * n * 2 ^ j + i) m) =
        (if tfree j i l = Free then buddy_free_merge B (of_nat (Suc d)) (of_nat (2 * n)) m' else m')"
        "brep B m' k' (Suc d) (2 * n) (tfree j i l)" "agree B m m' (\<lambda>d' n'. \<not> desc (Suc d) (2 * n) d' n')"
        "keeps B (Suc d + k') m m'" by auto
    have r: "brep B m' k' (Suc d) (2 * n + 1) r" "entry B m' d n = BBMAP_SPLIT"
      using brep_Split_left [OF m'(2,3) b(2,3) Suc.prems(6) D(1)] by simp_all
    have a: "agree B m m' (\<lambda>d' n'. \<not> desc d n d' n')" by (rule agree_child [OF m'(3)]) simp
    show ?thesis unfolding idx dj tf m'(1) dk unfolding k
      by (rule merge_up [OF m'(2) r(1,2) Suc.prems(6) D(1) a m'(4)]) simp
  next
    case False
    then obtain i' where i: "i = 2 ^ j + i'" by (metis le_add_diff_inverse not_less)
    have idx: "n * 2 ^ Suc j + i = (2 * n + 1) * 2 ^ j + i'" by (simp add: i)
    have u: "used_at j i' r" and tf: "tfree (Suc j) i t = joinb l (tfree j i' r)" and i': "i' < 2 ^ j"
      using Suc.prems(1,3) False by (simp_all add: t i)
    from Suc.IH [OF u b(2) i' j D(1) nodes(2)] obtain m' where
      m': "buddy_free_merge B (of_nat (Suc d + j)) (of_nat ((2 * n + 1) * 2 ^ j + i')) (mark_free B (Suc d + j) ((2 * n + 1) * 2 ^ j + i') m) =
        (if tfree j i' r = Free then buddy_free_merge B (of_nat (Suc d)) (of_nat (2 * n + 1)) m' else m')"
        "brep B m' k' (Suc d) (2 * n + 1) (tfree j i' r)" "agree B m m' (\<lambda>d' n'. \<not> desc (Suc d) (2 * n + 1) d' n')"
        "keeps B (Suc d + k') m m'" by auto
    have l: "brep B m' k' (Suc d) (2 * n) l" "entry B m' d n = BBMAP_SPLIT"
      using brep_Split_right [OF m'(2,3) b(1,3) Suc.prems(6) D(1)] by simp_all
    have a: "agree B m m' (\<lambda>d' n'. \<not> desc d n d' n')" by (rule agree_child [OF m'(3)]) simp
    show ?thesis unfolding idx dj tf m'(1) dk unfolding k
      by (rule merge_up [OF l(1) m'(2) l(2) Suc.prems(6) D(1) a m'(4)]) simp
  qed
qed

section \<open>One region\<close>

text \<open>
  A region with header \<open>h\<close> and bitmap at \<open>B\<close> holds the tree \<open>t\<close>; \<open>blocks\<close> are its used blocks in bytes of
  physical memory.
\<close>

definition region_holds :: "buddy_region_header \<Rightarrow> addr \<Rightarrow> mem \<Rightarrow> nat \<Rightarrow> btree \<Rightarrow> bool" where
  "region_holds h B m D t \<longleftrightarrow> region_ok h D \<and> brep B m D 0 0 t \<and> norm t"

definition blocks :: "buddy_region_header \<Rightarrow> nat \<Rightarrow> btree \<Rightarrow> (nat \<times> nat) set" where
  "blocks h D t = (\<lambda>(b, l). (unat (usable_base h) + b * 2 ^ 12, l * 2 ^ 12)) ` ublocks D t 0"

lemma helper_pow2:
  assumes "s + 12 < 64"
  shows "buddy_alloc_helper h B (2 ^ (s + 12)) m = Some (buddy_alloc_traverse h B 0 0 (max_depth h - of_nat s) m)"
proof -
  have u: "unat (2 ^ (s + 12) :: u64) = 2 ^ (s + 12)" using assms by (intro unat_pow2) simp
  have "(2 :: nat) ^ 12 \<le> 2 ^ (s + 12)" by (intro power_increasing) auto
  then have "((2 ^ (s + 12) :: u64) < 0x1000) = False" unfolding word_less_nat_alt u by (simp add: power_add)
  moreover have "drop_bit 12 (2 ^ (s + 12) :: u64) = 2 ^ s"
    using assms by (intro bit_word_eqI) (auto simp: bit_simps)
  moreover have "log2 (2 ^ s) = Some (of_nat s)" using assms by (intro log2_pow2) simp
  ultimately show ?thesis by (simp only: buddy_alloc_helper_def Let_def if_False) simp
qed

lemma alloc_helper_trav:
  assumes "region_ok h D" "s \<le> D"
  shows "buddy_alloc_helper h B (2 ^ (s + 12)) m = Some (trav h B 0 0 (D - s) m)"
proof -
  have D: "D < 29" "max_depth h = of_nat D" using assms(1) by (auto simp: region_ok_def)
  have "of_nat D - of_nat s = (of_nat (D - s) :: u64)" using assms(2) by simp
  then show ?thesis using helper_pow2 [of s h B m] D assms(2) by (simp only: D(2)) simp
qed

lemma alloc_helper_too_big:
  assumes "region_ok h D" "D < s" "s + 12 < 64"
  shows "buddy_alloc_helper h B (2 ^ (s + 12)) m = Some (0, m)"
proof -
  have D: "D < 29" "max_depth h = of_nat D" using assms(1) by (auto simp: region_ok_def)
  have "unat (of_nat D - of_nat s :: u64) = 2 ^ 64 + D - s"
    using D assms(2,3) by (simp add: unat_sub_if' unat_of_nat)
  then have "\<not> (of_nat D - of_nat s :: u64) \<le> of_nat D" 
    using D assms(2,3) by (simp add: word_le_nat_alt unat_of_nat)
  then have t: "buddy_alloc_traverse h B 0 0 (of_nat D - of_nat s) m = (0, m)"
    by (subst buddy_alloc_traverse.simps) (simp add: D(2) not_le)
  show ?thesis using helper_pow2 [OF assms(3), of h B m] t by (simp add: D(2))
qed

lemma alloc_helper_None:
  assumes "region_holds h B m D t" "s \<le> D" "talloc (D - s) t = None"
  shows "buddy_alloc_helper h B (2 ^ (s + 12)) m = Some (0, m)"
proof -
  have h: "region_ok h D" "brep B m D 0 0 t" using assms(1) by (auto simp: region_holds_def)
  have "trav h B 0 0 (D - s) m = (0, m)" using h(1) assms(3) h(2) by (rule trav_root_None) simp
  then show ?thesis by (simp only: alloc_helper_trav [OF h(1) assms(2)])
qed

lemma alloc_helper_Some:
  assumes "region_holds h B m D t" "s \<le> D" "talloc (D - s) t = Some (t', i)"
  obtains ret m' where "buddy_alloc_helper h B (2 ^ (s + 12)) m = Some (ret, m')" "ret \<noteq> 0"
    "unat ret = unat (usable_base h) + i * 2 ^ (s + 12)" "region_holds h B m' D t'" "keeps B D m m'"
proof -
  have h: "region_ok h D" "brep B m D 0 0 t" "norm t" using assms(1) by (auto simp: region_holds_def)
  let ?r = "buddy_get_slab h (of_nat (D - s)) (of_nat i)"
  have i: "i < 2 ^ (D - s)" using assms(3) by (rule talloc_index)
  have e: "D - (D - s) = s" using assms(2) by simp
  have "\<exists>m'. trav h B 0 0 (0 + (D - s)) m = (buddy_get_slab h (of_nat (0 + (D - s))) (of_nat (0 * 2 ^ (D - s) + i)), m')
      \<and> brep B m' D 0 0 t' \<and> agree B m m' (\<lambda>d' n'. \<not> desc 0 0 d' n') \<and> keeps B D m m'"
    using h(1) assms(3) h(2) by (rule trav_Some) (simp_all add: bnode_def)
  then obtain m' where m': "trav h B 0 0 (D - s) m = (?r, m')" "brep B m' D 0 0 t'" "keeps B D m m'"
    by (auto simp del: of_nat_diff)
  show thesis
  proof (rule that)
    show "buddy_alloc_helper h B (2 ^ (s + 12)) m = Some (?r, m')"
      by (simp only: alloc_helper_trav [OF h(1) assms(2)] m'(1))
    show "?r \<noteq> 0" using h(1) _ i by (rule get_slab_nonzero) simp
    show "unat ?r = unat (usable_base h) + i * 2 ^ (s + 12)"
      using unat_get_slab [OF h(1) _ i] unfolding e by simp
    show "region_holds h B m' D t'" using h m'(2) talloc_norm [OF assms(3)] by (simp add: region_holds_def)
  qed (rule m'(3))
qed

lemma blocks_alloc:
  assumes "talloc (D - s) t = Some (t', i)" "fits D t" "s \<le> D"
  shows "blocks h D t' = insert (unat (usable_base h) + i * 2 ^ (s + 12), 2 ^ (s + 12)) (blocks h D t)"
proof -
  have e: "D - (D - s) = s" using assms(3) by simp
  have "ublocks D t' 0 = insert (i * 2 ^ s, 2 ^ s) (ublocks D t 0)"
    using talloc_ublocks [OF assms(1,2), of 0] unfolding e by simp
  then show ?thesis by (simp add: blocks_def power_add mult.assoc)
qed

lemma blocks_within:
  assumes "(b, l) \<in> blocks h D t"
  shows "unat (usable_base h) \<le> b \<and> b + l \<le> unat (usable_base h) + 2 ^ (D + 12) \<and> 0 < l"
proof -
  obtain b' l' where b': "(b', l') \<in> ublocks D t 0" and e: "b = unat (usable_base h) + b' * 2 ^ 12" "l = l' * 2 ^ 12"
    using assms by (auto simp: blocks_def)
  have "b' + l' \<le> 2 ^ D" "0 < l'" using ublocks_within [OF b'] by auto
  then have "(b' + l') * 2 ^ 12 \<le> 2 ^ D * 2 ^ 12" by (intro mult_le_mono1)
  then show ?thesis using \<open>0 < l'\<close> by (simp add: e power_add algebra_simps)
qed

lemma blocks_disjoint:
  assumes "(b, l) \<in> blocks h D t" "(b', l') \<in> blocks h D t" "(b, l) \<noteq> (b', l')"
  shows "b + l \<le> b' \<or> b' + l' \<le> b"
proof -
  obtain x y x' y' where u: "(x, y) \<in> ublocks D t 0" "(x', y') \<in> ublocks D t 0"
    and e: "b = unat (usable_base h) + x * 2 ^ 12" "l = y * 2 ^ 12" "b' = unat (usable_base h) + x' * 2 ^ 12" "l' = y' * 2 ^ 12"
    using assms by (auto simp: blocks_def)
  have "x + y \<le> x' \<or> x' + y' \<le> x" using ublocks_disjoint [OF u] assms(3) by (auto simp: e)
  then have "(x + y) * 2 ^ 12 \<le> x' * 2 ^ 12 \<or> (x' + y') * 2 ^ 12 \<le> x * 2 ^ 12" by (auto intro: mult_le_mono1)
  then show ?thesis by (simp add: e algebra_simps)
qed

lemma blocks_full:
  assumes "talloc (D - s) t = None" "fits D t" "norm t" "s \<le> D" "i < 2 ^ (D - s)"
  shows "\<exists>b l. (b, l) \<in> blocks h D t \<and> b < unat (usable_base h) + (i + 1) * 2 ^ (s + 12)
    \<and> unat (usable_base h) + i * 2 ^ (s + 12) < b + l"
proof -
  have e: "D - (D - s) = s" using assms(4) by simp
  obtain b l where bl: "(b, l) \<in> ublocks D t 0" "b < (i + 1) * 2 ^ s" "i * 2 ^ s < b + l"
    using talloc_None [OF assms(1-3) _ assms(5), of 0] unfolding e by auto
  have "b * 2 ^ 12 < (i + 1) * 2 ^ s * 2 ^ 12" "i * 2 ^ s * 2 ^ 12 < (b + l) * 2 ^ 12"
    using bl(2,3) by (simp_all only: mult_less_mono1 zero_less_power zero_less_numeral)
  then have "b * 2 ^ 12 < (i + 1) * 2 ^ (s + 12)" "i * 2 ^ (s + 12) < b * 2 ^ 12 + l * 2 ^ 12"
    by (simp_all only: power_add mult.assoc add_mult_distrib)
  moreover have "(unat (usable_base h) + b * 2 ^ 12, l * 2 ^ 12) \<in> blocks h D t"
    using bl(1) unfolding blocks_def by (auto intro: rev_image_eqI)
  ultimately show ?thesis by - (rule exI, rule exI, intro conjI, assumption, linarith+)
qed

lemma blocks_new:
  assumes "talloc (D - s) t = Some (t', i)" "fits D t" "s \<le> D"
  shows "(unat (usable_base h) + i * 2 ^ (s + 12), 2 ^ (s + 12)) \<notin> blocks h D t"
proof -
  have e: "D - (D - s) = s" using assms(3) by simp
  have "(i * 2 ^ s, 2 ^ s) \<notin> ublocks D t 0" using talloc_not_in [OF assms(1,2), of 0] unfolding e by simp
  then show ?thesis by (auto simp: blocks_def power_add)
qed

lemma alloc_helper_block:
  assumes "region_holds h B m D t" "s \<le> D" and z: "talloc (D - s) t = Some (t', i)"
  shows "\<exists>ret m'. buddy_alloc_helper h B (2 ^ (s + 12)) m = Some (ret, m') \<and> keeps B D m m' \<and> ret \<noteq> 0
    \<and> region_holds h B m' D t' \<and> blocks h D t' = insert (unat ret, 2 ^ (s + 12)) (blocks h D t)
    \<and> unat (usable_base h) \<le> unat ret \<and> unat ret + 2 ^ (s + 12) \<le> unat (usable_base h) + 2 ^ (D + 12)
    \<and> 2 ^ (s + 12) dvd unat ret - unat (usable_base h)
    \<and> (\<forall>b l. (b, l) \<in> blocks h D t \<longrightarrow> b + l \<le> unat ret \<or> unat ret + 2 ^ (s + 12) \<le> b)"
proof -
  have f: "fits D t" using assms(1) brep_fits by (auto simp: region_holds_def)
  from alloc_helper_Some [OF assms] obtain ret m' where
    r: "buddy_alloc_helper h B (2 ^ (s + 12)) m = Some (ret, m')" "ret \<noteq> 0"
      "unat ret = unat (usable_base h) + i * 2 ^ (s + 12)" "region_holds h B m' D t'" "keeps B D m m'" .
  let ?x = "(unat ret, 2 ^ (s + 12))"
  have bl: "blocks h D t' = insert ?x (blocks h D t)" using blocks_alloc [OF z f assms(2)] r(3) by simp
  then have w: "unat ret + 2 ^ (s + 12) \<le> unat (usable_base h) + 2 ^ (D + 12)"
    using blocks_within [of "unat ret" "2 ^ (s + 12)" h D t'] by simp
  have new: "?x \<notin> blocks h D t"
    using blocks_new [OF z f assms(2)] r(3) by simp
  have "b + l \<le> unat ret \<or> unat ret + 2 ^ (s + 12) \<le> b" if "(b, l) \<in> blocks h D t" for b l
    using blocks_disjoint [of b l h D t' "unat ret" "2 ^ (s + 12)"] that new bl by auto
  then show ?thesis using r bl w by (intro exI [of _ ret] exI [of _ m']) auto
qed

lemma free_helper_used:
  assumes "region_holds h B m D t" "used_at j i t" "i < 2 ^ j" "j \<le> D"
    and "j = D \<Longrightarrow> entry B m (Suc D) (2 * i) = BBMAP_FREE"
  shows "\<exists>m'. buddy_free_helper h B (of_nat (unat (usable_base h) + i * 2 ^ (D - j + 12))) m = Some m'
    \<and> region_holds h B m' D (tfree j i t) \<and> keeps B D m m'"
proof -
  have h: "region_ok h D" "brep B m D 0 0 t" "norm t" and D: "D < 29" "usable_len h = of_nat (2 ^ (D + 12))"
    using assms(1) by (auto simp: region_holds_def region_ok_def)
  have "buddy_free_find B m (of_nat (i * 2 ^ (D - j + 12))) (of_nat (2 ^ (D + 12))) (of_nat 0) (of_nat 0) 0 0 =
      Some (of_nat (0 + j), of_nat (0 * 2 ^ j + i))"
    using assms(2) h(2) assms(3,4) by (rule find_used) (use D assms(5) in simp_all)
  then have f: "buddy_free_find B m (of_nat (i * 2 ^ (D - j + 12))) (usable_len h) 0 0 0 0 = Some (of_nat j, of_nat i)"
    by (simp only: D(2) semiring_1_class.of_nat_0 add_0 mult_0)
  have "of_nat (unat (usable_base h) + x) - usable_base h = of_nat x" for x by simp
  note off = this [of "i * 2 ^ (D - j + 12)"]
  obtain m' where m': "buddy_free_merge B (of_nat j) (of_nat i) (mark_free B j i m) =
        (if tfree j i t = Free then buddy_free_merge B (of_nat 0) (of_nat 0) m' else m')"
      "brep B m' D 0 0 (tfree j i t)" "keeps B D m m'"
    using merge_used [OF assms(2) h(2) assms(3,4)] D(1) by (auto simp: bnode_def)
  have "buddy_free_helper h B (of_nat (unat (usable_base h) + i * 2 ^ (D - j + 12))) m = Some m'"
    unfolding buddy_free_helper_def Let_def off f using m'(1) by (simp add: merge_root)
  then show ?thesis using m'(2,3) h(1) tfree_norm [OF h(3)] by (simp add: region_holds_def)
qed

lemma blocks_used_at:
  assumes "(b, l) \<in> blocks h D t"
  obtains j i where "j \<le> D" "i < 2 ^ j" "used_at j i t" "b = unat (usable_base h) + i * 2 ^ (D - j + 12)"
    "l = 2 ^ (D - j + 12)"
proof -
  obtain b' l' where b': "(b', l') \<in> ublocks D t 0" and e: "b = unat (usable_base h) + b' * 2 ^ 12" "l = l' * 2 ^ 12"
    using assms by (auto simp: blocks_def)
  from ublocks_used_at [OF b'] obtain j i where j: "j \<le> D" "i < 2 ^ j" "used_at j i t"
    "b' = i * 2 ^ (D - j)" "l' = 2 ^ (D - j)" by auto
  show thesis by (rule that [OF j(1-3)]) (simp_all only: e j(4,5) power_add mult.assoc)
qed

lemma blocks_free:
  assumes "fits D t" "j \<le> D" "i < 2 ^ j" "used_at j i t"
  shows "blocks h D (tfree j i t) =
    blocks h D t - {(unat (usable_base h) + i * 2 ^ (D - j + 12), 2 ^ (D - j + 12))}"
proof -
  let ?f = "\<lambda>(b, l). (unat (usable_base h) + b * 2 ^ 12, l * (2 :: nat) ^ 12)"
  have "inj ?f" by (auto simp: inj_def)
  then have "?f ` (ublocks D t 0 - {(i * 2 ^ (D - j), 2 ^ (D - j))}) =
      ?f ` ublocks D t 0 - {?f (i * 2 ^ (D - j), 2 ^ (D - j))}" by (simp add: image_set_diff)
  then show ?thesis
    unfolding blocks_def using tfree_ublocks [OF assms, of 0] by (simp add: power_add mult.assoc)
qed

section \<open>Properties of one region\<close>

text \<open>An example region of two pages, for the witnesses.\<close>

definition two_pages :: buddy_region_header where
  "two_pages = \<lparr>usable_base = 0x100000, usable_len = 0x2000, max_depth = 1, bitmap_len = 0\<rparr>"

lemma entry_zero: "entry B (\<lambda>_. 0) d n = BBMAP_FREE"
  by (simp add: entry_def buddy_bitmap_get_def bitmap_get_def bbmap_defs Let_def)

lemma clear_zero: "clear B (\<lambda>_. 0) k d n"
  by (induction k arbitrary: d n) (simp_all add: entry_zero)

lemma region_holds_zero: "region_ok h D \<Longrightarrow> region_holds h B (\<lambda>_. 0) D Free"
  using clear_zero [of B D 0 0] by (simp add: region_holds_def clear_iff)

lemma two_pages_ok: "region_ok two_pages 1"
  by (simp add: region_ok_def two_pages_def)

text \<open>
  C12. On a well-formed region \<open>buddy_alloc_helper\<close> of a power of two of pages always returns. Either it
  returns 0 and changes nothing, and then every aligned block of that size overlaps a used block; or it
  returns a block inside the region, aligned to its size relative to the start, that overlaps no used
  block, and the region stays well-formed with exactly that block added. No byte outside the bitmap
  changes.
\<close>

theorem buddy_alloc_helper_fresh:
  assumes "region_holds h B m D t" and "s \<le> D"
  shows "\<exists>ret m'. buddy_alloc_helper h B (2 ^ (s + 12)) m = Some (ret, m') \<and> keeps B D m m' \<and>
    (if ret = 0 then m' = m \<and> (\<forall>i < 2 ^ (D - s). \<exists>b l. (b, l) \<in> blocks h D t
         \<and> b < unat (usable_base h) + (i + 1) * 2 ^ (s + 12) \<and> unat (usable_base h) + i * 2 ^ (s + 12) < b + l)
     else (\<exists>t'. region_holds h B m' D t' \<and> blocks h D t' = insert (unat ret, 2 ^ (s + 12)) (blocks h D t))
       \<and> unat (usable_base h) \<le> unat ret \<and> unat ret + 2 ^ (s + 12) \<le> unat (usable_base h) + 2 ^ (D + 12)
       \<and> 2 ^ (s + 12) dvd unat ret - unat (usable_base h)
       \<and> (\<forall>b l. (b, l) \<in> blocks h D t \<longrightarrow> b + l \<le> unat ret \<or> unat ret + 2 ^ (s + 12) \<le> b))"
proof -
  have f: "fits D t" and n: "norm t" using assms(1) brep_fits by (auto simp: region_holds_def)
  show ?thesis
  proof (cases "talloc (D - s) t")
    case None
    then show ?thesis
      using alloc_helper_None [OF assms None] blocks_full [OF None f n assms(2)] by auto
  next
    case (Some z)
    then obtain t' i where "talloc (D - s) t = Some (t', i)" by (cases z) auto
    from alloc_helper_block [OF assms this] show ?thesis by auto
  qed
qed

theorem buddy_alloc_helper_fresh_witness:
  "\<exists>ret m'. buddy_alloc_helper two_pages 0x8020 (2 ^ (0 + 12)) (\<lambda>_. 0) = Some (ret, m') \<and> keeps 0x8020 1 (\<lambda>_. 0) m' \<and>
    (if ret = 0 then m' = (\<lambda>_. 0) \<and> (\<forall>i < 2 ^ (1 - 0). \<exists>b l. (b, l) \<in> blocks two_pages 1 Free
         \<and> b < unat (usable_base two_pages) + (i + 1) * 2 ^ (0 + 12) \<and> unat (usable_base two_pages) + i * 2 ^ (0 + 12) < b + l)
     else (\<exists>t'. region_holds two_pages 0x8020 m' 1 t' \<and> blocks two_pages 1 t' = insert (unat ret, 2 ^ (0 + 12)) (blocks two_pages 1 Free))
       \<and> unat (usable_base two_pages) \<le> unat ret \<and> unat ret + 2 ^ (0 + 12) \<le> unat (usable_base two_pages) + 2 ^ (1 + 12)
       \<and> 2 ^ (0 + 12) dvd unat ret - unat (usable_base two_pages)
       \<and> (\<forall>b l. (b, l) \<in> blocks two_pages 1 Free \<longrightarrow> b + l \<le> unat ret \<or> unat ret + 2 ^ (0 + 12) \<le> b))"
  by (rule buddy_alloc_helper_fresh [OF region_holds_zero [OF two_pages_ok]]) simp



end
