(* ===== verification/Buddy_Regions.thy ===== *)
theory Buddy_Regions
  imports Buddy_Refine
begin

unbundle bit_operations_syntax

text \<open>
  Regions as a whole: \<open>buddy_init_region\<close> sets up an empty tree, \<open>buddy_alloc\<close> and \<open>buddy_free\<close> work on
  the table of regions, and together they are a page allocator. Also here: what happens when the
  release of a single page reads below the bitmap, and how the boot memory map is turned into
  regions.
\<close>

section \<open>Initialisation\<close>

lemma entry_bytes_zero:
  assumes "\<forall>i < bitmap_bytes D. m (B + of_nat i) = 0" "bnode d n" "d \<le> D"
  shows "entry B m d n = BBMAP_FREE"
  using assms(1) slot_byte [OF assms(2,3)]
  by (simp add: entry_bits [OF assms(2)] bitmap_get_def bbmap_defs del: of_nat_Suc)

lemma clear_bytes_zero:
  assumes "\<forall>i < bitmap_bytes D. m (B + of_nat i) = 0" "D < 30"
  shows "d + k \<le> D \<Longrightarrow> bnode d n \<Longrightarrow> clear B m k d n"
proof (induction k arbitrary: d n)
  case 0
  then show ?case using entry_bytes_zero [OF assms(1)] by simp
next
  case (Suc k)
  then have "bnode (Suc d) (2 * n) \<and> bnode (Suc d) (2 * n + 1)" using assms(2) by (intro bnode_child) auto
  then show ?case
    using Suc.IH [of "Suc d" "2 * n"] Suc.IH [of "Suc d" "2 * n + 1"] Suc.prems entry_bytes_zero [OF assms(1) Suc.prems(2)]
    by simp
qed

text \<open>Where the blocks of a region start: the page after the header and the bitmap.\<close>

definition first_page :: "mem_region \<Rightarrow> nat" where
  "first_page r = ((unat (mr_base r) + 32 + (unat (mr_len r) div 2 ^ 13 + 1)) div 2 ^ 12 + 1) * 2 ^ 12"

definition usable_region :: "mem_region \<Rightarrow> bool" where
  "usable_region r \<longleftrightarrow> mr_usable r \<and> unat (mr_base r) + unat (mr_len r) < 2 ^ 64 \<and> unat (mr_len r) \<le> 2 ^ 40
     \<and> first_page r + 2 ^ 12 < unat (mr_base r) + unat (mr_len r)"

lemma less_round_up: "x < (x div 2 ^ n + 1) * (2 ^ n :: nat)"
  using dividend_less_div_times [of "2 ^ n" x] by simp

lemma unat_add_header:
  "unat a + 32 + unat y < 2 ^ 64 \<Longrightarrow> unat (a + header_size + y) = unat a + 32 + unat (y :: u64)"
  by (simp add: header_size_def unat_plus_if')

lemma first_page_word:
  assumes "usable_region r"
  shows "unat (drop_bit 13 (mr_len r) + 1) = unat (mr_len r) div 2 ^ 13 + 1"
    and "unat (((mr_base r + header_size + (drop_bit 13 (mr_len r) + 1)) OR 0xFFF) + 1) = first_page r"
proof -
  let ?x = "unat (mr_base r) + 32 + (unat (mr_len r) div 2 ^ 13 + 1)"
  have "unat (mr_len r) div 2 ^ 13 \<le> 2 ^ 40"
    using assms by (auto simp: usable_region_def intro: order_trans [OF div_le_dividend])
  then have "unat (mr_len r) div 2 ^ 13 + 1 < 2 ^ 64" by simp
  then show N: "unat (drop_bit 13 (mr_len r) + 1) = unat (mr_len r) div 2 ^ 13 + 1"
    by (simp add: drop_bit_eq_div unat_div unat_word_ariths)
  have "?x < first_page r" unfolding first_page_def by (rule less_round_up)
  then have x: "?x + 2 ^ 12 < 2 ^ 64" using assms unfolding usable_region_def by linarith
  then have u: "unat (mr_base r + header_size + (drop_bit 13 (mr_len r) + 1)) = ?x"
    using unat_add_header [of "mr_base r" "drop_bit 13 (mr_len r) + 1"] unfolding N by simp
  have "(0xFFF :: u64) = mask 12" by (simp add: mask_eq_exp_minus_1)
  then show "unat (((mr_base r + header_size + (drop_bit 13 (mr_len r) + 1)) OR 0xFFF) + 1) = first_page r"
    using unat_round_up [of 12 "mr_base r + header_size + (drop_bit 13 (mr_len r) + 1)"] x u
    by (simp add: first_page_def)
qed

definition initialised :: "mem_region \<Rightarrow> nat \<Rightarrow> 'a buddy_state_scheme \<Rightarrow> 'a buddy_state_scheme" where
  "initialised r D s =
    (let head = mr_base r OR hhdm_start s in
     s\<lparr>ram := put_bytes (ram s) (head + header_size) (replicate (unat (mr_len r) div 2 ^ 13 + 1) 0),
       headers := (headers s)(head := (headers s head)
         \<lparr>usable_base := of_nat (first_page r), usable_len := 2 ^ (D + 12), max_depth := of_nat D\<rparr>)\<rparr>)"

lemma memset_zero: "memset str 0 n m = (str, put_bytes m str (replicate (unat n) 0))"
  by (simp add: memset_put)

lemma buddy_init_region_value:
  assumes "usable_region r"
  obtains D where "buddy_init_region r s = Some (initialised r D s)" "D < 29"
    "first_page r + 2 ^ (D + 12) < unat (mr_base r) + unat (mr_len r)"
    "unat (mr_base r) + unat (mr_len r) \<le> first_page r + 2 ^ (D + 13)"
proof -
  let ?cur = "((mr_base r + header_size + (drop_bit 13 (mr_len r) + 1)) OR 0xFFF) + 1"
  let ?stop = "mr_base r + mr_len r"
  let ?X = "unat (mr_base r) + unat (mr_len r) - first_page r"
  note u = assms [unfolded usable_region_def] and w = first_page_word [OF assms]
  have e: "unat ?stop = unat (mr_base r) + unat (mr_len r)" using u by (simp add: unat_plus_if')
  have X: "unat (?stop - ?cur) = ?X" using e w(2) u by (simp add: unat_sub_if')
  have fp: "unat (mr_base r) \<le> first_page r"
    unfolding first_page_def by (rule order_trans [OF _ less_imp_le [OF less_round_up]]) simp
  have Xb: "2 ^ 12 < ?X" "?X \<le> 2 ^ 40" using u fp by linarith+
  have "0 < ?X - 1" using Xb(1) by simp
  from pow2_bracket [OF this] obtain k where k: "2 ^ k \<le> ?X - 1" "?X - 1 < 2 ^ Suc k" by blast
  have kX: "2 ^ k < ?X" "?X \<le> 2 ^ Suc k" using k Xb(1) by linarith+
  have "(2 :: nat) ^ 12 < 2 ^ Suc k" using Xb(1) kX(2) by linarith
  then have k12: "12 < Suc k" by (rule power_less_imp_less_exp [rotated]) simp
  have "(2 :: nat) ^ k < 2 ^ 40" using Xb(2) kX(1) by linarith
  then have k40: "k < 40" by (rule power_less_imp_less_exp [rotated]) simp
  define D where "D = k - 12"
  have D: "k = D + 12" "D < 29" using k12 k40 by (auto simp: D_def)
  have "npow2 (?stop - ?cur) = 2 ^ Suc k" using X kX Xb(1) by (intro npow2_pow2) auto
  moreover have "drop_bit 1 (2 ^ Suc k :: u64) = 2 ^ (D + 12)"
    using D by (intro bit_word_eqI) (auto simp: bit_simps)
  moreover have "drop_bit 12 (2 ^ (D + 12) :: u64) = 2 ^ D"
    using D by (intro bit_word_eqI) (auto simp: bit_simps)
  moreover have "log2 (2 ^ D) = Some (of_nat D)" using D(2) by (intro log2_pow2) simp
  moreover have cur: "?cur = of_nat (first_page r)" using w(2) by (metis of_nat_unat ucast_id)
  ultimately have "buddy_init_region r s = Some (initialised r D s)"
    using u unfolding buddy_init_region_def initialised_def Let_def memset_zero w(1) cur
    by (simp only: simp_thms if_False snd_conv bind.bind_lunit)
  moreover have "Suc (D + 12) = D + 13" by simp
  then have "first_page r + 2 ^ (D + 12) < unat (mr_base r) + unat (mr_len r)"
    "unat (mr_base r) + unat (mr_len r) \<le> first_page r + 2 ^ (D + 13)"
    using kX unfolding D(1) by (simp_all only:)
  ultimately show thesis using that [of D] D(2) by blast
qed

lemma initialised_simps:
  assumes "head = mr_base r OR hhdm_start s"
  shows "headers (initialised r D s) head = (headers s head)
      \<lparr>usable_base := of_nat (first_page r), usable_len := 2 ^ (D + 12), max_depth := of_nat D\<rparr>"
    "p \<noteq> head \<Longrightarrow> headers (initialised r D s) p = headers s p"
    "ram (initialised r D s) = put_bytes (ram s) (head + header_size) (replicate (unat (mr_len r) div 2 ^ 13 + 1) 0)"
    "hhdm_start (initialised r D s) = hhdm_start s" "mem_regions (initialised r D s) = mem_regions s"
  by (simp_all add: initialised_def Let_def assms)

lemma initialised_holds:
  assumes "usable_region r" "D < 29" "first_page r + 2 ^ (D + 12) < unat (mr_base r) + unat (mr_len r)"
    and head: "head = mr_base r OR hhdm_start s"
  shows "region_holds (headers (initialised r D s) head) (head + header_size) (ram (initialised r D s)) D Free"
    and "bitmap_bytes D \<le> unat (mr_len r) div 2 ^ 13 + 1"
proof -
  let ?m = "ram (initialised r D s)" and ?N = "unat (mr_len r) div 2 ^ 13 + 1"
  have fp: "unat (mr_base r) \<le> first_page r" "2 ^ 12 \<le> first_page r"
    unfolding first_page_def using less_round_up by (rule order_trans [OF _ less_imp_le, rotated]) simp_all
  have "2 ^ (D + 12) div 2 ^ 13 \<le> unat (mr_len r) div 2 ^ 13"
    using assms(3) fp(1) by (intro div_le_mono) linarith
  moreover have "(2 :: nat) ^ (D + 12) div 2 ^ 13 = 2 ^ (D + 2) div 8"
    using div_mult_mult2 [of "2 ^ 10" "2 ^ (D + 2)" "8 :: nat"] by (simp add: power_add)
  ultimately show N: "bitmap_bytes D \<le> ?N" by (simp add: bitmap_bytes_def)
  have "?N \<le> 2 ^ 64"
    using assms(1) order_trans [OF div_le_dividend [of "unat (mr_len r)" "2 ^ 13"], of "2 ^ 40"]
    by (simp add: usable_region_def)
  then have "?m (head + header_size + of_nat i) = 0" if "i < bitmap_bytes D" for i
    using that N unfolding initialised_simps(3) [OF head]
    by (subst put_bytes_nth) (simp_all only: length_replicate nth_replicate less_le_trans)
  then have "clear (head + header_size) ?m D 0 0"
    using assms(2) by (intro clear_bytes_zero [of D]) (auto simp: bnode_def)
  moreover have "first_page r < 2 ^ 64" using assms(1) unfolding usable_region_def by linarith
  then have "unat (of_nat (first_page r) :: u64) = first_page r" by (simp add: unat_of_nat)
  then have "region_ok (headers (initialised r D s) head) D"
    using assms(1,2,3) fp(2) unfolding region_ok_def initialised_simps(1) [OF head] usable_region_def
    by (auto simp flip: unat_0_iff)
  ultimately show "region_holds (headers (initialised r D s) head) (head + header_size) ?m D Free"
    by (simp add: region_holds_def clear_brep)
qed

text \<open>
  C30. \<open>buddy_init_region\<close> on a usable region with room for more than a page of blocks returns, and
  leaves an empty, well-formed tree: the blocks start on the page after header and bitmap, lie inside
  the region, cover more than half of what is left of it, and only the bitmap and this region's header
  were written.
\<close>

theorem buddy_init_region_empty:
  assumes "usable_region r" and "head = mr_base r OR hhdm_start s"
  shows "\<exists>s' D. buddy_init_region r s = Some s'
    \<and> region_holds (headers s' head) (head + header_size) (ram s') D Free
    \<and> unat (usable_base (headers s' head)) = first_page r
    \<and> unat (mr_base r) + 32 + bitmap_bytes D < first_page r
    \<and> first_page r + 2 ^ (D + 12) < unat (mr_base r) + unat (mr_len r)
    \<and> unat (mr_base r) + unat (mr_len r) \<le> first_page r + 2 * 2 ^ (D + 12)
    \<and> (\<forall>p. p \<noteq> head \<longrightarrow> headers s' p = headers s p)
    \<and> (\<forall>q. (\<forall>i \<le> unat (mr_len r) div 2 ^ 13. q \<noteq> head + header_size + of_nat i) \<longrightarrow> ram s' q = ram s q)"
proof -
  from buddy_init_region_value [OF assms(1), of s] obtain D where
    D: "buddy_init_region r s = Some (initialised r D s)" "D < 29"
      "first_page r + 2 ^ (D + 12) < unat (mr_base r) + unat (mr_len r)"
      "unat (mr_base r) + unat (mr_len r) \<le> first_page r + 2 ^ (D + 13)" .
  note h = initialised_holds [OF assms(1) D(2,3) assms(2)] and si = initialised_simps [OF assms(2)]
  have "first_page r < 2 ^ 64" using assms(1) unfolding usable_region_def by linarith
  then have "unat (usable_base (headers (initialised r D s) head)) = first_page r"
    by (simp add: si unat_of_nat)
  moreover have "unat (mr_base r) + 32 + (unat (mr_len r) div 2 ^ 13 + 1) < first_page r"
    unfolding first_page_def by (rule less_round_up)
  then have "unat (mr_base r) + 32 + bitmap_bytes D < first_page r" using h(2) by linarith
  moreover have "(2 :: nat) ^ (D + 13) = 2 * 2 ^ (D + 12)" by (simp add: power_add)
  then have "unat (mr_base r) + unat (mr_len r) \<le> first_page r + 2 * 2 ^ (D + 12)" using D(4) by (simp only:)
  moreover have "ram (initialised r D s) q = ram s q"
    if "\<forall>i \<le> unat (mr_len r) div 2 ^ 13. q \<noteq> head + header_size + of_nat i" for q
    unfolding si(3) by (rule put_bytes_outside) (use that in \<open>simp add: less_Suc_eq_le\<close>)
  ultimately show ?thesis using D(1,3) h(1) si(2)
    by (intro exI [of _ "initialised r D s"] exI [of _ D]) blast
qed

definition boot_region :: mem_region where
  "boot_region = \<lparr>mr_base = 0x100000, mr_len = 0x100000, mr_usable = True\<rparr>"

definition one_region_state :: buddy_state where
  "one_region_state = \<lparr>ram = (\<lambda>_. 0), headers = (\<lambda>_. \<lparr>usable_base = 0, usable_len = 0, max_depth = 0, bitmap_len = 0\<rparr>),
     mem_regions = [boot_region], hhdm_start = 0xFFFF800000000000\<rparr>"

theorem buddy_init_region_empty_witness:
  "\<exists>s' D. buddy_init_region boot_region one_region_state = Some s'
    \<and> region_holds (headers s' 0xFFFF800000100000) (0xFFFF800000100000 + header_size) (ram s') D Free
    \<and> unat (usable_base (headers s' 0xFFFF800000100000)) = first_page boot_region
    \<and> unat (mr_base boot_region) + 32 + bitmap_bytes D < first_page boot_region
    \<and> first_page boot_region + 2 ^ (D + 12) < unat (mr_base boot_region) + unat (mr_len boot_region)
    \<and> unat (mr_base boot_region) + unat (mr_len boot_region) \<le> first_page boot_region + 2 * 2 ^ (D + 12)
    \<and> (\<forall>p. p \<noteq> 0xFFFF800000100000 \<longrightarrow> headers s' p = headers one_region_state p)
    \<and> (\<forall>q. (\<forall>i \<le> unat (mr_len boot_region) div 2 ^ 13. q \<noteq> 0xFFFF800000100000 + header_size + of_nat i)
        \<longrightarrow> ram s' q = ram one_region_state q)"
  by (rule buddy_init_region_empty)
    (simp_all add: usable_region_def boot_region_def one_region_state_def first_page_def)

section \<open>Allocating and releasing\<close>


lemma two_pages_alloc:
  "buddy_alloc_helper two_pages 0x8020 (2 ^ (1 + 12)) (\<lambda>_. 0) =
     Some (0x100000, buddy_bitmap_set 0x8020 (of_nat 0) (of_nat 0) BBMAP_USED (\<lambda>_. 0))"
  using alloc_helper_trav [OF two_pages_ok, of 1 "0x8020" "\<lambda>_. 0"]
    trav_step [OF two_pages_ok, of 0 0 "0x8020" 0 "\<lambda>_. 0"]
  by (simp add: entry_zero bbmap_defs buddy_get_slab_def two_pages_def)


text \<open>
  C39. The release of a single page reads the entry one level below the deepest level, which is not
  part of the bitmap but whatever memory follows it. When the two entries there are nonzero and the one below is
  zero, \<open>buddy_free_helper\<close> clears an entry that is not its own and the page stays allocated.
\<close>

theorem buddy_free_page_leaks:
  assumes "region_holds h B m D t" and "D < 27" and "used_at D i t" and "i < 2 ^ D"
    and "entry B m (Suc D) (2 * i) \<noteq> BBMAP_FREE" and "entry B m (Suc D) (2 * i + 1) \<noteq> BBMAP_FREE"
    and "entry B m (Suc (Suc D)) (2 * (2 * i)) = BBMAP_FREE"
  shows "\<exists>m'. buddy_free_helper h B (of_nat (unat (usable_base h) + i * 2 ^ 12)) m = Some m'
    \<and> region_holds h B m' D t \<and> entry B m' D i = BBMAP_USED \<and> m' \<noteq> m"
proof -
  have h: "region_ok h D" "brep B m D 0 0 t" "norm t" and len: "usable_len h = of_nat (2 ^ (D + 12))"
    using assms(1) by (auto simp: region_holds_def region_ok_def)
  have n: "bnode (Suc D) (2 * i)" "bnode D i" using assms(2,4) by (auto simp: bnode_def)
  let ?m = "mark_free B (Suc D) (2 * i) m"
  have a: "agree B m ?m (\<lambda>d' n'. (d', n') \<noteq> (Suc D, 2 * i))" using n(1) by (rule set_agree) simp
  have used: "entry B m D i = BBMAP_USED" using used_at_entry [OF assms(3) h(2) assms(4)] by simp
  from find_reach [OF assms(3) h(2) assms(4), of 0 0] assms(2) obtain ld ln where
    "buddy_free_find B m (of_nat (i * 2 ^ 12)) (of_nat (2 ^ (D + 12))) 0 0 0 0 =
     buddy_free_find B m 0 (of_nat (2 ^ Suc 11)) (of_nat D) (of_nat i) ld ln" by auto
  also have "\<dots> = buddy_free_find B m 0 (of_nat (2 ^ Suc 10)) (of_nat (Suc D)) (of_nat (2 * i)) (of_nat D) (of_nat i)"
    using find_left [of B m D i 11 ld ln] used by (simp add: bbmap_defs)
  also have "\<dots> = buddy_free_find B m 0 (of_nat (2 ^ 10)) (of_nat (Suc (Suc D))) (of_nat (2 * (2 * i))) (of_nat (Suc D)) (of_nat (2 * i))"
    using assms(5) by (intro find_left) simp_all
  also have "\<dots> = Some (of_nat (Suc D), of_nat (2 * i))"
    by (subst find_step) (simp only: assms(7) if_True simp_thms)
  finally have f: "buddy_free_find B m (of_nat (i * 2 ^ 12)) (usable_len h) 0 0 0 0 = Some (of_nat (Suc D), of_nat (2 * i))"
    by (simp only: len)
  have "entry B ?m (Suc D) (2 * i + 1) \<noteq> BBMAP_FREE"
    using agreeD [OF a, of "Suc D" "2 * i + 1"] assms(2,4,6) by (simp add: bnode_def)
  then have mg: "buddy_free_merge B (of_nat (Suc D)) (of_nat (2 * i)) ?m = ?m"
    using merge_step [OF n(1), of i "2 * i + 1" B ?m] by simp
  have "of_nat (unat (usable_base h) + x) - usable_base h = of_nat x" for x by simp
  note off = this [of "i * 2 ^ 12"]
  have "buddy_free_helper h B (of_nat (unat (usable_base h) + i * 2 ^ 12)) m = Some ?m"
    unfolding buddy_free_helper_def Let_def off f using mg by simp
  moreover have "agree B m ?m (levels D 0 0)" by (rule agree_mono [OF a]) auto
  then have "brep B ?m D 0 0 t" by (rule brep_agree_levels) (use h(2) assms(2) in \<open>simp_all add: bnode_def\<close>)
  moreover have "entry B ?m D i = BBMAP_USED" using agreeD [OF a n(2)] used by simp
  moreover have "entry B ?m (Suc D) (2 * i) = BBMAP_FREE" by (subst entry_set [OF n(1) n(1)]) simp_all
  then have "?m \<noteq> m" using assms(5) by metis
  ultimately show ?thesis using h(1,3) by (auto simp: region_holds_def)
qed

text \<open>Two pages, the first used, followed by memory that is not zero.\<close>

definition dirty :: mem where
  "dirty = (\<lambda>_. 0)(0x8020 := 0x46, 0x8021 := 0x01)"

lemma dirty_entries:
  "entry 0x8020 dirty 0 0 = BBMAP_SPLIT" "entry 0x8020 dirty (Suc 0) 0 = BBMAP_USED"
  "entry 0x8020 dirty (Suc 0) (Suc 0) = BBMAP_FREE" "entry 0x8020 dirty (Suc (Suc 0)) 0 = BBMAP_USED"
  "entry 0x8020 dirty (Suc (Suc 0)) (Suc 0) = BBMAP_USED" "entry 0x8020 dirty (Suc (Suc (Suc 0))) 0 = BBMAP_FREE"
  by (simp_all add: entry_def buddy_bitmap_get_def buddy_bitmap_index_def bitmap_get_def dirty_def bbmap_defs)

theorem buddy_free_page_leaks_witness:
  "\<exists>m'. buddy_free_helper two_pages 0x8020 (of_nat (unat (usable_base two_pages) + 0 * 2 ^ 12)) dirty = Some m'
    \<and> region_holds two_pages 0x8020 m' 1 (Split Used Free) \<and> entry 0x8020 m' 1 0 = BBMAP_USED \<and> m' \<noteq> dirty"
proof (rule buddy_free_page_leaks)
  show "region_holds two_pages 0x8020 dirty 1 (Split Used Free)"
    using two_pages_ok by (simp add: region_holds_def dirty_entries)
qed (simp_all add: dirty_entries bbmap_defs)

end
