(* ===== verification/Allocator.thy ===== *)
theory Allocator
  imports Kernel_Prelude
begin

text \<open>
  The interface of the kernel's memory allocators: the laws a client may rely on and what follows for
  a client that asks for one block after the other. The buddy allocator (\<open>Buddy_Alloc\<close>) and the slab
  caches (\<open>Slab_Pool\<close>) provide it.
\<close>

definition disjoint_blocks :: "nat \<times> nat \<Rightarrow> nat \<times> nat \<Rightarrow> bool" where
  "disjoint_blocks x y \<longleftrightarrow> fst x + snd x \<le> fst y \<or> fst y + snd y \<le> fst x"

lemma disjoint_blocks_sym: "disjoint_blocks x y \<longleftrightarrow> disjoint_blocks y x"
  by (auto simp: disjoint_blocks_def)

lemma disjoint_blocks_same: "disjoint_blocks (b, l) (b, l) \<Longrightarrow> l = 0"
  by (auto simp: disjoint_blocks_def)

text \<open>A client that makes one request after the other; \<open>len r\<close> is the size request \<open>r\<close> asks for.\<close>

primrec alloc_list :: "('r \<Rightarrow> 'st \<Rightarrow> (addr \<times> 'st) option) \<Rightarrow> ('r \<Rightarrow> nat) \<Rightarrow> 'r list \<Rightarrow> 'st \<Rightarrow> ((addr \<times> nat) list \<times> 'st) option" where
  "alloc_list alloc len [] s = Some ([], s)"
| "alloc_list alloc len (r # rs) s = do {
     (p, s) \<leftarrow> alloc r s;
     (ps, s) \<leftarrow> alloc_list alloc len rs s;
     Some ((p, len r) # ps, s)
   }"

definition got :: "(addr \<times> nat) list \<Rightarrow> (nat \<times> nat) list" where
  "got ps = map (\<lambda>(p, l). (unat p, l)) (filter (\<lambda>(p, l). p \<noteq> NULL) ps)"

lemma got_Cons: "got ((p, l) # ps) = (if p = NULL then got ps else (unat p, l) # got ps)"
  by (simp add: got_def)

locale allocator =
  fixes inv :: "'st \<Rightarrow> bool"
    and live :: "'st \<Rightarrow> (nat \<times> nat) set"
    and request :: "'r \<Rightarrow> bool"
    and len :: "'r \<Rightarrow> nat"
    and alloc :: "'r \<Rightarrow> 'st \<Rightarrow> (addr \<times> 'st) option"
  assumes alloc_law: "inv s \<Longrightarrow> request r \<Longrightarrow>
      \<exists>p s'. alloc r s = Some (p, s') \<and> inv s' \<and>
        (if p = NULL then s' = s
         else live s' = insert (unat p, len r) (live s) \<and> (\<forall>x \<in> live s. disjoint_blocks x (unat p, len r)))"
begin

lemma alloc_list_disjoint:
  "inv s \<Longrightarrow> \<forall>r \<in> set rs. request r \<Longrightarrow>
   \<exists>ps s'. alloc_list alloc len rs s = Some (ps, s') \<and> inv s' \<and> live s' = live s \<union> set (got ps)
     \<and> sorted_wrt disjoint_blocks (got ps) \<and> (\<forall>x \<in> live s. \<forall>y \<in> set (got ps). disjoint_blocks x y)"
proof (induction rs arbitrary: s)
  case Nil
  then show ?case by (simp add: got_def)
next
  case (Cons r rs)
  obtain p s1 where a: "alloc r s = Some (p, s1)" and i: "inv s1"
    and l: "if p = NULL then s1 = s else live s1 = insert (unat p, len r) (live s)
       \<and> (\<forall>x \<in> live s. disjoint_blocks x (unat p, len r))"
    using alloc_law [of s r] Cons.prems by auto
  obtain ps s2 where t: "alloc_list alloc len rs s1 = Some (ps, s2)" "inv s2" "live s2 = live s1 \<union> set (got ps)"
    "sorted_wrt disjoint_blocks (got ps)" "\<forall>x \<in> live s1. \<forall>y \<in> set (got ps). disjoint_blocks x y"
    using Cons.IH [OF i] Cons.prems(2) by auto
  have "alloc_list alloc len (r # rs) s = Some ((p, len r) # ps, s2)" using a t(1) by simp
  then show ?case using t l by (auto simp: got_Cons split: if_splits)
qed

end

text \<open>An allocator that takes blocks back; \<open>freeable\<close> is what release requires besides liveness.\<close>

locale block_allocator = allocator +
  fixes freeable :: "'a \<Rightarrow> addr \<Rightarrow> bool"
    and free :: "addr \<Rightarrow> 'a \<Rightarrow> 'a option"
  assumes free_law: "inv s \<Longrightarrow> (unat p, l) \<in> live s \<Longrightarrow> freeable s p \<Longrightarrow>
      \<exists>s'. free p s = Some s' \<and> inv s' \<and> live s' = live s - {(unat p, l)}"
begin

lemma alloc_then_free:
  assumes "inv s" "request r" "alloc r s = Some (p, s1)" "p \<noteq> NULL" "freeable s1 p" "(unat p, len r) \<notin> live s"
  shows "\<exists>s2. free p s1 = Some s2 \<and> inv s2 \<and> live s2 = live s"
proof -
  have l: "inv s1" "live s1 = insert (unat p, len r) (live s)"
    using alloc_law [OF assms(1,2)] assms(3,4) by auto
  then have "(unat p, len r) \<in> live s1" by simp
  from free_law [OF l(1) this assms(5)] show ?thesis using l(2) assms(6) by auto
qed

end

end
