(* ===== verification/Buddy_Alloc.thy ===== *)
theory Buddy_Alloc
  imports Buddy_Regions Allocator
begin

unbundle bit_operations_syntax

text \<open>
  The table of regions as a page allocator: \<open>buddy_alloc\<close> and \<open>buddy_free\<close> satisfy the laws of
  \<open>block_allocator\<close>. \<open>live\<close> is the set of blocks handed out, as
  (virtual address, length); it is a function of the bitmaps.
\<close>

section \<open>The table of regions\<close>

fun tree_at :: "addr \<Rightarrow> mem \<Rightarrow> nat \<Rightarrow> nat \<Rightarrow> nat \<Rightarrow> btree" where
  "tree_at B m 0 d n = (if entry B m d n = BBMAP_USED then Used else Free)"
| "tree_at B m (Suc k) d n =
    (if entry B m d n = BBMAP_USED then Used
     else if entry B m d n = BBMAP_SPLIT
       then Split (tree_at B m k (Suc d) (2 * n)) (tree_at B m k (Suc d) (2 * n + 1))
     else Free)"

lemma tree_at_brep: "brep B m k d n t \<Longrightarrow> tree_at B m k d n = t"
proof (induction t arbitrary: k d n)
  case Free
  then show ?case by (cases k) (simp_all add: bbmap_defs)
next
  case Used
  then show ?case by (cases k) simp_all
next
  case (Split l r)
  then obtain k' where "k = Suc k'" by (cases k) auto
  with Split show ?case by (simp add: bbmap_defs)
qed

definition region_head :: "'a buddy_state_scheme \<Rightarrow> mem_region \<Rightarrow> addr" where
  "region_head s r = mr_base r OR hhdm_start s"

definition region_hdr :: "'a buddy_state_scheme \<Rightarrow> mem_region \<Rightarrow> buddy_region_header" where
  "region_hdr s r = headers s (region_head s r)"

definition region_bitmap :: "'a buddy_state_scheme \<Rightarrow> mem_region \<Rightarrow> addr" where
  "region_bitmap s r = region_head s r + header_size"

definition region_depth :: "'a buddy_state_scheme \<Rightarrow> mem_region \<Rightarrow> nat" where
  "region_depth s r = unat (max_depth (region_hdr s r))"

definition region_tree :: "'a buddy_state_scheme \<Rightarrow> mem_region \<Rightarrow> btree" where
  "region_tree s r = tree_at (region_bitmap s r) (ram s) (region_depth s r) 0 0"

definition region_inv :: "'a buddy_state_scheme \<Rightarrow> mem_region \<Rightarrow> bool" where
  "region_inv s r \<longleftrightarrow> region_holds (region_hdr s r) (region_bitmap s r) (ram s) (region_depth s r) (region_tree s r)
     \<and> unat (usable_base (region_hdr s r)) + 2 ^ (region_depth s r + 12) < 2 ^ 47"

definition region_sep :: "'a buddy_state_scheme \<Rightarrow> mem_region \<Rightarrow> mem_region \<Rightarrow> bool" where
  "region_sep s r r' \<longleftrightarrow>
     apart (region_bitmap s r) (bitmap_bytes (region_depth s r)) (region_bitmap s r') (bitmap_bytes (region_depth s r'))
     \<and> disjoint_blocks (unat (usable_base (region_hdr s r)), 2 ^ (region_depth s r + 12))
         (unat (usable_base (region_hdr s r')), 2 ^ (region_depth s r' + 12))"

definition buddy_inv :: "'a buddy_state_scheme \<Rightarrow> bool" where
  "buddy_inv s \<longleftrightarrow> (\<forall>r \<in> set (mem_regions s). region_inv s r) \<and> sorted_wrt (region_sep s) (mem_regions s)
     \<and> take_bit 47 (hhdm_start s) = 0"

definition region_blocks :: "'a buddy_state_scheme \<Rightarrow> mem_region \<Rightarrow> (nat \<times> nat) set" where
  "region_blocks s r = blocks (region_hdr s r) (region_depth s r) (region_tree s r)"

definition buddy_live :: "'a buddy_state_scheme \<Rightarrow> (nat \<times> nat) set" where
  "buddy_live s = (\<lambda>(b, l). (b + unat (hhdm_start s), l)) ` (\<Union>r \<in> set (mem_regions s). region_blocks s r)"

definition page_guard :: "'a buddy_state_scheme \<Rightarrow> addr \<Rightarrow> bool" where
  "page_guard s p \<longleftrightarrow> (\<forall>r \<in> set (mem_regions s).
     entry (region_bitmap s r) (ram s) (Suc (region_depth s r))
       (2 * ((unat (p AND NOT (hhdm_start s)) - unat (usable_base (region_hdr s r))) div 2 ^ 12)) = BBMAP_FREE)"

lemma apart_sym: "apart p n q k \<longleftrightarrow> apart q k p n"
  by (auto simp: apart_def) metis+

lemma region_sep_sym: "region_sep s r r' \<longleftrightarrow> region_sep s r' r"
  by (simp add: region_sep_def disjoint_blocks_sym) (metis apart_sym)

lemma region_sep_irrefl: "\<not> region_sep s r r"
  by (auto simp: region_sep_def disjoint_blocks_def)

lemma region_sepD:
  assumes "buddy_inv s" "r \<in> set (mem_regions s)" "r' \<in> set (mem_regions s)" "r \<noteq> r'"
  shows "region_sep s r r'"
proof -
  obtain i j where "i < length (mem_regions s)" "j < length (mem_regions s)" "mem_regions s ! i = r" "mem_regions s ! j = r'"
    using assms(2,3) by (metis in_set_conv_nth)
  moreover have "i \<noteq> j" using calculation assms(4) by auto
  ultimately show ?thesis
    using assms(1) region_sep_sym unfolding buddy_inv_def sorted_wrt_iff_nth_less by (metis linorder_neqE_nat)
qed

text \<open>A write to the bitmap of one region leaves the tree of another alone.\<close>

lemma keeps_entry:
  assumes "keeps B D m m'" "apart B (bitmap_bytes D) B' (bitmap_bytes D')" "bnode d n" "d \<le> D'"
  shows "entry B' m' d n = entry B' m d n"
proof -
  have "m' (B' + of_nat i) = m (B' + of_nat i)" if "i < bitmap_bytes D'" for i
    using assms(1,2) that unfolding keeps_def apart_def by metis
  then show ?thesis
    using slot_byte [OF assms(3,4)] by (simp add: entry_bits [OF assms(3)] bitmap_get_def del: of_nat_Suc)
qed

lemma keeps_region_holds:
  assumes "keeps B D m m'" "apart B (bitmap_bytes D) B' (bitmap_bytes D')" "region_holds h B' m D' t"
  shows "region_holds h B' m' D' t"
proof -
  have "agree B' m m' (levels D' 0 0)" using keeps_entry [OF assms(1,2)] by (auto simp: agree_def)
  then have "brep B' m' D' 0 0 t"
    by (rule brep_agree_levels) (use assms(3) in \<open>auto simp: region_holds_def region_ok_def bnode_def\<close>)
  then show ?thesis using assms(3) by (simp add: region_holds_def)
qed

lemma region_ram_simps [simp]:
  "region_head (s\<lparr>ram := m\<rparr>) r = region_head s r" "region_hdr (s\<lparr>ram := m\<rparr>) r = region_hdr s r"
  "region_bitmap (s\<lparr>ram := m\<rparr>) r = region_bitmap s r" "region_depth (s\<lparr>ram := m\<rparr>) r = region_depth s r"
  by (simp_all add: region_head_def region_hdr_def region_bitmap_def region_depth_def)

lemma region_sep_ram [simp]: "region_sep (s\<lparr>ram := m\<rparr>) = region_sep s"
  by (simp add: region_sep_def fun_eq_iff)

lemma region_holds_tree: "region_holds h B m D t \<Longrightarrow> tree_at B m D 0 0 = t"
  by (auto simp: region_holds_def intro: tree_at_brep)

lemma region_update:
  assumes inv: "buddy_inv s" and r: "r \<in> set (mem_regions s)"
    and h: "region_holds (region_hdr s r) (region_bitmap s r) m (region_depth s r) t"
    and k: "keeps (region_bitmap s r) (region_depth s r) (ram s) m"
  shows "buddy_inv (s\<lparr>ram := m\<rparr>)" "region_blocks (s\<lparr>ram := m\<rparr>) r = blocks (region_hdr s r) (region_depth s r) t"
    "r' \<in> set (mem_regions s) \<Longrightarrow> r' \<noteq> r \<Longrightarrow> region_blocks (s\<lparr>ram := m\<rparr>) r' = region_blocks s r'"
proof -
  have t: "region_tree (s\<lparr>ram := m\<rparr>) r = t" using region_holds_tree [OF h] by (simp add: region_tree_def)
  have i: "region_inv s r'" if "r' \<in> set (mem_regions s)" for r' using inv that by (simp add: buddy_inv_def)
  have o: "region_holds (region_hdr s r') (region_bitmap s r') m (region_depth s r') (region_tree s r')
      \<and> region_tree (s\<lparr>ram := m\<rparr>) r' = region_tree s r'" if "r' \<in> set (mem_regions s)" "r' \<noteq> r" for r'
  proof -
    have "region_sep s r r'" using region_sepD [OF inv r that(1)] that(2) by blast
    then have "region_holds (region_hdr s r') (region_bitmap s r') m (region_depth s r') (region_tree s r')"
      using i [OF that(1)] by (intro keeps_region_holds [OF k]) (auto simp: region_sep_def region_inv_def)
    then show ?thesis using region_holds_tree by (auto simp: region_tree_def)
  qed
  have "region_inv (s\<lparr>ram := m\<rparr>) r'" if "r' \<in> set (mem_regions s)" for r'
    using i [OF that] o [OF that] h t by (cases "r' = r") (auto simp: region_inv_def)
  then show "buddy_inv (s\<lparr>ram := m\<rparr>)" using inv by (simp add: buddy_inv_def)
  show "region_blocks (s\<lparr>ram := m\<rparr>) r = blocks (region_hdr s r) (region_depth s r) t"
    by (simp add: region_blocks_def t)
  show "region_blocks (s\<lparr>ram := m\<rparr>) r' = region_blocks s r'" if "r' \<in> set (mem_regions s)" "r' \<noteq> r"
    using o [OF that] by (simp add: region_blocks_def)
qed

text \<open>Blocks of different regions do not overlap.\<close>

lemma region_blocks_disjoint:
  assumes "buddy_inv s" "r \<in> set (mem_regions s)" "r' \<in> set (mem_regions s)" "r \<noteq> r'"
    and "unat (usable_base (region_hdr s r)) \<le> b" "b + l \<le> unat (usable_base (region_hdr s r)) + 2 ^ (region_depth s r + 12)"
    and "y \<in> region_blocks s r'"
  shows "disjoint_blocks (b, l) y"
proof -
  obtain b' l' where y: "y = (b', l')" by (cases y)
  have "unat (usable_base (region_hdr s r')) \<le> b'
      \<and> b' + l' \<le> unat (usable_base (region_hdr s r')) + 2 ^ (region_depth s r' + 12)"
    using assms(7) blocks_within by (auto simp: region_blocks_def y)
  then show ?thesis
    using region_sepD [OF assms(1-4)] assms(5,6) unfolding region_sep_def disjoint_blocks_def y by auto
qed

definition shift :: "nat \<Rightarrow> nat \<times> nat \<Rightarrow> nat \<times> nat" where
  "shift a x = (fst x + a, snd x)"

lemma shift_inj: "shift a x = shift a y \<longleftrightarrow> x = y"
  by (auto simp: shift_def prod_eq_iff)

lemma shift_disjoint: "disjoint_blocks (shift a x) (shift a y) \<longleftrightarrow> disjoint_blocks x y"
  by (auto simp: shift_def disjoint_blocks_def)

lemma buddy_live_shift:
  "buddy_live s = shift (unat (hhdm_start s)) ` (\<Union>r \<in> set (mem_regions s). region_blocks s r)"
  by (simp add: buddy_live_def shift_def case_prod_beta)

lemma UN_split: "r \<in> A \<Longrightarrow> (\<Union>x \<in> A. f x) = f r \<union> (\<Union>x \<in> A - {r}. f x)"
  by auto

lemma UN_others: "(\<And>x. x \<in> A \<Longrightarrow> x \<noteq> r \<Longrightarrow> f x = g x) \<Longrightarrow> (\<Union>x \<in> A - {r}. f x) = (\<Union>x \<in> A - {r}. g x)"
  by auto

lemma live_insert:
  assumes "buddy_inv s" "r \<in> set (mem_regions s)"
    and "region_holds (region_hdr s r) (region_bitmap s r) m (region_depth s r) t"
    and "keeps (region_bitmap s r) (region_depth s r) (ram s) m"
    and "blocks (region_hdr s r) (region_depth s r) t = insert x (region_blocks s r)"
  shows "buddy_live (s\<lparr>ram := m\<rparr>) = insert (shift (unat (hhdm_start s)) x) (buddy_live s)"
proof -
  note u = region_update [OF assms(1-4)]
  have o: "(\<Union>x \<in> set (mem_regions s) - {r}. region_blocks (s\<lparr>ram := m\<rparr>) x) =
      (\<Union>x \<in> set (mem_regions s) - {r}. region_blocks s x)" using u(3) by (rule UN_others)
  have "(\<Union>r \<in> set (mem_regions s). region_blocks (s\<lparr>ram := m\<rparr>) r) = insert x (\<Union>r \<in> set (mem_regions s). region_blocks s r)"
    unfolding UN_split [OF assms(2)] o u(2) assms(5)
    by simp
  then show ?thesis by (simp add: buddy_live_shift)
qed

lemma live_remove:
  assumes "buddy_inv s" "r \<in> set (mem_regions s)"
    and "region_holds (region_hdr s r) (region_bitmap s r) m (region_depth s r) t"
    and "keeps (region_bitmap s r) (region_depth s r) (ram s) m"
    and "blocks (region_hdr s r) (region_depth s r) t = region_blocks s r - {x}" "x \<in> region_blocks s r"
  shows "buddy_live (s\<lparr>ram := m\<rparr>) = buddy_live s - {shift (unat (hhdm_start s)) x}"
proof -
  note u = region_update [OF assms(1-4)]
  have o: "(\<Union>x \<in> set (mem_regions s) - {r}. region_blocks (s\<lparr>ram := m\<rparr>) x) =
      (\<Union>x \<in> set (mem_regions s) - {r}. region_blocks s x)" using u(3) by (rule UN_others)
  obtain b l where x: "x = (b, l)" by (cases x)
  have w: "unat (usable_base (region_hdr s r)) \<le> b" "b + l \<le> unat (usable_base (region_hdr s r)) + 2 ^ (region_depth s r + 12)" "0 < l"
    using assms(6) blocks_within by (auto simp: region_blocks_def x)
  have "x \<notin> region_blocks s r'" if "r' \<in> set (mem_regions s)" "r' \<noteq> r" for r'
    using region_blocks_disjoint [OF assms(1,2) that(1) _ w(1,2), of x] that(2) w(3) by (auto simp: x disjoint_blocks_def)
  then have "x \<notin> (\<Union>r \<in> set (mem_regions s) - {r}. region_blocks s r)" by blast
  then have "(\<Union>r \<in> set (mem_regions s). region_blocks (s\<lparr>ram := m\<rparr>) r) = (\<Union>r \<in> set (mem_regions s). region_blocks s r) - {x}"
    unfolding UN_split [OF assms(2)] o u(2) assms(5)
    by blast
  moreover have "inj (shift (unat (hhdm_start s)))" by (simp add: inj_def shift_inj)
  ultimately show ?thesis by (simp add: buddy_live_shift image_set_diff)
qed

section \<open>Allocation over the table\<close>

definition allocated :: "'a buddy_state_scheme \<Rightarrow> nat \<Rightarrow> u64 \<Rightarrow> 'a buddy_state_scheme \<Rightarrow> bool" where
  "allocated s k ret s' \<longleftrightarrow> buddy_inv s' \<and> ret \<noteq> 0 \<and> unat ret < 2 ^ 47 \<and> hhdm_start s' = hhdm_start s
     \<and> buddy_live s' = insert (shift (unat (hhdm_start s)) (unat ret, 2 ^ (k + 12))) (buddy_live s)
     \<and> (\<forall>x \<in> buddy_live s. disjoint_blocks x (shift (unat (hhdm_start s)) (unat ret, 2 ^ (k + 12))))"

lemma region_alloc:
  assumes inv: "buddy_inv s" and r: "r \<in> set (mem_regions s)" and "k < 52"
  shows "\<exists>ret m. buddy_alloc_helper (region_hdr s r) (region_bitmap s r) (2 ^ (k + 12)) (ram s) = Some (ret, m)
    \<and> (ret = 0 \<and> m = ram s \<or> allocated s k ret (s\<lparr>ram := m\<rparr>))"
proof -
  let ?h = "region_hdr s r" and ?B = "region_bitmap s r" and ?D = "region_depth s r" and ?t = "region_tree s r"
  have ri: "region_holds ?h ?B (ram s) ?D ?t" "unat (usable_base ?h) + 2 ^ (?D + 12) < 2 ^ 47"
    using inv r by (auto simp: buddy_inv_def region_inv_def)
  show ?thesis
  proof (cases "k \<le> ?D \<and> talloc (?D - k) ?t \<noteq> None")
    case False
    then have "buddy_alloc_helper ?h ?B (2 ^ (k + 12)) (ram s) = Some (0, ram s)"
      using alloc_helper_None [OF ri(1), of k] alloc_helper_too_big [of ?h ?D k ?B "ram s"] ri(1) assms(3)
      by (cases "k \<le> ?D") (auto simp: region_holds_def simp del: not_None_eq)
    then show ?thesis by blast
  next
    case True
    then obtain t' i where "talloc (?D - k) ?t = Some (t', i)" "k \<le> ?D" by auto
    from alloc_helper_block [OF ri(1) this(2,1)] obtain ret m where
      a: "buddy_alloc_helper ?h ?B (2 ^ (k + 12)) (ram s) = Some (ret, m)" "keeps ?B ?D (ram s) m" "ret \<noteq> 0"
        "region_holds ?h ?B m ?D t'" "blocks ?h ?D t' = insert (unat ret, 2 ^ (k + 12)) (region_blocks s r)"
        "unat (usable_base ?h) \<le> unat ret" "unat ret + 2 ^ (k + 12) \<le> unat (usable_base ?h) + 2 ^ (?D + 12)"
        "\<forall>b l. (b, l) \<in> region_blocks s r \<longrightarrow> b + l \<le> unat ret \<or> unat ret + 2 ^ (k + 12) \<le> b"
      unfolding region_blocks_def by blast
    let ?x = "(unat ret, 2 ^ (k + 12))"
    have "disjoint_blocks y ?x" if "r' \<in> set (mem_regions s)" "y \<in> region_blocks s r'" for r' y
    proof (cases "r' = r")
      case True
      then show ?thesis using a(8) that by (cases y) (auto simp: disjoint_blocks_def)
    next
      case False
      then show ?thesis
        using region_blocks_disjoint [OF inv r that(1) _ a(6,7) that(2)] disjoint_blocks_sym by blast
    qed
    then have "\<forall>x \<in> buddy_live s. disjoint_blocks x (shift (unat (hhdm_start s)) ?x)"
      by (auto simp: buddy_live_shift shift_disjoint)
    moreover have "(0 :: nat) < 2 ^ (k + 12)" by simp
    then have "unat ret < 2 ^ 47" using a(7) ri(2) by linarith
    ultimately have "allocated s k ret (s\<lparr>ram := m\<rparr>)"
      using region_update(1) [OF inv r a(4,2)] live_insert [OF inv r a(4,2,5)] a(3) by (simp add: allocated_def)
    then show ?thesis using a(1) by blast
  qed
qed

lemma alloc_regions_law:
  "buddy_inv s \<Longrightarrow> k < 52 \<Longrightarrow> set rs \<subseteq> set (mem_regions s) \<Longrightarrow>
   \<exists>p s'. buddy_alloc_regions rs (2 ^ (k + 12)) s = Some (p, s')
     \<and> (p = NULL \<and> s' = s \<or> (\<exists>ret. p = ret OR hhdm_start s \<and> allocated s k ret s'))"
proof (induction rs)
  case (Cons r rs)
  then obtain ret m where a: "buddy_alloc_helper (region_hdr s r) (region_bitmap s r) (2 ^ (k + 12)) (ram s) = Some (ret, m)"
    "ret = 0 \<and> m = ram s \<or> allocated s k ret (s\<lparr>ram := m\<rparr>)"
    using region_alloc [of s r k] by auto
  have e: "buddy_alloc_regions (r # rs) (2 ^ (k + 12)) s =
    (if ret \<noteq> 0 then Some (ret OR hhdm_start s, s\<lparr>ram := m\<rparr>) else buddy_alloc_regions rs (2 ^ (k + 12)) (s\<lparr>ram := m\<rparr>))"
    using a(1) by (simp add: region_hdr_def region_bitmap_def region_head_def)
  show ?case
  proof (cases "ret = 0")
    case True
    then have "m = ram s" using a(2) by (auto simp: allocated_def)
    then have "s\<lparr>ram := m\<rparr> = s" by simp
    then show ?thesis using Cons e True by simp
  next
    case False
    then show ?thesis using a(2) e by auto
  qed
qed simp

lemma virt_addr:
  assumes "unat ret < 2 ^ 47" "take_bit 47 H = (0 :: u64)"
  shows "unat (ret OR H) = unat ret + unat H"
proof -
  have "\<not> bit (unat ret) i \<or> \<not> bit (unat H) i" for i
    using bit_nat_above [OF assms(1), of i] assms(2)
    by (metis bit_0_eq bit_take_bit_iff bit_unat bot_apply bot_bool_def not_less)
  then have "unat ret + unat H = unat ret OR unat H" by (rule disjunctive_add)
  then show ?thesis by (simp add: unsigned_or_eq)
qed

lemma buddy_alloc_law:
  assumes "buddy_inv s" "k < 52"
  shows "\<exists>p s'. buddy_alloc (2 ^ (k + 12)) s = Some (p, s') \<and> buddy_inv s' \<and>
    (if p = NULL then s' = s
     else buddy_live s' = insert (unat p, 2 ^ (k + 12)) (buddy_live s)
       \<and> (\<forall>x \<in> buddy_live s. disjoint_blocks x (unat p, 2 ^ (k + 12))))"
proof -
  have nz: "(2 ^ (k + 12) :: u64) \<noteq> 0" using assms(2) by (simp add: word_unat_eq_iff unat_pow2)
  obtain p s' where a: "buddy_alloc (2 ^ (k + 12)) s = Some (p, s')"
    "p = NULL \<and> s' = s \<or> (\<exists>ret. p = ret OR hhdm_start s \<and> allocated s k ret s')"
    using alloc_regions_law [OF assms, of "rev (mem_regions s)"] nz by (auto simp: buddy_alloc_def)
  from a(2) show ?thesis
  proof
    assume "p = NULL \<and> s' = s"
    then show ?thesis using a(1) assms(1) by auto
  next
    assume "\<exists>ret. p = ret OR hhdm_start s \<and> allocated s k ret s'"
    then obtain ret where p: "p = ret OR hhdm_start s" and al: "allocated s k ret s'" by blast
    have "unat p = unat ret + unat (hhdm_start s)"
      using virt_addr [of ret "hhdm_start s"] al assms(1) by (simp add: p allocated_def buddy_inv_def)
    moreover have "p \<noteq> NULL" using calculation al by (auto simp: allocated_def simp flip: unat_0_iff)
    ultimately show ?thesis using a(1) al by (auto simp: allocated_def shift_def)
  qed
qed

section \<open>Release over the table\<close>

lemma free_regions_law:
  assumes inv: "buddy_inv s" and r: "r \<in> set (mem_regions s)" and x: "(b, l) \<in> region_blocks s r"
    and g: "entry (region_bitmap s r) (ram s) (Suc (region_depth s r))
       (2 * ((b - unat (usable_base (region_hdr s r))) div 2 ^ 12)) = BBMAP_FREE"
  shows "r \<in> set rs \<Longrightarrow> set rs \<subseteq> set (mem_regions s) \<Longrightarrow>
    \<exists>s'. buddy_free_regions rs (of_nat b) s = Some s' \<and> buddy_inv s'
      \<and> buddy_live s' = buddy_live s - {shift (unat (hhdm_start s)) (b, l)}"
proof (induction rs)
  case (Cons q rs)
  let ?h = "region_hdr s q" and ?D = "region_depth s q"
  have q: "region_holds ?h (region_bitmap s q) (ram s) ?D (region_tree s q)" "unat (usable_base ?h) + 2 ^ (?D + 12) < 2 ^ 47"
    and qs: "q \<in> set (mem_regions s)"
    using inv Cons.prems(2) by (auto simp: buddy_inv_def region_inv_def)
  have w: "unat (usable_base (region_hdr s r)) \<le> b" "b + l \<le> unat (usable_base (region_hdr s r)) + 2 ^ (region_depth s r + 12)" "0 < l"
    using x blocks_within by (auto simp: region_blocks_def)
  have "unat (usable_base (region_hdr s r)) + 2 ^ (region_depth s r + 12) < 2 ^ 47"
    using inv r by (auto simp: buddy_inv_def region_inv_def)
  then have ub: "unat (of_nat b :: u64) = b" using w by (simp add: unat_of_nat)
  have len: "unat (usable_len ?h) = 2 ^ (?D + 12)" "unat (usable_base ?h + usable_len ?h) = unat (usable_base ?h) + 2 ^ (?D + 12)"
    using q by (auto simp: region_holds_def region_ok_def unat_pow2 unat_plus_if')
  have e: "buddy_free_regions (q # rs) (of_nat b) s =
    (if unat (usable_base ?h) \<le> b \<and> b < unat (usable_base ?h) + 2 ^ (?D + 12)
     then do { m \<leftarrow> buddy_free_helper ?h (region_bitmap s q) (of_nat b) (ram s); Some (s\<lparr>ram := m\<rparr>) }
     else buddy_free_regions rs (of_nat b) s)"
    using len ub by (simp add: region_hdr_def region_bitmap_def region_head_def word_le_nat_alt word_less_nat_alt Let_def)
  show ?case
  proof (cases "q = r")
    case True
    from x [unfolded region_blocks_def] obtain j i where
      j: "j \<le> ?D" "i < 2 ^ j" "used_at j i (region_tree s q)"
      and b: "b = unat (usable_base ?h) + i * 2 ^ (?D - j + 12)" and l: "l = 2 ^ (?D - j + 12)"
      unfolding True [symmetric] by (rule blocks_used_at)
    have "entry (region_bitmap s q) (ram s) (Suc ?D) (2 * i) = BBMAP_FREE" if "j = ?D" using g that by (simp add: b True)
    from free_helper_used [OF q(1) j(3,2,1) this] obtain m where
      m: "buddy_free_helper ?h (region_bitmap s q) (of_nat b) (ram s) = Some m"
        "region_holds ?h (region_bitmap s q) m ?D (tfree j i (region_tree s q))" "keeps (region_bitmap s q) ?D (ram s) m"
      unfolding b by auto
    have "fits ?D (region_tree s q)" using q(1) brep_fits by (auto simp: region_holds_def)
    from blocks_free [OF this j, of ?h]
    have "blocks ?h ?D (tfree j i (region_tree s q)) = region_blocks s q - {(b, l)}" by (simp only: region_blocks_def b l)
    from live_remove [OF inv qs m(2,3) this] region_update(1) [OF inv qs m(2,3)] e m(1) w x
    show ?thesis by (simp add: True)
  next
    case False
    have "disjoint_blocks (unat (usable_base (region_hdr s r)), 2 ^ (region_depth s r + 12)) (unat (usable_base ?h), 2 ^ (?D + 12))"
      using region_sepD [OF inv r qs] False by (auto simp: region_sep_def)
    then have "\<not> (unat (usable_base ?h) \<le> b \<and> b < unat (usable_base ?h) + 2 ^ (?D + 12))"
      using w unfolding disjoint_blocks_def fst_conv snd_conv by linarith
    then show ?thesis using Cons.IH Cons.prems False unfolding e by auto
  qed
qed simp

lemma buddy_free_law:
  assumes inv: "buddy_inv s" and x: "(unat p, l) \<in> buddy_live s" and g: "page_guard s p"
  shows "\<exists>s'. buddy_free p s = Some s' \<and> buddy_inv s' \<and> buddy_live s' = buddy_live s - {(unat p, l)}"
proof -
  from x obtain r b where r: "r \<in> set (mem_regions s)" "(b, l) \<in> region_blocks s r" and p: "unat p = b + unat (hhdm_start s)"
    by (auto simp: buddy_live_def)
  have "b + l < 2 ^ 47 \<and> 0 < l \<and> unat (usable_base (region_hdr s r)) \<le> b" "usable_base (region_hdr s r) \<noteq> 0"
    using r(2) blocks_within [of b l "region_hdr s r" "region_depth s r" "region_tree s r"] r(1) inv
    by (auto simp: region_blocks_def buddy_inv_def region_inv_def region_holds_def region_ok_def)
  then have b: "b < 2 ^ 47" "b \<noteq> 0" "unat (of_nat b :: u64) = b" by (auto simp: unat_of_nat simp flip: unat_0_iff)
  have H: "take_bit 47 (hhdm_start s) = 0" using inv by (simp add: buddy_inv_def)
  have "unat (of_nat b OR hhdm_start s) = unat p" using virt_addr [of "of_nat b" "hhdm_start s"] b H p by simp
  then have pe: "p = of_nat b OR hhdm_start s" by (simp add: word_unat_eq_iff)
  have pa: "p AND NOT (hhdm_start s) = of_nat b"
    unfolding pe by (rule or_high_base(2) [of _ 47]) (use b H in simp_all)
  have "p \<noteq> NULL" using p b(2) by auto
  moreover have "\<exists>s'. buddy_free_regions (rev (mem_regions s)) (of_nat b) s = Some s' \<and> buddy_inv s'
      \<and> buddy_live s' = buddy_live s - {shift (unat (hhdm_start s)) (b, l)}"
    using inv r by (rule free_regions_law) (use g r(1) b(3) in \<open>auto simp: page_guard_def pa\<close>)
  ultimately show ?thesis by (simp add: buddy_free_def pa p shift_def)
qed

text \<open>Blocks lie below the top of the address space.\<close>

lemma buddy_live_bound:
  assumes inv: "buddy_inv s" and x: "(b, l) \<in> buddy_live s"
  shows "0 < b \<and> b + l < 2 ^ 64"
proof -
  from x obtain r b' where r: "r \<in> set (mem_regions s)" "(b', l) \<in> region_blocks s r" and p: "b = b' + unat (hhdm_start s)"
    by (auto simp: buddy_live_def)
  have h: "b' + l < 2 ^ 47" "0 < b'"
    using r blocks_within [of b' l "region_hdr s r" "region_depth s r" "region_tree s r"] inv
    by (auto simp: region_blocks_def buddy_inv_def region_inv_def region_holds_def region_ok_def simp flip: unat_0_iff)
  have "unat (take_bit 47 (hhdm_start s)) = 0" using inv by (simp add: buddy_inv_def)
  then have "unat (hhdm_start s) mod 2 ^ 47 = 0" by (simp add: take_bit_eq_mod unat_mod)
  then obtain q where q: "unat (hhdm_start s) = 2 ^ 47 * q" by (auto simp: mod_eq_0_iff_dvd elim: dvdE)
  have "unat (hhdm_start s) < 2 ^ 64" using unsigned_less [of "hhdm_start s", where ?'a = nat] by simp
  then have "q < 2 ^ 17" unfolding q by simp
  then have "2 ^ 47 * q + 2 ^ 47 \<le> 2 ^ 47 * 2 ^ 17" using mult_le_mono2 [of "q + 1" "2 ^ 17" "2 ^ 47"] by simp
  then show ?thesis using h unfolding p q by simp
qed

interpretation buddy: block_allocator buddy_inv buddy_live "\<lambda>k. k < 52" "\<lambda>k. 2 ^ (k + 12)"
    "\<lambda>k. buddy_alloc (2 ^ (k + 12))" page_guard buddy_free
  by unfold_locales (rule buddy_alloc_law buddy_free_law; assumption)+

section \<open>Properties of the allocator\<close>

text \<open>A state with one region of two pages, for the witnesses.\<close>

definition small_state :: buddy_state where
  "small_state = \<lparr>ram = (\<lambda>_. 0), headers = (\<lambda>_. two_pages),
     mem_regions = [\<lparr>mr_base = 0x8000, mr_len = 0x100000, mr_usable = True\<rparr>], hhdm_start = 0xFFFF800000000000\<rparr>"

lemma small_state_inv: "buddy_inv small_state"
proof -
  have "region_depth small_state r = 1" for r
    by (simp add: small_state_def region_depth_def region_hdr_def two_pages_def)
  moreover have "region_hdr small_state r = two_pages" "ram small_state = (\<lambda>_. 0)" for r
    by (simp_all add: small_state_def region_hdr_def)
  moreover have "region_tree small_state r = Free" for r
    using calculation region_holds_tree [OF region_holds_zero [OF two_pages_ok]] by (simp add: region_tree_def)
  ultimately have "region_inv small_state r" for r
    using region_holds_zero [OF two_pages_ok] by (simp add: region_inv_def two_pages_def)
  then show ?thesis by (simp add: buddy_inv_def small_state_def take_bit_eq_mod)
qed

text \<open>
  C1. Any sequence of \<open>buddy_alloc\<close> calls for powers of two of pages returns, keeps the invariant, and
  the blocks obtained overlap neither each other nor any block handed out before; the set of blocks
  handed out grows by exactly those.
\<close>

theorem buddy_alloc_sequence:
  assumes "buddy_inv s" and "\<forall>k \<in> set ks. k < 52"
  shows "\<exists>ps s'. alloc_list (\<lambda>k. buddy_alloc (2 ^ (k + 12))) (\<lambda>k. 2 ^ (k + 12)) ks s = Some (ps, s') \<and> buddy_inv s'
    \<and> buddy_live s' = buddy_live s \<union> set (got ps) \<and> sorted_wrt disjoint_blocks (got ps)
    \<and> (\<forall>x \<in> buddy_live s. \<forall>y \<in> set (got ps). disjoint_blocks x y)"
  using assms by (rule buddy.alloc_list_disjoint)

theorem buddy_alloc_sequence_witness:
  "\<exists>ps s'. alloc_list (\<lambda>k. buddy_alloc (2 ^ (k + 12))) (\<lambda>k. 2 ^ (k + 12)) [0, 0, 1] small_state = Some (ps, s') \<and> buddy_inv s'
    \<and> buddy_live s' = buddy_live small_state \<union> set (got ps) \<and> sorted_wrt disjoint_blocks (got ps)
    \<and> (\<forall>x \<in> buddy_live small_state. \<forall>y \<in> set (got ps). disjoint_blocks x y)"
  by (rule buddy_alloc_sequence [OF small_state_inv]) simp


text \<open>The same state with both pages handed out as one block.\<close>

definition full_ram :: mem where
  "full_ram = buddy_bitmap_set 0xFFFF800000008020 (of_nat 0) (of_nat 0) BBMAP_USED (\<lambda>_. 0)"

definition full_state :: buddy_state where
  "full_state = small_state\<lparr>ram := full_ram\<rparr>"

definition small_region :: mem_region where
  "small_region = \<lparr>mr_base = 0x8000, mr_len = 0x100000, mr_usable = True\<rparr>"

lemma small_state_simps:
  "region_hdr small_state small_region = two_pages" "region_bitmap small_state small_region = 0xFFFF800000008020"
  "region_depth small_state small_region = 1" "ram small_state = (\<lambda>_. 0)" "mem_regions small_state = [small_region]"
  "unat (hhdm_start small_state) = 0xFFFF800000000000" "hhdm_start small_state = 0xFFFF800000000000"
  by (simp_all add: small_state_def small_region_def region_hdr_def region_bitmap_def region_head_def region_depth_def
      two_pages_def header_size_def)

lemma full_ram_holds: "region_holds two_pages 0xFFFF800000008020 full_ram 1 Used"
  unfolding region_holds_def One_nat_def brep.simps below_simps clear.simps full_ram_def
  by (simp add: two_pages_ok [simplified] entry_set bnode_def entry_zero del: semiring_1_class.of_nat_0)

lemma full_state_inv: "buddy_inv full_state" "(0xFFFF800000100000, 0x2000) \<in> buddy_live full_state"
  "page_guard full_state 0xFFFF800000100000"
proof -
  have k: "keeps 0xFFFF800000008020 1 (\<lambda>_. 0) full_ram"
    unfolding full_ram_def by (rule set_keeps) (simp_all add: bnode_def)
  note u = region_update [OF small_state_inv, of small_region full_ram Used, unfolded small_state_simps, OF _ full_ram_holds k]
  show "buddy_inv full_state" using u(1) by (simp add: full_state_def)
  have "region_blocks full_state small_region = {(0x100000, 0x2000)}"
    using u(2) by (simp add: full_state_def blocks_def two_pages_def)
  then show "(0xFFFF800000100000, 0x2000) \<in> buddy_live full_state"
    by (simp add: buddy_live_def full_state_def small_state_simps)
  have "entry 0xFFFF800000008020 full_ram (Suc (Suc 0)) 0 = BBMAP_FREE"
    unfolding full_ram_def by (subst entry_set) (simp_all add: bnode_def entry_zero)
  then show "page_guard full_state 0xFFFF800000100000"
    by (simp add: page_guard_def full_state_def small_state_simps two_pages_def)
qed


section \<open>The boot memory map\<close>

definition not_kernel :: "limine_memmap_entry \<Rightarrow> bool" where
  "not_kernel e \<longleftrightarrow> le_type e \<noteq> MEMMAP_KERNEL_AND_MODULES"

definition usable_type :: "limine_memmap_type \<Rightarrow> bool" where
  "usable_type ty \<longleftrightarrow> ty \<in> {MEMMAP_USABLE, MEMMAP_ACPI_RECLAIMABLE, MEMMAP_BOOTLOADER_RECLAIMABLE}"

definition region_total :: "mem_region list \<Rightarrow> u64" where
  "region_total rs = sum_list (map mr_len rs)"

lemma extend_last_total:
  "rs \<noteq> [] \<Longrightarrow> \<exists>rs'. extend_last rs len = Some rs' \<and> rs' \<noteq> [] \<and> region_total rs' = region_total rs + len"
  by (cases rs rule: rev_cases) (simp_all add: extend_last_def region_total_def)

lemma parse_entry_total:
  assumes "rs \<noteq> [] \<or> \<not> lu \<and> usable_type (le_type e)"
  shows "\<exists>lu' rs'. limine_parse_entry e (ret, lu, rs) =
      Some (if not_kernel e then ret else le_length e, lu', rs') \<and> rs' \<noteq> []
    \<and> region_total rs' = region_total rs + (if not_kernel e then le_length e else 0)"
proof -
  have snoc: "region_total (rs @ [r]) = region_total rs + mr_len r" for r by (simp add: region_total_def)
  show ?thesis
    using assms extend_last_total [of rs "le_length e"]
    by (cases "le_type e"; cases lu) (auto simp: limine_parse_entry_def not_kernel_def usable_type_def snoc)
qed

lemma parse_loop_total:
  "rs \<noteq> [] \<Longrightarrow> \<exists>lu' rs'. limine_parse_loop es (ret, lu, rs) =
      Some (last (ret # map le_length (filter (Not \<circ> not_kernel) es)), lu', rs')
    \<and> region_total rs' = region_total rs + sum_list (map le_length (filter not_kernel es))"
proof (induction es arbitrary: ret lu rs)
  case (Cons e es)
  obtain lu' rs' where p: "limine_parse_entry e (ret, lu, rs) =
      Some (if not_kernel e then ret else le_length e, lu', rs')" "rs' \<noteq> []"
    "region_total rs' = region_total rs + (if not_kernel e then le_length e else 0)"
    using parse_entry_total [of rs lu e ret] Cons.prems by blast
  from Cons.IH [OF p(2), of "if not_kernel e then ret else le_length e" lu'] p(1,3)
  show ?case by (auto simp: add.assoc)
qed simp





end
