(* ===== verification/Locks.thy ===== *)
theory Locks
  imports Kernel_Prelude
begin

text \<open>
  \<^verbatim>\<open>lib/lock.c\<close>, \<^verbatim>\<open>lib/atomic.S\<close> and \<^verbatim>\<open>lib/sem.c\<close>.

  The sequential functions give the effect of a lock operation on the lock word when no other
  processor runs; the acquire loop is a \<open>partial_function\<close>, so spinning on a held lock is
  \<open>None\<close>. The step relation \<open>sem_step\<close> is the same code seen by several processors: one rule
  per memory access of \<open>sem_trywait\<close> and \<open>sem_post\<close>, interleaved in any order.
\<close>

section \<open>Compare and exchange, spinlocks\<close>

text \<open>
  \<open>atomic_cmpxchg ptr cmpval newval\<close> on the word at \<open>ptr\<close>: the result (0 for success, 1 for
  failure) and the new contents of the word.
\<close>

definition atomic_cmpxchg :: "u32 \<Rightarrow> u32 \<Rightarrow> u32 \<Rightarrow> u32 \<times> u32" where
  "atomic_cmpxchg word cmpval newval =
     (if word = cmpval then (0, newval) else (1, word))"

definition spinlock_attempt_acquire :: "u32 \<Rightarrow> u32 \<times> u32" where
  "spinlock_attempt_acquire lock = atomic_cmpxchg lock 0 1"

partial_function (option) spinlock_acquire :: "u32 \<Rightarrow> u32 option" where
  "spinlock_acquire lock =
     (let (busy, lock') = spinlock_attempt_acquire lock in
      if busy \<noteq> 0 then spinlock_acquire lock' else Some lock')"

definition spinlock_release :: "u32 \<Rightarrow> u32" where
  "spinlock_release lock = snd (atomic_cmpxchg lock 1 0)"

lemma spinlock_acquire_free [simp]: "spinlock_acquire 0 = Some 1"
  by (simp add: spinlock_acquire.simps spinlock_attempt_acquire_def atomic_cmpxchg_def)

lemma spinlock_acquire_Some: "spinlock_acquire lock = Some l' \<Longrightarrow> lock = 0 \<and> l' = 1"
proof (rule spinlock_acquire.raw_induct [where P = "\<lambda>lock l'. lock = 0 \<and> l' = 1"])
  fix f and lock l' :: u32
  assume "\<And>lock l'. f lock = Some l' \<Longrightarrow> lock = 0 \<and> l' = 1"
    and "(let (busy, lock') = spinlock_attempt_acquire lock
          in if busy \<noteq> 0 then f lock' else Some lock') = Some l'"
  then show "lock = 0 \<and> l' = 1"
    by (auto simp: spinlock_attempt_acquire_def atomic_cmpxchg_def split: if_splits)
qed

text \<open>A held lock is never acquired: without another processor the loop does not end.\<close>

lemma spinlock_acquire_iff: "spinlock_acquire lock = (if lock = 0 then Some 1 else None)"
proof (cases "lock = 0")
  case False
  then show ?thesis using spinlock_acquire_Some by (cases "spinlock_acquire lock") auto
qed simp

lemma spinlock_release_held [simp]: "spinlock_release 1 = 0"
  by (simp add: spinlock_release_def atomic_cmpxchg_def)

section \<open>Semaphores\<close>

record sem =
  sem_count :: int
  sem_lock :: u32

definition sem_create :: "int \<Rightarrow> sem" where
  "sem_create count = \<lparr>sem_count = count, sem_lock = 0\<rparr>"

definition sem_trywait :: "sem \<Rightarrow> (int \<times> sem) option" where
  "sem_trywait s = do {
     l \<leftarrow> spinlock_acquire (sem_lock s);
     let s = s\<lparr>sem_lock := l\<rparr>;
     let (ret, s) = (if sem_count s > 0 then (0, s\<lparr>sem_count := sem_count s - 1\<rparr>) else (1, s));
     let s = s\<lparr>sem_lock := spinlock_release (sem_lock s)\<rparr>;
     Some (ret, s)
   }"

definition sem_post :: "sem \<Rightarrow> sem option" where
  "sem_post s = do {
     l \<leftarrow> spinlock_acquire (sem_lock s);
     let s = s\<lparr>sem_lock := l\<rparr>;
     let s = s\<lparr>sem_count := sem_count s + 1\<rparr>;
     Some (s\<lparr>sem_lock := spinlock_release (sem_lock s)\<rparr>)
   }"

section \<open>Semaphores shared by several processors\<close>

text \<open>
  Where a processor is inside \<open>sem_trywait\<close> or \<open>sem_post\<close>: spinning in the acquire loop, about to
  test the count, about to load it for the decrement or increment, about to store the loaded
  value back, or about to release the lock.
\<close>

datatype pc =
    Outside
  | WaitSpin | WaitTest | WaitLoad | WaitStore int | WaitRelease int
  | PostSpin | PostLoad | PostStore int | PostRelease

record sem_sys =
  cell :: sem
  pcs :: "nat \<Rightarrow> pc"
  posts :: int
  takes :: int

definition sem_start :: "int \<Rightarrow> sem_sys" where
  "sem_start n = \<lparr>cell = sem_create n, pcs = (\<lambda>_. Outside), posts = 0, takes = 0\<rparr>"

abbreviation at_pc :: "sem_sys \<Rightarrow> nat \<Rightarrow> pc \<Rightarrow> sem_sys" where
  "at_pc s i p \<equiv> s\<lparr>pcs := (pcs s)(i := p)\<rparr>"

inductive sem_step :: "sem_sys \<Rightarrow> sem_sys \<Rightarrow> bool" where
  call_wait: "pcs s i = Outside \<Longrightarrow> sem_step s (at_pc s i WaitSpin)"
| wait_busy: "pcs s i = WaitSpin \<Longrightarrow> fst (spinlock_attempt_acquire (sem_lock (cell s))) \<noteq> 0 \<Longrightarrow>
    sem_step s s"
| wait_acquire: "pcs s i = WaitSpin \<Longrightarrow> spinlock_attempt_acquire (sem_lock (cell s)) = (0, l) \<Longrightarrow>
    sem_step s (at_pc (s\<lparr>cell := (cell s)\<lparr>sem_lock := l\<rparr>\<rparr>) i WaitTest)"
| wait_positive: "pcs s i = WaitTest \<Longrightarrow> sem_count (cell s) > 0 \<Longrightarrow> sem_step s (at_pc s i WaitLoad)"
| wait_zero: "pcs s i = WaitTest \<Longrightarrow> \<not> sem_count (cell s) > 0 \<Longrightarrow>
    sem_step s (at_pc s i (WaitRelease 1))"
| wait_load: "pcs s i = WaitLoad \<Longrightarrow> sem_step s (at_pc s i (WaitStore (sem_count (cell s) - 1)))"
| wait_store: "pcs s i = WaitStore v \<Longrightarrow>
    sem_step s (at_pc (s\<lparr>cell := (cell s)\<lparr>sem_count := v\<rparr>, takes := takes s + 1\<rparr>) i (WaitRelease 0))"
| wait_release: "pcs s i = WaitRelease r \<Longrightarrow>
    sem_step s (at_pc (s\<lparr>cell := (cell s)\<lparr>sem_lock := spinlock_release (sem_lock (cell s))\<rparr>\<rparr>) i Outside)"
| call_post: "pcs s i = Outside \<Longrightarrow> sem_step s (at_pc s i PostSpin)"
| post_busy: "pcs s i = PostSpin \<Longrightarrow> fst (spinlock_attempt_acquire (sem_lock (cell s))) \<noteq> 0 \<Longrightarrow>
    sem_step s s"
| post_acquire: "pcs s i = PostSpin \<Longrightarrow> spinlock_attempt_acquire (sem_lock (cell s)) = (0, l) \<Longrightarrow>
    sem_step s (at_pc (s\<lparr>cell := (cell s)\<lparr>sem_lock := l\<rparr>\<rparr>) i PostLoad)"
| post_load: "pcs s i = PostLoad \<Longrightarrow> sem_step s (at_pc s i (PostStore (sem_count (cell s) + 1)))"
| post_store: "pcs s i = PostStore v \<Longrightarrow>
    sem_step s (at_pc (s\<lparr>cell := (cell s)\<lparr>sem_count := v\<rparr>, posts := posts s + 1\<rparr>) i PostRelease)"
| post_release: "pcs s i = PostRelease \<Longrightarrow>
    sem_step s (at_pc (s\<lparr>cell := (cell s)\<lparr>sem_lock := spinlock_release (sem_lock (cell s))\<rparr>\<rparr>) i Outside)"

inductive sem_reachable :: "int \<Rightarrow> sem_sys \<Rightarrow> bool" for n where
  start: "sem_reachable n (sem_start n)"
| step: "sem_reachable n s \<Longrightarrow> sem_step s t \<Longrightarrow> sem_reachable n t"

fun holds :: "pc \<Rightarrow> bool" where
  "holds Outside = False"
| "holds WaitSpin = False"
| "holds PostSpin = False"
| "holds _ = True"

fun pc_ok :: "int \<Rightarrow> pc \<Rightarrow> bool" where
  "pc_ok c WaitLoad = (c > 0)"
| "pc_ok c (WaitStore v) = (c > 0 \<and> v = c - 1)"
| "pc_ok c (PostStore v) = (v = c + 1)"
| "pc_ok c _ = True"

definition sem_inv :: "int \<Rightarrow> sem_sys \<Rightarrow> bool" where
  "sem_inv n s \<longleftrightarrow> sem_lock (cell s) \<in> {0, 1}
     \<and> (sem_lock (cell s) = 0 \<longrightarrow> (\<forall>i. \<not> holds (pcs s i)))
     \<and> (\<forall>i j. holds (pcs s i) \<longrightarrow> holds (pcs s j) \<longrightarrow> i = j)
     \<and> (\<forall>i. pc_ok (sem_count (cell s)) (pcs s i))
     \<and> sem_count (cell s) = n + posts s - takes s
     \<and> (0 \<le> n \<longrightarrow> 0 \<le> sem_count (cell s))"

lemma pc_ok_not_holds: "\<not> holds p \<Longrightarrow> pc_ok c p"
  by (cases p) auto

lemma attempt_free: "spinlock_attempt_acquire l = (0, l') \<Longrightarrow> l = 0 \<and> l' = 1"
  by (auto simp: spinlock_attempt_acquire_def atomic_cmpxchg_def split: if_splits)

lemma sem_inv_holder:
  assumes "sem_inv n s" and "holds (pcs s i)"
  shows "sem_lock (cell s) = 1" and "pc_ok (sem_count (cell s)) (pcs s i)"
    and "j \<noteq> i \<Longrightarrow> \<not> holds (pcs s j)"
  using assms unfolding sem_inv_def by auto

lemma sem_inv_move:
  assumes "sem_inv n s" and "holds p = holds (pcs s i)" and "pc_ok (sem_count (cell s)) p"
  shows "sem_inv n (at_pc s i p)"
  using assms unfolding sem_inv_def by (auto split: if_splits)

lemma sem_step_inv:
  assumes "sem_step s t" and inv: "sem_inv n s"
  shows "sem_inv n t"
  using assms(1)
proof cases
  case (wait_store i v)
  then have h: "holds (pcs s i)" by simp
  note o = sem_inv_holder [OF inv h]
  show ?thesis using inv o(1,2) o(3) wait_store by (auto simp: sem_inv_def pc_ok_not_holds)
next
  case (post_store i v)
  then have h: "holds (pcs s i)" by simp
  note o = sem_inv_holder [OF inv h]
  show ?thesis using inv o(1,2) o(3) post_store by (auto simp: sem_inv_def pc_ok_not_holds)
next
  case (wait_release i r)
  then have h: "holds (pcs s i)" by simp
  note o = sem_inv_holder [OF inv h]
  show ?thesis using inv o(1) o(3) wait_release by (auto simp: sem_inv_def)
next
  case (post_release i)
  then have h: "holds (pcs s i)" by simp
  note o = sem_inv_holder [OF inv h]
  show ?thesis using inv o(1) o(3) post_release by (auto simp: sem_inv_def)
next
  case (wait_load i)
  then have h: "holds (pcs s i)" by simp
  show ?thesis using sem_inv_move [OF inv, of _ i] sem_inv_holder(2) [OF inv h] wait_load by simp
next
  case (wait_acquire i l)
  then show ?thesis using inv attempt_free by (fastforce simp: sem_inv_def)
next
  case (post_acquire i l)
  then show ?thesis using inv attempt_free by (fastforce simp: sem_inv_def)
qed (use inv in \<open>auto intro: sem_inv_move\<close>)

lemma sem_inv_start: "sem_inv n (sem_start n)"
  by (simp add: sem_inv_def sem_start_def sem_create_def)

lemma sem_reachable_inv: "sem_reachable n s \<Longrightarrow> sem_inv n s"
  by (induction rule: sem_reachable.induct) (auto intro: sem_inv_start sem_step_inv)



end
