(* ===== verification/Slab.thy ===== *)
theory Slab
  imports Buddy_Alloc Locks
begin

unbundle bit_operations_syntax

text \<open>
  \<^verbatim>\<open>mem/slab.c\<close>, object caches: a slab is a buddy block with an 80-byte header and equally sized
  objects; the first word of a free object links to the next one. Headers are a typed store
  \<open>slabs\<close>, the link words a store \<open>links\<close>. Further slabs of the same cache are chained by \<open>next\<close>.

  \<open>kmap\<close> is defined later (in \<open>Paging\<close>) and needs this allocator itself, so the functions here take it
  as an argument; it is only called for caches with \<open>SLAB_DMA_64K\<close>.
\<close>

definition SLAB_ALIGN :: u64 where "SLAB_ALIGN = 7"
definition SLAB_PAGE_ALIGN :: u64 where "SLAB_PAGE_ALIGN = 1"
definition SLAB_DMA_64K :: u64 where "SLAB_DMA_64K = 2"
definition PAGE_PCD :: u64 where "PAGE_PCD = 0x10"

record slab_t =
  sl_size :: u64
  sl_tsize :: u64
  sl_num :: u64
  sl_free :: u64
  sl_flags :: u64
  sl_align :: u64
  sl_nextfree :: addr
  sl_next :: addr
  sl_prev :: addr
  sl_lock :: u32

definition slab_header :: u64 where "slab_header = 80"

record slab_state = buddy_state +
  slabs :: "addr \<Rightarrow> slab_t"
  links :: "addr \<Rightarrow> addr"
  kdefault_attrs :: u64

type_synonym 'a kmap_fun = "u64 \<Rightarrow> u64 \<Rightarrow> u64 \<Rightarrow> u64 \<Rightarrow> 'a slab_state_scheme \<Rightarrow> 'a slab_state_scheme option"

definition upd_slab :: "addr \<Rightarrow> (slab_t \<Rightarrow> slab_t) \<Rightarrow> 'a slab_state_scheme \<Rightarrow> 'a slab_state_scheme" where
  "upd_slab p f s = s\<lparr>slabs := (slabs s)(p := f (slabs s p))\<rparr>"

definition slab_range :: "addr \<Rightarrow> 'a slab_state_scheme \<Rightarrow> addr \<times> addr" where
  "slab_range slab s =
    (let sslab = (slab OR sl_align (slabs s slab)) + 1 in
     (sslab, sslab + sl_size (slabs s slab) * sl_num (slabs s slab)))"

section \<open>Creation\<close>

primrec slab_link_loop :: "nat \<Rightarrow> u64 \<Rightarrow> u64 \<Rightarrow> u64 \<Rightarrow> addr \<Rightarrow> (addr \<Rightarrow> addr) \<Rightarrow> (addr \<Rightarrow> addr)" where
  "slab_link_loop 0 i num sz ptr L = L"
| "slab_link_loop (Suc k) i num sz ptr L =
    (let L = L(ptr := ptr + sz);
         L = (if i = num - 1 then L(ptr := 0) else L)
     in slab_link_loop k (i + 1) num sz (L ptr) L)"

definition slab_create :: "'a kmap_fun \<Rightarrow> u64 \<Rightarrow> u64 \<Rightarrow> u64 \<Rightarrow> 'a slab_state_scheme \<Rightarrow> (addr \<times> 'a slab_state_scheme) option" where
  "slab_create kmap sz cache_size flags s =
    (if sz < 8 then Some (NULL, s)
     else do {
       (ret, s) \<leftarrow> buddy_alloc cache_size s;
       if ret = NULL then Some (NULL, s)
       else do {
         let cache_size = npow2 cache_size;
         let start = ret + slab_header;
         s \<leftarrow> (if flags AND SLAB_PAGE_ALIGN \<noteq> 0 then Some (upd_slab ret (sl_align_update (\<lambda>_. 0xFFF)) s)
              else if flags AND SLAB_DMA_64K \<noteq> 0 then
                (let s = upd_slab ret (sl_align_update (\<lambda>_. 0xFFFF)) s;
                     attrs = kdefault_attrs s OR PAGE_PCD
                 in kmap (ret AND NOT (hhdm_start s)) ret cache_size attrs s)
              else Some (upd_slab ret (sl_align_update (\<lambda>_. SLAB_ALIGN)) s));
         let start = ((start - 1) OR sl_align (slabs s ret)) + 1;
         let num = ((ret + cache_size) - start) div sz;
         let s = upd_slab ret (\<lambda>sl. sl\<lparr>sl_num := num, sl_size := sz, sl_tsize := cache_size, sl_next := NULL,
           sl_prev := NULL, sl_flags := flags, sl_nextfree := start, sl_free := num, sl_lock := 0\<rparr>) s;
         let s = s\<lparr>links := slab_link_loop (unat num) 0 num sz start (links s)\<rparr>;
         Some (ret, s)
       }
     })"

section \<open>Allocation\<close>

partial_function (option) slab_alloc :: "'a kmap_fun \<Rightarrow> addr \<Rightarrow> 'a slab_state_scheme \<Rightarrow> (addr \<times> 'a slab_state_scheme) option" where
  "slab_alloc kmap slab s =
    (if slab = NULL then Some (NULL, s)
     else do {
       l \<leftarrow> spinlock_acquire (sl_lock (slabs s slab));
       let s = upd_slab slab (sl_lock_update (\<lambda>_. l)) s;
       if sl_nextfree (slabs s slab) = NULL then do {
         s \<leftarrow> (if sl_next (slabs s slab) = NULL then do {
                  (n, s) \<leftarrow> slab_create kmap (sl_size (slabs s slab)) (sl_tsize (slabs s slab)) (sl_flags (slabs s slab)) s;
                  let s = upd_slab slab (sl_next_update (\<lambda>_. n)) s;
                  if n = NULL then Some s
                  else Some (upd_slab n (sl_prev_update (\<lambda>_. slab)) s)
                }
                else Some s);
         if sl_next (slabs s slab) = NULL then Some (NULL, upd_slab slab (sl_lock_update (\<lambda>_. 0)) s)
         else do {
           (ret, s) \<leftarrow> slab_alloc kmap (sl_next (slabs s slab)) s;
           Some (ret, upd_slab slab (sl_lock_update (\<lambda>_. 0)) s)
         }
       }
       else do {
         let s = upd_slab slab (\<lambda>sl. sl\<lparr>sl_free := sl_free sl - 1\<rparr>) s;
         let ret = sl_nextfree (slabs s slab);
         let s = upd_slab slab (sl_nextfree_update (\<lambda>_. links s ret)) s;
         Some (ret, upd_slab slab (sl_lock_update (\<lambda>_. 0)) s)
       }
     })"

section \<open>Release\<close>

text \<open>
  The search loop of \<open>slab_free\<close>: the range is computed from the current slab before the slab is
  advanced. The result is the slab found, or \<open>NULL\<close> at the end of the chain.
\<close>

partial_function (option) slab_free_find :: "addr \<Rightarrow> addr \<Rightarrow> addr \<Rightarrow> addr \<Rightarrow> 'a slab_state_scheme \<Rightarrow> addr option" where
  "slab_free_find ptr low high slab s =
    (if ptr < low \<or> ptr > high then
       (let (low, high) = slab_range slab s; slab = sl_next (slabs s slab) in
        if slab = NULL then Some NULL else slab_free_find ptr low high slab s)
     else Some slab)"

definition slab_free :: "'a kmap_fun \<Rightarrow> addr \<Rightarrow> addr \<Rightarrow> 'a slab_state_scheme \<Rightarrow> 'a slab_state_scheme option" where
  "slab_free kmap root ptr s =
    (if root = NULL then Some s
     else if ptr = NULL then Some s
     else do {
       l \<leftarrow> spinlock_acquire (sl_lock (slabs s root));
       let s = upd_slab root (sl_lock_update (\<lambda>_. l)) s;
       let (low, high) = slab_range root s;
       slab \<leftarrow> slab_free_find ptr low high root s;
       if slab = NULL then Some (upd_slab root (sl_lock_update (\<lambda>_. 0)) s)
       else do {
         let s = s\<lparr>links := (links s)(ptr := sl_nextfree (slabs s slab))\<rparr>;
         let s = upd_slab slab (sl_nextfree_update (\<lambda>_. ptr)) s;
         let s = upd_slab slab (\<lambda>sl. sl\<lparr>sl_free := sl_free sl + 1\<rparr>) s;
         s \<leftarrow> (if sl_free (slabs s slab) = sl_num (slabs s slab) \<and> sl_prev (slabs s slab) \<noteq> NULL then do {
                let next = sl_next (slabs s slab);
                let prev = sl_prev (slabs s slab);
                let s = upd_slab prev (sl_next_update (\<lambda>_. next)) s;
                let s = (if next \<noteq> NULL then upd_slab next (sl_prev_update (\<lambda>_. prev)) s else s);
                s \<leftarrow> (if sl_flags (slabs s slab) AND SLAB_DMA_64K \<noteq> 0
                     then kmap (slab AND NOT (hhdm_start s)) slab (sl_tsize (slabs s slab))
                            (kdefault_attrs s AND NOT PAGE_PCD) s
                     else Some s);
                buddy_free slab s
              }
              else Some s);
         Some (upd_slab root (sl_lock_update (\<lambda>_. 0)) s)
       }
     })"

end
