(* ===== verification/Slab_Refine.thy ===== *)
theory Slab_Refine
  imports Slab
begin

unbundle bit_operations_syntax

text \<open>
  What the object caches of \<open>Slab\<close> guarantee: the free list of a new slab, objects that do not
  overlap, allocation and release as a stack, growth of the chain, and the cases where a released
  object is lost.
\<close>

section \<open>Free lists\<close>

primrec freelist :: "(addr \<Rightarrow> addr) \<Rightarrow> addr \<Rightarrow> addr list \<Rightarrow> bool" where
  "freelist L p [] \<longleftrightarrow> p = NULL"
| "freelist L p (x # xs) \<longleftrightarrow> x \<noteq> NULL \<and> p = x \<and> freelist L (L x) xs"

definition objects :: "addr \<Rightarrow> u64 \<Rightarrow> nat \<Rightarrow> addr list" where
  "objects p sz n = map (\<lambda>i. p + of_nat i * sz) [0..<n]"

lemma objects_Suc: "objects p sz (Suc n) = p # objects (p + sz) sz n"
proof -
  have "[0..<Suc n] = 0 # map Suc [0..<n]" by (simp add: map_Suc_upt upt_conv_Cons del: upt_Suc)
  then show ?thesis by (simp add: objects_def algebra_simps del: upt_Suc)
qed

lemma objects_0 [simp]: "objects p sz 0 = []"
  by (simp add: objects_def)

lemma length_objects [simp]: "length (objects p sz n) = n"
  by (simp add: objects_def)

lemma unat_object:
  assumes "unat p + n * unat sz < 2 ^ 64" "i \<le> n"
  shows "unat (p + of_nat i * sz) = unat p + i * unat (sz :: u64)"
proof -
  have "i * unat sz \<le> n * unat sz" using assms(2) by (rule mult_le_mono1)
  then have lt: "unat p + i * unat sz < 2 ^ 64" using assms(1) by linarith
  have "p + of_nat i * sz = of_nat (unat p + i * unat sz)" by simp
  then show ?thesis using lt by (simp only: unat_of_nat) simp
qed

lemma objects_sorted:
  assumes "unat p + n * unat sz < 2 ^ 64"
  shows "sorted_wrt (\<lambda>a b. unat a + unat sz \<le> unat b) (objects p sz n)"
proof -
  have "unat (p + of_nat i * sz) + unat sz \<le> unat (p + of_nat j * sz)" if "i < j" "j < n" for i j
  proof -
    have "(i + 1) * unat sz \<le> j * unat sz" using that by (intro mult_le_mono1) simp
    then show ?thesis using unat_object [OF assms, of i] unat_object [OF assms, of j] that by simp
  qed
  then show ?thesis by (simp add: objects_def sorted_wrt_iff_nth_less)
qed

lemma objects_above:
  assumes "unat p + n * unat sz < 2 ^ 64" "x \<in> set (objects p sz n)"
  shows "unat p \<le> unat x \<and> unat x + unat sz \<le> unat p + n * unat sz"
proof -
  obtain i where i: "i < n" "x = p + of_nat i * sz" using assms(2) by (auto simp: objects_def)
  have "(i + 1) * unat sz \<le> n * unat sz" using i(1) by (intro mult_le_mono1) simp
  then show ?thesis using unat_object [OF assms(1), of i] i by simp
qed

lemma link_loop_freelist:
  assumes "unat ptr + Suc k * unat sz < 2 ^ 64" "ptr \<noteq> NULL" "sz \<noteq> 0" "i + of_nat k = num - 1" "k < 2 ^ 64 - 1"
  shows "freelist (slab_link_loop (Suc k) i num sz ptr L) ptr (objects ptr sz (Suc k))
    \<and> (\<forall>p. p \<notin> set (objects ptr sz (Suc k)) \<longrightarrow> slab_link_loop (Suc k) i num sz ptr L p = L p)"
  using assms
proof (induction k arbitrary: i ptr L)
  case 0
  then show ?case by (simp add: objects_Suc)
next
  case (Suc k)
  have ne: "i \<noteq> num - 1"
  proof
    assume "i = num - 1"
    then have "(of_nat (Suc k) :: u64) = 0" using Suc.prems(4) by simp
    then show False using Suc.prems(5) of_nat_eq_u64 [of "Suc k" 0] by simp
  qed
  let ?L = "L(ptr := ptr + sz)"
  let ?L' = "slab_link_loop (Suc k) (i + 1) num sz (ptr + sz) ?L"
  have b: "unat (ptr + sz) = unat ptr + unat sz" using unat_object [OF Suc.prems(1), of 1] by simp
  have nz: "ptr + sz \<noteq> NULL" using b Suc.prems(2) by (metis add_is_0 unat_eq_zero unsigned_0)
  have "freelist ?L' (ptr + sz) (objects (ptr + sz) sz (Suc k))
      \<and> (\<forall>p. p \<notin> set (objects (ptr + sz) sz (Suc k)) \<longrightarrow> ?L' p = ?L p)"
    by (rule Suc.IH) (use Suc.prems nz b in \<open>auto simp: algebra_simps\<close>)
  moreover have "ptr \<notin> set (objects (ptr + sz) sz (Suc k))"
    using objects_sorted [OF Suc.prems(1)] Suc.prems(3) by (auto simp: objects_Suc [of ptr sz "Suc k"] unat_eq_zero)
  moreover have "slab_link_loop (Suc (Suc k)) i num sz ptr L = ?L'"
    using ne by (subst slab_link_loop.simps(2)) (simp add: Let_def del: slab_link_loop.simps)
  ultimately show ?case using Suc.prems(2) unfolding objects_Suc [of ptr sz "Suc k"] by auto
qed

section \<open>The parts of the state\<close>

lemma buddy_inv_truncate:
  "buddy_inv s = buddy_inv (buddy_state.truncate s)" "buddy_live s = buddy_live (buddy_state.truncate s)"
proof -
  have t: "region_head s r = region_head (buddy_state.truncate s) r" "region_hdr s r = region_hdr (buddy_state.truncate s) r"
    "region_bitmap s r = region_bitmap (buddy_state.truncate s) r" "region_depth s r = region_depth (buddy_state.truncate s) r"
    "region_tree s r = region_tree (buddy_state.truncate s) r" "region_blocks s r = region_blocks (buddy_state.truncate s) r" for r
    by (simp_all add: region_head_def region_hdr_def region_bitmap_def region_depth_def region_tree_def region_blocks_def
        buddy_state.defs)
  have "region_sep s = region_sep (buddy_state.truncate s)" "region_inv s = region_inv (buddy_state.truncate s)"
    by (simp_all add: fun_eq_iff region_sep_def region_inv_def t, simp add: buddy_state.defs)
  then show "buddy_inv s = buddy_inv (buddy_state.truncate s)"
    by (simp add: buddy_inv_def) (simp add: buddy_state.defs)
  show "buddy_live s = buddy_live (buddy_state.truncate s)"
    by (simp add: buddy_live_def t) (simp add: buddy_state.defs)
qed

lemma truncate_upd [simp]:
  "buddy_state.truncate (s\<lparr>slabs := x\<rparr>) = buddy_state.truncate s"
  "buddy_state.truncate (s\<lparr>links := y\<rparr>) = buddy_state.truncate s"
  "buddy_state.truncate (upd_slab p f s) = buddy_state.truncate s"
  by (simp_all add: buddy_state.defs upd_slab_def)

lemma buddy_inv_upd [simp]:
  "buddy_inv (s\<lparr>links := y\<rparr>) = buddy_inv s" "buddy_live (s\<lparr>links := y\<rparr>) = buddy_live s"
  "buddy_inv (upd_slab p f s) = buddy_inv s" "buddy_live (upd_slab p f s) = buddy_live s"
  by (metis buddy_inv_truncate truncate_upd)+

lemma upd_slab_simps [simp]:
  "slabs (upd_slab p f s) q = (if q = p then f (slabs s p) else slabs s q)"
  "links (upd_slab p f s) = links s" "hhdm_start (upd_slab p f s) = hhdm_start s"
  "mem_regions (upd_slab p f s) = mem_regions s" "ram (upd_slab p f s) = ram s" "headers (upd_slab p f s) = headers s"
  "kdefault_attrs (upd_slab p f s) = kdefault_attrs s" "slab_state.more (upd_slab p f s) = slab_state.more s"
  by (simp_all add: upd_slab_def)

text \<open>\<open>buddy_alloc\<close> and \<open>buddy_free\<close> only change the byte memory.\<close>

lemma buddy_alloc_regions_frame:
  "buddy_alloc_regions rs sz s = Some (p, s') \<Longrightarrow> \<exists>m. s' = s\<lparr>ram := m\<rparr>"
proof (induction rs arbitrary: s)
  case Nil
  then have "s' = s\<lparr>ram := ram s\<rparr>" by simp
  then show ?case by blast
next
  case (Cons r rs)
  obtain ret m where "buddy_alloc_helper (headers s (mr_base r OR hhdm_start s)) ((mr_base r OR hhdm_start s) + header_size) sz (ram s) = Some (ret, m)"
    using Cons.prems by (auto simp: bind_Some_iff Let_def)
  then have "s' = s\<lparr>ram := m\<rparr> \<or> (buddy_alloc_regions rs sz (s\<lparr>ram := m\<rparr>) = Some (p, s'))"
    using Cons.prems by (auto simp: Let_def split: if_splits)
  then show ?case using Cons.IH [of "s\<lparr>ram := m\<rparr>"] by auto
qed

lemma buddy_alloc_frame:
  assumes "buddy_alloc sz s = Some (p, s')"
  shows "\<exists>m. s' = s\<lparr>ram := m\<rparr>"
proof (cases "sz = 0")
  case True
  then have "s' = s\<lparr>ram := ram s\<rparr>" using assms by (simp add: buddy_alloc_def)
  then show ?thesis by blast
qed (use assms in \<open>auto simp: buddy_alloc_def dest: buddy_alloc_regions_frame\<close>)

section \<open>Creation\<close>

definition align_of :: "u64 \<Rightarrow> u64" where
  "align_of flags = (if flags AND SLAB_PAGE_ALIGN \<noteq> 0 then 0xFFF else if flags AND SLAB_DMA_64K \<noteq> 0 then 0xFFFF else SLAB_ALIGN)"

definition slab_start :: "addr \<Rightarrow> u64 \<Rightarrow> addr" where
  "slab_start ret al = ((ret + slab_header - 1) OR al) + 1"

definition slab_num :: "addr \<Rightarrow> u64 \<Rightarrow> u64 \<Rightarrow> u64 \<Rightarrow> u64" where
  "slab_num ret sz cs al = (ret + cs - slab_start ret al) div sz"

definition new_slab :: "addr \<Rightarrow> u64 \<Rightarrow> u64 \<Rightarrow> u64 \<Rightarrow> slab_t" where
  "new_slab ret sz cs flags = \<lparr>sl_size = sz, sl_tsize = cs, sl_num = slab_num ret sz cs (align_of flags),
     sl_free = slab_num ret sz cs (align_of flags), sl_flags = flags, sl_align = align_of flags,
     sl_nextfree = slab_start ret (align_of flags), sl_next = NULL, sl_prev = NULL, sl_lock = 0\<rparr>"

lemma npow2_exp: "k < 64 \<Longrightarrow> npow2 (2 ^ k) = 2 ^ k"
proof (cases k)
  case 0
  then show ?thesis using npow2_one(2) by simp
next
  case (Suc j)
  assume "k < 64"
  then have u: "unat (2 ^ k :: u64) = 2 ^ k" by (rule unat_pow2 [where ?'a = 64, simplified])
  have "(1 :: nat) < 2 ^ Suc j" by (rule one_less_power) simp_all
  then show ?thesis unfolding Suc using u unfolding Suc by (intro npow2_pow2) (simp_all only: power_Suc)
qed

lemma slab_create_value:
  assumes "buddy_alloc cs s = Some (ret, s1)" "ret \<noteq> NULL" "8 \<le> sz" "npow2 cs = cs"
    and "flags AND SLAB_PAGE_ALIGN \<noteq> 0 \<or> flags AND SLAB_DMA_64K = 0"
  shows "slab_create kmap sz cs flags s = Some (ret, (upd_slab ret (\<lambda>_. new_slab ret sz cs flags) s1)
    \<lparr>links := slab_link_loop (unat (slab_num ret sz cs (align_of flags))) 0 (slab_num ret sz cs (align_of flags)) sz
       (slab_start ret (align_of flags)) (links s1)\<rparr>)"
proof -
  have "\<not> sz < 8" using assms(3) by simp
  moreover have "align_of flags = (if flags AND SLAB_PAGE_ALIGN \<noteq> 0 then 0xFFF else SLAB_ALIGN)"
    using assms(5) by (auto simp: align_of_def)
  ultimately show ?thesis
    using assms(1,2,4,5) unfolding slab_create_def new_slab_def slab_num_def slab_start_def
    by (cases "slabs s1 ret") (auto simp: Let_def upd_slab_def)
qed

lemma slab_create_fails:
  assumes "buddy_alloc cs s = Some (NULL, s1)"
  shows "slab_create kmap sz cs flags s = Some (NULL, if sz < 8 then s else s1)"
  using assms by (simp add: slab_create_def)

lemma slab_start_bounds:
  assumes "n < 64" "unat ret + 80 + 2 ^ n < 2 ^ 64"
  shows "unat ret + 80 \<le> unat (slab_start ret (mask n))" "unat (slab_start ret (mask n)) < unat ret + 80 + 2 ^ n"
    "2 ^ n dvd unat (slab_start ret (mask n))"
proof -
  let ?x = "unat ret + 79"
  have "unat (ret + slab_header) = unat ret + 80"
    using assms(2) by (simp add: slab_header_def unat_plus_if')
  then have x: "unat (ret + slab_header - 1) = ?x" by (subst unat_minus_one) auto
  have e: "unat (slab_start ret (mask n)) = (?x div 2 ^ n + 1) * 2 ^ n"
    using unat_round_up [OF assms(1), of "ret + slab_header - 1"] assms(2) unfolding slab_start_def x by simp
  have "?x < (?x div 2 ^ n + 1) * 2 ^ n" by (rule less_round_up)
  moreover have "?x div 2 ^ n * 2 ^ n \<le> ?x" by (rule div_times_less_eq_dividend)
  ultimately show "unat ret + 80 \<le> unat (slab_start ret (mask n))" "unat (slab_start ret (mask n)) < unat ret + 80 + 2 ^ n"
    unfolding e add_mult_distrib by linarith+
  show "2 ^ n dvd unat (slab_start ret (mask n))" unfolding e by simp
qed

text \<open>The number of alignment bits of a cache.\<close>

definition align_bits :: "u64 \<Rightarrow> nat" where
  "align_bits flags = (if flags AND SLAB_PAGE_ALIGN \<noteq> 0 then 12 else if flags AND SLAB_DMA_64K \<noteq> 0 then 16 else 3)"

lemma align_of_mask: "align_of flags = mask (align_bits flags)"
  by (simp add: align_of_def align_bits_def SLAB_ALIGN_def mask_eq_exp_minus_1)

lemma align_bits_less: "align_bits flags < 64" "(2 :: nat) ^ align_bits flags \<le> 2 ^ 16"
  by (simp_all add: align_bits_def)

lemma slab_objects_fit:
  assumes "unat ret + unat cs \<le> 2 ^ 64" "unat ret \<noteq> 0" "8 \<le> sz" "unat sz + 80 + 2 ^ align_bits flags \<le> unat cs"
  defines "p \<equiv> slab_start ret (align_of flags)" and "n \<equiv> unat (slab_num ret sz cs (align_of flags))"
  shows "0 < n" "unat p + n * unat sz \<le> unat ret + unat cs" "unat ret + 80 \<le> unat p" "n \<le> unat cs"
proof -
  have b: "unat ret + 80 + 2 ^ align_bits flags < 2 ^ 64" and sz: "0 < unat sz"
    using assms(1,3,4) by (auto simp: word_le_nat_alt)
  note sb = slab_start_bounds [OF align_bits_less(1) b, folded align_of_mask p_def]
  show "unat ret + 80 \<le> unat p" by (rule sb(1))
  have len: "unat (ret + cs - p) = unat ret + unat cs - unat p"
  proof (cases "unat ret + unat cs < 2 ^ 64")
    case True
    then have "unat (ret + cs) = unat ret + unat cs" by (simp add: unat_plus_if')
    then show ?thesis using sb(2) assms(4) by (simp add: unat_sub_if')
  next
    case False
    then have "ret + cs = 0" using assms(1) by (simp add: word_unat_eq_iff unat_word_ariths)
    then show ?thesis using False assms(1) sb(1) by (simp add: unat_sub_if' word_unat_eq_iff)
  qed
  have n: "n = (unat ret + unat cs - unat p) div unat sz" by (simp add: n_def slab_num_def unat_div len flip: p_def)
  have "unat sz \<le> unat ret + unat cs - unat p" using sb(2) assms(4) by linarith
  then show "0 < n" using sz by (simp add: n div_greater_zero_iff)
  have "n * unat sz \<le> unat ret + unat cs - unat p" unfolding n by (rule div_times_less_eq_dividend)
  then show "unat p + n * unat sz \<le> unat ret + unat cs" using sb(2) assms(4) by linarith
  have "n \<le> unat ret + unat cs - unat p" unfolding n by (rule div_le_dividend)
  then show "n \<le> unat cs" using sb(1) by linarith
qed

text \<open>The objects of a slab, and a slab whose free objects are \<open>fl\<close>.\<close>

definition slab_objs :: "'a slab_state_scheme \<Rightarrow> addr \<Rightarrow> addr list" where
  "slab_objs s a = objects (slab_start a (sl_align (slabs s a))) (sl_size (slabs s a)) (unat (sl_num (slabs s a)))"

definition slab_holds :: "'a slab_state_scheme \<Rightarrow> addr \<Rightarrow> addr list \<Rightarrow> bool" where
  "slab_holds s a fl \<longleftrightarrow> a \<noteq> NULL \<and> sl_lock (slabs s a) = 0 \<and> freelist (links s) (sl_nextfree (slabs s a)) fl
     \<and> distinct fl \<and> set fl \<subseteq> set (slab_objs s a) \<and> unat (sl_free (slabs s a)) = length fl"

definition fits_slab :: "u64 \<Rightarrow> nat \<Rightarrow> u64 \<Rightarrow> bool" where
  "fits_slab sz k flags \<longleftrightarrow> k < 52 \<and> 8 \<le> sz \<and> unat sz + 80 + 2 ^ align_bits flags \<le> 2 ^ (k + 12)
     \<and> (flags AND SLAB_PAGE_ALIGN \<noteq> 0 \<or> flags AND SLAB_DMA_64K = 0)"

definition created :: "u64 \<Rightarrow> nat \<Rightarrow> u64 \<Rightarrow> 'a slab_state_scheme \<Rightarrow> addr \<Rightarrow> 'a slab_state_scheme \<Rightarrow> bool" where
  "created sz k flags s ret s' \<longleftrightarrow> buddy_inv s'
     \<and> buddy_live s' = insert (unat ret, 2 ^ (k + 12)) (buddy_live s)
     \<and> (\<forall>x \<in> buddy_live s. disjoint_blocks x (unat ret, 2 ^ (k + 12)))
     \<and> slab_holds s' ret (slab_objs s' ret) \<and> slab_objs s' ret \<noteq> []
     \<and> (\<forall>x \<in> set (slab_objs s' ret). unat ret + 80 \<le> unat x \<and> unat x + unat sz \<le> unat ret + 2 ^ (k + 12))
     \<and> sorted_wrt (\<lambda>x y. unat x + unat sz \<le> unat y) (slab_objs s' ret)
     \<and> slabs s' = (slabs s)(ret := new_slab ret sz (2 ^ (k + 12)) flags)
     \<and> (\<forall>p. p \<notin> set (slab_objs s' ret) \<longrightarrow> links s' p = links s p) \<and> hhdm_start s' = hhdm_start s
     \<and> slab_state.more s' = slab_state.more s"

lemma sorted_objects_distinct:
  "sorted_wrt (\<lambda>x y. unat x + c \<le> unat y) xs \<Longrightarrow> 0 < c \<Longrightarrow> distinct xs"
  by (induction xs) auto

lemma slab_create_law:
  assumes "buddy_inv s" "fits_slab sz k flags"
  shows "\<exists>ret s'. slab_create kmap sz (2 ^ (k + 12)) flags s = Some (ret, s')
    \<and> (ret = NULL \<and> s' = s \<or> ret \<noteq> NULL \<and> created sz k flags s ret s')"
proof -
  let ?cs = "2 ^ (k + 12) :: u64"
  note f = assms(2) [unfolded fits_slab_def]
  have cs: "unat ?cs = 2 ^ (k + 12)" using f by (intro unat_pow2) simp
  have np: "npow2 ?cs = ?cs" using f by (intro npow2_exp) simp
  obtain ret s1 where a: "buddy_alloc ?cs s = Some (ret, s1)" "buddy_inv s1"
    and l: "if ret = NULL then s1 = s else buddy_live s1 = insert (unat ret, 2 ^ (k + 12)) (buddy_live s)
       \<and> (\<forall>x \<in> buddy_live s. disjoint_blocks x (unat ret, 2 ^ (k + 12)))"
    using buddy.alloc_law [OF assms(1)] f by blast
  show ?thesis
  proof (cases "ret = NULL")
    case True
    then show ?thesis using slab_create_fails [of ?cs s s1 kmap sz flags] a(1) l by auto
  next
    case False
    let ?p = "slab_start ret (align_of flags)" and ?num = "slab_num ret sz ?cs (align_of flags)"
    let ?L = "slab_link_loop (unat ?num) 0 ?num sz ?p (links s1)"
    let ?s = "(upd_slab ret (\<lambda>_. new_slab ret sz ?cs flags) s1)\<lparr>links := ?L\<rparr>"
    obtain m where m: "s1 = s\<lparr>ram := m\<rparr>" using buddy_alloc_frame [OF a(1)] by blast
    have v: "slab_create kmap sz ?cs flags s = Some (ret, ?s)"
      using a(1) False _ np by (rule slab_create_value) (use f in auto)
    have "0 < unat ret \<and> unat ret + 2 ^ (k + 12) < 2 ^ 64"
      using buddy_live_bound [OF a(2), of "unat ret" "2 ^ (k + 12)"] l False by simp
    note bound = this [THEN conjunct2] and fit = slab_objects_fit [of ret ?cs sz flags, unfolded cs]
    have fit: "0 < unat ?num" "unat ?p + unat ?num * unat sz \<le> unat ret + 2 ^ (k + 12)" "unat ret + 80 \<le> unat ?p"
      using fit bound f \<open>0 < unat ret \<and> _\<close> by auto
    have lt: "unat ?p + unat ?num * unat sz < 2 ^ 64" using fit(2) bound by linarith
    have objs: "slab_objs ?s ret = objects ?p sz (unat ?num)" by (simp add: slab_objs_def new_slab_def)
    have sz: "0 < unat sz" using f by (auto simp: word_le_nat_alt)
    have srt: "sorted_wrt (\<lambda>x y. unat x + unat sz \<le> unat y) (objects ?p sz (unat ?num))" using lt by (rule objects_sorted)
    have "?p \<noteq> NULL" using fit(3) by auto
    obtain j where j: "unat ?num = Suc j" using fit(1) by (cases "unat ?num") auto
    have "?num = of_nat (Suc j)" unfolding j [symmetric] by simp
    then have "(0 :: u64) + of_nat j = ?num - 1" by simp
    moreover have "j < 2 ^ 64 - 1" using j unsigned_less [of ?num, where ?'a = nat] by simp
    ultimately have fl: "freelist ?L ?p (objects ?p sz (unat ?num)) \<and> (\<forall>q. q \<notin> set (objects ?p sz (unat ?num)) \<longrightarrow> ?L q = links s1 q)"
      unfolding j using lt \<open>?p \<noteq> NULL\<close> sz by (intro link_loop_freelist) (auto simp: j)
    have "slab_holds ?s ret (slab_objs ?s ret)"
      using fl False sorted_objects_distinct [OF srt sz] unfolding slab_holds_def objs by (simp add: new_slab_def)
    moreover have "unat ret + 80 \<le> unat x \<and> unat x + unat sz \<le> unat ret + 2 ^ (k + 12)"
      if "x \<in> set (objects ?p sz (unat ?num))" for x
      using objects_above [OF lt that] fit(2,3) by linarith
    moreover have "objects ?p sz (unat ?num) \<noteq> []" using fit(1) by (metis length_0_conv length_objects less_irrefl)
    ultimately have "created sz k flags s ret ?s"
      using a(2) l False fl srt unfolding created_def objs by (simp add: m fun_eq_iff)
    then show ?thesis using v False by blast
  qed
qed

end
