(* ===== verification/Slab_Pool.thy ===== *)
theory Slab_Pool
  imports Slab_Refine
begin

unbundle bit_operations_syntax

text \<open>
  A cache as a pool of objects: the chain of slabs that starts at a root is described by the list of
  its slabs with their free lists. \<open>slab_alloc\<close> takes an object from the first slab that has one and
  otherwise adds a slab at the end of the chain; \<open>slab_free\<close> gives an object of the first slab back.
\<close>

section \<open>The chain of slabs\<close>

type_synonym pool = "(addr \<times> addr list) list"

definition slab_objects :: "u64 \<Rightarrow> nat \<Rightarrow> u64 \<Rightarrow> addr \<Rightarrow> addr list" where
  "slab_objects sz k flags a =
    objects (slab_start a (align_of flags)) sz (unat (slab_num a sz (2 ^ (k + 12)) (align_of flags)))"

definition slab_ok :: "'a slab_state_scheme \<Rightarrow> u64 \<Rightarrow> nat \<Rightarrow> u64 \<Rightarrow> addr \<Rightarrow> addr list \<Rightarrow> bool" where
  "slab_ok s sz k flags a fl \<longleftrightarrow> a \<noteq> NULL
     \<and> sl_size (slabs s a) = sz \<and> sl_tsize (slabs s a) = 2 ^ (k + 12) \<and> sl_flags (slabs s a) = flags
     \<and> sl_align (slabs s a) = align_of flags \<and> sl_num (slabs s a) = slab_num a sz (2 ^ (k + 12)) (align_of flags)
     \<and> sl_lock (slabs s a) = 0 \<and> unat (sl_free (slabs s a)) = length fl \<and> freelist (links s) (sl_nextfree (slabs s a)) fl
     \<and> distinct fl \<and> set fl \<subseteq> set (slab_objects sz k flags a) \<and> (unat a, 2 ^ (k + 12)) \<in> buddy_live s"

primrec chain :: "'a slab_state_scheme \<Rightarrow> addr \<Rightarrow> pool \<Rightarrow> bool" where
  "chain s p [] \<longleftrightarrow> p = NULL"
| "chain s p (x # F) \<longleftrightarrow> p = fst x \<and> chain s (sl_next (slabs s (fst x))) F"

definition pool :: "u64 \<Rightarrow> nat \<Rightarrow> u64 \<Rightarrow> 'a slab_state_scheme \<Rightarrow> addr \<Rightarrow> pool \<Rightarrow> bool" where
  "pool sz k flags s root F \<longleftrightarrow> buddy_inv s \<and> chain s root F \<and> (\<forall>(a, fl) \<in> set F. slab_ok s sz k flags a fl)
     \<and> sorted_wrt (\<lambda>a b. disjoint_blocks (unat a, 2 ^ (k + 12)) (unat b, 2 ^ (k + 12))) (map fst F)"

text \<open>The objects in use.\<close>

definition pool_out :: "u64 \<Rightarrow> nat \<Rightarrow> u64 \<Rightarrow> pool \<Rightarrow> (nat \<times> nat) set" where
  "pool_out sz k flags F = (\<Union>(a, fl) \<in> set F. (\<lambda>x. (unat x, unat sz)) ` (set (slab_objects sz k flags a) - set fl))"

lemma freelist_unique: "freelist L p xs \<Longrightarrow> freelist L p ys \<Longrightarrow> xs = ys"
  by (induction xs arbitrary: p ys) (case_tac ys; auto)+

lemma slab_ok_unique: "slab_ok s sz k flags a xs \<Longrightarrow> slab_ok s sz k flags a ys \<Longrightarrow> xs = ys"
  unfolding slab_ok_def by (blast dest: freelist_unique)

lemma chain_unique:
  "chain s p F \<Longrightarrow> chain s p G \<Longrightarrow> \<forall>(a, fl) \<in> set F. slab_ok s sz k flags a fl \<Longrightarrow>
   \<forall>(a, fl) \<in> set G. slab_ok s sz k flags a fl \<Longrightarrow> F = G"
proof (induction F arbitrary: p G)
  case Nil
  then show ?case by (cases G) (auto simp: slab_ok_def)
next
  case (Cons x F)
  then obtain y G' where G: "G = y # G'" by (cases G) (auto simp: slab_ok_def)
  have "F = G'" by (rule Cons.IH) (use Cons.prems G in auto)
  moreover have "x = y" using Cons.prems G slab_ok_unique [of s sz k flags "fst x" "snd x" "snd y"]
    by (cases x; cases y) auto
  ultimately show ?case using G by simp
qed

lemma pool_unique: "pool sz k flags s root F \<Longrightarrow> pool sz k flags s root G \<Longrightarrow> F = G"
  unfolding pool_def by (blast intro: chain_unique)

section \<open>Allocation\<close>

lemma upd_slab_twice: "upd_slab p f (upd_slab p g s) = upd_slab p (\<lambda>x. f (g x)) s"
  by (simp add: upd_slab_def)

lemma upd_slab_same: "f (slabs s p) = slabs s p \<Longrightarrow> upd_slab p f s = s"
  by (simp add: upd_slab_def)

lemma upd_slab_comm: "p \<noteq> q \<Longrightarrow> upd_slab p f (upd_slab q g s) = upd_slab q g (upd_slab p f s)"
  by (simp add: upd_slab_def fun_upd_twist)

text \<open>The first slab with a free object.\<close>

definition first_free :: "pool \<Rightarrow> (addr \<times> addr list) option" where
  "first_free F = List.find (\<lambda>(a, fl). fl \<noteq> []) F"

definition take_object :: "addr \<Rightarrow> addr \<Rightarrow> 'a slab_state_scheme \<Rightarrow> 'a slab_state_scheme" where
  "take_object a x s = upd_slab a (\<lambda>sl. sl\<lparr>sl_free := sl_free sl - 1, sl_nextfree := links s x\<rparr>) s"

text \<open>Only the lock words, the free lists and the chain matter to the walk down the chain.\<close>

definition walkable :: "'a slab_state_scheme \<Rightarrow> addr \<times> addr list \<Rightarrow> bool" where
  "walkable s x \<longleftrightarrow> fst x \<noteq> NULL \<and> sl_lock (slabs s (fst x)) = 0 \<and> freelist (links s) (sl_nextfree (slabs s (fst x))) (snd x)"

lemma slab_ok_walkable: "slab_ok s sz k flags a fl \<Longrightarrow> walkable s (a, fl)"
  by (simp add: slab_ok_def walkable_def)

lemma chain_upd: "a \<notin> fst ` set F \<Longrightarrow> chain (upd_slab a f s) p F = chain s p F"
  by (induction F arbitrary: p) auto

lemma slab_alloc_take:
  assumes "walkable s (a, x # fl)"
  shows "slab_alloc kmap a s = Some (x, take_object a x s)"
proof -
  have w: "a \<noteq> NULL" "sl_lock (slabs s a) = 0" "sl_nextfree (slabs s a) = x" "x \<noteq> NULL"
    using assms by (auto simp: walkable_def)
  show ?thesis
    using w by (subst slab_alloc.simps)
      (simp add: spinlock_acquire_free Let_def upd_slab_twice take_object_def,
       cases "slabs s a", simp add: upd_slab_def)
qed

lemma slab_alloc_next:
  assumes "walkable s (a, [])" "sl_next (slabs s a) \<noteq> NULL"
  shows "slab_alloc kmap a s = do {
     (ret, s) \<leftarrow> slab_alloc kmap (sl_next (slabs s a)) (upd_slab a (sl_lock_update (\<lambda>_. 1)) s);
     Some (ret, upd_slab a (sl_lock_update (\<lambda>_. 0)) s) }"
  using assms by (subst slab_alloc.simps) (simp add: walkable_def spinlock_acquire_free Let_def)

lemma slab_alloc_first:
  "chain s a F \<Longrightarrow> \<forall>x \<in> set F. walkable s x \<Longrightarrow> distinct (map fst F) \<Longrightarrow> first_free F = Some (b, x # fl) \<Longrightarrow>
   slab_alloc kmap a s = Some (x, take_object b x s)"
proof (induction F arbitrary: a s)
  case Nil
  then show ?case by (simp add: first_free_def)
next
  case (Cons y F)
  obtain c gl where y: "y = (c, gl)" "a = c" using Cons.prems(1) by (cases y) auto
  show ?case
  proof (cases gl)
    case (Cons z zl)
    then show ?thesis using Cons.prems slab_alloc_take [of s c z zl kmap] y by (auto simp: first_free_def)
  next
    case Nil
    let ?s = "upd_slab c (sl_lock_update (\<lambda>_. 1)) s"
    have nin: "c \<notin> fst ` set F" using Cons.prems(3) y by auto
    have ff: "first_free F = Some (b, x # fl)" using Cons.prems(4) Nil y by (simp add: first_free_def)
    then have "(b, x # fl) \<in> set F" by (auto simp: first_free_def find_Some_iff dest: nth_mem)
    then have b: "b \<in> fst ` set F" by force
    have "sl_next (slabs s c) \<noteq> NULL" using Cons.prems(1,2) ff y by (cases F) (auto simp: first_free_def walkable_def)
    moreover have "slab_alloc kmap (sl_next (slabs s c)) ?s = Some (x, take_object b x ?s)"
      by (rule Cons.IH) (use Cons.prems nin ff y in \<open>auto simp: chain_upd walkable_def\<close>)
    moreover have "upd_slab c (sl_lock_update (\<lambda>_. 0)) (take_object b x ?s) = take_object b x s"
    proof -
      have "b \<noteq> c" using b nin by auto
      moreover have "sl_lock (slabs s c) = 0" using Cons.prems(2) y by (simp add: walkable_def)
      ultimately show ?thesis
        by (simp add: take_object_def upd_slab_comm [of b c] upd_slab_twice) (simp add: upd_slab_comm [of c b] upd_slab_same)
    qed
    ultimately show ?thesis using slab_alloc_next [of s c kmap] Cons.prems(2) y Nil by simp
  qed
qed

text \<open>Where the objects of a slab lie.\<close>

lemma slab_objects_within:
  assumes "buddy_inv s" "(unat a, 2 ^ (k + 12)) \<in> buddy_live s" "fits_slab sz k flags"
  shows "x \<in> set (slab_objects sz k flags a) \<Longrightarrow> unat a + 80 \<le> unat x \<and> unat x + unat sz \<le> unat a + 2 ^ (k + 12)"
    and "sorted_wrt (\<lambda>x y. unat x + unat sz \<le> unat y) (slab_objects sz k flags a)"
    and "distinct (slab_objects sz k flags a)" and "slab_objects sz k flags a \<noteq> []"
proof -
  let ?n = "unat (slab_num a sz (2 ^ (k + 12)) (align_of flags))" and ?p = "slab_start a (align_of flags)"
  note f = assms(3) [unfolded fits_slab_def]
  have cs: "unat (2 ^ (k + 12) :: u64) = 2 ^ (k + 12)" using f by (intro unat_pow2) simp
  have b: "0 < unat a" "unat a + 2 ^ (k + 12) < 2 ^ 64" using buddy_live_bound [OF assms(1,2)] by auto
  have fit: "0 < ?n" "unat ?p + ?n * unat sz \<le> unat a + 2 ^ (k + 12)" "unat a + 80 \<le> unat ?p"
    using slab_objects_fit [of a "2 ^ (k + 12)" sz flags, unfolded cs] b f by auto
  then have lt: "unat ?p + ?n * unat sz < 2 ^ 64" using b by linarith
  show "x \<in> set (slab_objects sz k flags a) \<Longrightarrow> unat a + 80 \<le> unat x \<and> unat x + unat sz \<le> unat a + 2 ^ (k + 12)"
    using objects_above [OF lt, of x] fit(2,3) unfolding slab_objects_def by linarith
  show "sorted_wrt (\<lambda>x y. unat x + unat sz \<le> unat y) (slab_objects sz k flags a)"
    unfolding slab_objects_def using lt by (rule objects_sorted)
  then show "distinct (slab_objects sz k flags a)"
    by (rule sorted_objects_distinct) (use f in \<open>auto simp: word_le_nat_alt\<close>)
  show "slab_objects sz k flags a \<noteq> []" using fit(1) unfolding slab_objects_def by (metis length_0_conv length_objects less_irrefl)
qed

text \<open>A slab \<open>b\<close> has been added behind \<open>a\<close> and its first object taken.\<close>

definition grown :: "u64 \<Rightarrow> nat \<Rightarrow> u64 \<Rightarrow> 'a slab_state_scheme \<Rightarrow> addr \<Rightarrow> addr \<Rightarrow> 'a slab_state_scheme \<Rightarrow> bool" where
  "grown sz k flags s a b s' \<longleftrightarrow> b \<noteq> NULL \<and> buddy_inv s' \<and> buddy_live s' = insert (unat b, 2 ^ (k + 12)) (buddy_live s)
     \<and> (\<forall>x \<in> buddy_live s. disjoint_blocks x (unat b, 2 ^ (k + 12)))
     \<and> slabs s' = (slabs s)(a := (slabs s a)\<lparr>sl_next := b\<rparr>,
          b := (new_slab b sz (2 ^ (k + 12)) flags)\<lparr>sl_prev := a,
             sl_free := slab_num b sz (2 ^ (k + 12)) (align_of flags) - 1, sl_nextfree := links s' (hd (slab_objects sz k flags b))\<rparr>)
     \<and> freelist (links s') (slab_start b (align_of flags)) (slab_objects sz k flags b)
     \<and> (\<forall>p. p \<notin> set (slab_objects sz k flags b) \<longrightarrow> links s' p = links s p) \<and> slab_state.more s' = slab_state.more s"

lemma new_slab_objs:
  "created sz k flags s b s' \<Longrightarrow> slab_objs s' b = slab_objects sz k flags b"
  by (simp add: created_def slab_objs_def slab_objects_def new_slab_def)

lemma slab_alloc_grow:
  assumes "buddy_inv s" "fits_slab sz k flags" "walkable s (a, [])" "sl_next (slabs s a) = NULL"
    and "sl_size (slabs s a) = sz" "sl_tsize (slabs s a) = 2 ^ (k + 12)" "sl_flags (slabs s a) = flags"
    and "(unat a, 2 ^ (k + 12)) \<in> buddy_live s"
  shows "\<exists>ret s'. slab_alloc kmap a s = Some (ret, s')
    \<and> (ret = NULL \<and> s' = s \<or> (\<exists>b. ret = hd (slab_objects sz k flags b) \<and> grown sz k flags s a b s'))"
proof -
  let ?s = "upd_slab a (sl_lock_update (\<lambda>_. 1)) s" and ?cs = "2 ^ (k + 12)"
  obtain b s1 where c: "slab_create kmap sz ?cs flags ?s = Some (b, s1)"
    and or: "b = NULL \<and> s1 = ?s \<or> b \<noteq> NULL \<and> created sz k flags ?s b s1"
    using slab_create_law [of ?s sz k flags kmap] assms(1,2) by auto
  have w: "a \<noteq> NULL" "sl_lock (slabs s a) = 0" "sl_nextfree (slabs s a) = NULL" using assms(3) by (auto simp: walkable_def)
  show ?thesis
  proof (cases "b = NULL")
    case True
    then have "slab_alloc kmap a s = Some (NULL, s)"
      using w assms(4-7) c or by (subst slab_alloc.simps)
        (simp add: Let_def upd_slab_twice, rule upd_slab_same, cases "slabs s a", simp)
    then show ?thesis by blast
  next
    case False
    then have cr: "created sz k flags ?s b s1" using or by blast
    note objs = new_slab_objs [OF cr] and d = cr [unfolded created_def]
    have ne: "a \<noteq> b" using d assms(8) disjoint_blocks_same [of "unat b" ?cs] by auto
    let ?x = "hd (slab_objects sz k flags b)" and ?t = "tl (slab_objects sz k flags b)"
    let ?s2 = "upd_slab b (sl_prev_update (\<lambda>_. a)) (upd_slab a (sl_next_update (\<lambda>_. b)) s1)"
    have l: "slab_objects sz k flags b = ?x # ?t" using d objs by simp
    then have st: "slab_start b (align_of flags) = ?x"
      unfolding slab_objects_def by (cases "unat (slab_num b sz ?cs (align_of flags))") (auto simp: objects_Suc)
    have "sl_nextfree (slabs s1 b) = ?x" using d st by (simp add: new_slab_def)
    moreover have "freelist (links s1) (sl_nextfree (slabs s1 b)) (slab_objects sz k flags b)"
      using d unfolding objs slab_holds_def by (elim conjE)
    ultimately have fl: "freelist (links s1) ?x (slab_objects sz k flags b)" by simp
    have "walkable ?s2 (b, ?x # ?t)" using d ne False fl l st by (simp add: walkable_def new_slab_def)
    from slab_alloc_take [OF this, of kmap]
    have "slab_alloc kmap a s = Some (?x, upd_slab a (sl_lock_update (\<lambda>_. 0)) (take_object b ?x ?s2))"
      using w assms(4-7) c False ne d by (subst slab_alloc.simps) (simp add: Let_def)
    moreover have "grown sz k flags s a b (upd_slab a (sl_lock_update (\<lambda>_. 0)) (take_object b ?x ?s2))"
      unfolding grown_def using d False fl st ne w objs
      by (simp add: take_object_def fun_eq_iff new_slab_def)
    ultimately show ?thesis by blast
  qed
qed

lemma grown_unlock:
  assumes "grown sz k flags (upd_slab c (sl_lock_update (\<lambda>_. 1)) s) a b s'" "c \<noteq> a" "(unat c, 2 ^ (k + 12)) \<in> buddy_live s"
    and "sl_lock (slabs s c) = 0"
  shows "grown sz k flags s a b (upd_slab c (sl_lock_update (\<lambda>_. 0)) s')"
proof -
  have "c \<noteq> b" using assms(1,3) disjoint_blocks_same [of "unat b" "2 ^ (k + 12)"] by (auto simp: grown_def)
  then show ?thesis
    using assms(1,2,4) unfolding grown_def by (simp add: fun_eq_iff)
qed

lemma slab_ok_lock:
  "a \<noteq> c \<Longrightarrow> slab_ok (upd_slab c f s) sz k flags a fl = slab_ok s sz k flags a fl"
  by (simp add: slab_ok_def)

lemma slab_alloc_append:
  assumes "fits_slab sz k flags"
  shows "buddy_inv s \<Longrightarrow> chain s a F \<Longrightarrow> F \<noteq> [] \<Longrightarrow> \<forall>x \<in> set F. snd x = [] \<and> slab_ok s sz k flags (fst x) [] \<Longrightarrow>
    distinct (map fst F) \<Longrightarrow> \<exists>ret s'. slab_alloc kmap a s = Some (ret, s') \<and> (ret = NULL \<and> s' = s
      \<or> (\<exists>b. ret = hd (slab_objects sz k flags b) \<and> grown sz k flags s (fst (last F)) b s'))"
proof (induction F arbitrary: a s)
  case Nil
  then show ?case by simp
next
  case (Cons y F)
  have y: "a = fst y" "slab_ok s sz k flags a []" using Cons.prems by auto
  have w: "walkable s (a, [])" using y(2) by (rule slab_ok_walkable)
  show ?case
  proof (cases F)
    case Nil
    then show ?thesis using slab_alloc_grow [OF Cons.prems(1) assms w] Cons.prems(2) y by (auto simp: slab_ok_def)
  next
    case (Cons z F')
    let ?s = "upd_slab a (sl_lock_update (\<lambda>_. 1)) s"
    have nin: "a \<notin> fst ` set F" using Cons.prems(5) y by auto
    have "sl_next (slabs s a) \<noteq> NULL" using Cons.prems(2,4) y Cons by (auto simp: slab_ok_def)
    note step = slab_alloc_next [OF w this, of kmap]
    have "chain ?s (sl_next (slabs s a)) F" using Cons.prems(2) nin y(1) by (simp add: chain_upd)
    moreover have "\<forall>x \<in> set F. snd x = [] \<and> slab_ok ?s sz k flags (fst x) []"
    proof
      fix x assume x: "x \<in> set F"
      then have "fst x \<noteq> a" using nin by (metis imageI)
      then show "snd x = [] \<and> slab_ok ?s sz k flags (fst x) []" using Cons.prems(4) x by (simp add: slab_ok_lock)
    qed
    ultimately obtain ret s' where r: "slab_alloc kmap (sl_next (slabs s a)) ?s = Some (ret, s')"
      "ret = NULL \<and> s' = ?s \<or> (\<exists>b. ret = hd (slab_objects sz k flags b) \<and> grown sz k flags ?s (fst (last F)) b s')"
      using Cons.IH [of ?s "sl_next (slabs s a)"] Cons.prems(1,5) Cons by auto
    have lock: "sl_lock (slabs s a) = 0" "(unat a, 2 ^ (k + 12)) \<in> buddy_live s" using y(2) by (auto simp: slab_ok_def)
    have "fst (last F) \<in> fst ` set F" using Cons by simp
    then have "a \<noteq> fst (last F)" using nin by metis
    then show ?thesis
      using r step grown_unlock [OF _ _ lock(2,1), of sz flags "fst (last F)"] Cons lock(1)
      by (auto simp: upd_slab_twice intro!: upd_slab_same)
  qed
qed

section \<open>The pool law\<close>

definition pool_set :: "addr \<Rightarrow> addr list \<Rightarrow> pool \<Rightarrow> pool" where
  "pool_set b fl F = map (\<lambda>(a, gl). (a, if a = b then fl else gl)) F"

lemma pool_set_fst [simp]: "map fst (pool_set b fl F) = map fst F"
  by (simp add: pool_set_def case_prod_beta)

lemma pool_set_mem: "(a, gl) \<in> set (pool_set b fl F) \<Longrightarrow> (\<exists>g. (a, g) \<in> set F) \<and> (if a = b then gl = fl else (a, gl) \<in> set F)"
  by (auto simp: pool_set_def)

lemma freelist_cong: "freelist L p fl \<Longrightarrow> \<forall>x \<in> set fl. L' x = L x \<Longrightarrow> freelist L' p fl"
  by (induction fl arbitrary: p) auto

lemma chain_cong:
  "map fst F = map fst G \<Longrightarrow> \<forall>a \<in> fst ` set F. sl_next (slabs s' a) = sl_next (slabs s a) \<Longrightarrow> chain s' p F = chain s p G"
proof (induction F arbitrary: p G)
  case (Cons x F)
  then obtain y G' where "G = y # G'" by (cases G) auto
  with Cons show ?case by auto
qed simp

lemma pool_change:
  assumes "pool sz k flags s root F" "buddy_inv s'" "buddy_live s' = buddy_live s" "\<forall>p. p \<noteq> b \<longrightarrow> slabs s' p = slabs s p"
    and "sl_next (slabs s' b) = sl_next (slabs s b)" "b \<in> fst ` set F \<Longrightarrow> slab_ok s' sz k flags b fl"
    and "\<forall>a gl. (a, gl) \<in> set F \<longrightarrow> a \<noteq> b \<longrightarrow> (\<forall>x \<in> set gl. links s' x = links s x)"
  shows "pool sz k flags s' root (pool_set b fl F)"
proof -
  have p: "chain s root F" "\<forall>(a, fl) \<in> set F. slab_ok s sz k flags a fl" using assms(1) by (auto simp: pool_def)
  have "chain s' root (pool_set b fl F)"
    using p(1) assms(4,5) by (subst chain_cong [of _ F _ s]) (simp, metis, simp)
  moreover have "slab_ok s' sz k flags a gl" if "(a, gl) \<in> set (pool_set b fl F)" for a gl
  proof (cases "a = b")
    case True
    then show ?thesis using pool_set_mem [OF that] assms(6) by force
  next
    case False
    then have m: "(a, gl) \<in> set F" using pool_set_mem [OF that] by simp
    then have "slab_ok s sz k flags a gl" using p(2) by auto
    moreover have "\<forall>x \<in> set gl. links s' x = links s x" using assms(7) m False by blast
    ultimately show ?thesis using False assms(3,4) freelist_cong by (auto simp: slab_ok_def)
  qed
  ultimately show ?thesis using assms(1,2) unfolding pool_def pool_set_fst by auto
qed

lemma first_free_mem: "first_free F = Some (b, fl) \<Longrightarrow> (b, fl) \<in> set F \<and> fl \<noteq> []"
  by (auto simp: first_free_def find_Some_iff dest: nth_mem)

lemma pool_distinct:
  assumes "pool sz k flags s root F"
  shows "distinct (map fst F)"
proof -
  have "distinct xs" if "sorted_wrt (\<lambda>a b. disjoint_blocks (unat a, 2 ^ (k + 12)) (unat b, 2 ^ (k + 12))) xs" for xs :: "addr list"
    using that by (induction xs) (auto dest!: bspec dest: disjoint_blocks_same)
  then show ?thesis using assms by (simp add: pool_def)
qed

lemma slab_ok_take:
  assumes "slab_ok s sz k flags b (x # fl)"
  shows "slab_ok (take_object b x s) sz k flags b fl"
proof -
  have "sl_free (slabs s b) \<noteq> 0" using assms by (auto simp: slab_ok_def)
  then have "unat (sl_free (slabs s b) - 1) = unat (sl_free (slabs s b)) - 1" by (rule unat_minus_one)
  then show ?thesis using assms by (auto simp: slab_ok_def take_object_def)
qed

lemma pool_take:
  assumes "pool sz k flags s root F" "first_free F = Some (b, x # fl)"
  shows "pool sz k flags (take_object b x s) root (pool_set b fl F)"
  using assms(1)
proof (rule pool_change)
  have "(b, x # fl) \<in> set F" using first_free_mem [OF assms(2)] by simp
  then have "slab_ok s sz k flags b (x # fl)" using assms(1) by (auto simp: pool_def)
  then show "slab_ok (take_object b x s) sz k flags b fl" by (rule slab_ok_take)
qed (use assms(1) in \<open>auto simp: take_object_def pool_def\<close>)

lemma chain_snoc:
  "chain s p F \<Longrightarrow> F \<noteq> [] \<Longrightarrow> distinct (map fst F) \<Longrightarrow> \<forall>a \<in> fst ` set F. a \<noteq> fst (last F) \<longrightarrow> sl_next (slabs s' a) = sl_next (slabs s a) \<Longrightarrow>
   sl_next (slabs s' (fst (last F))) = b \<Longrightarrow> sl_next (slabs s' b) = NULL \<Longrightarrow> chain s' p (F @ [(b, gl)])"
proof (induction F arbitrary: p)
  case (Cons x F)
  show ?case
  proof (cases "F = []")
    case True
    then show ?thesis using Cons.prems by simp
  next
    case False
    then have "fst x \<noteq> fst (last F)" using Cons.prems(3) by (metis distinct.simps(2) last_in_set list.simps(9) image_eqI set_map)
    then have "sl_next (slabs s' (fst x)) = sl_next (slabs s (fst x))" using Cons.prems(4) False by simp
    moreover have "chain s' (sl_next (slabs s (fst x))) (F @ [(b, gl)])"
      by (rule Cons.IH) (use Cons.prems False in auto)
    ultimately show ?thesis using Cons.prems(1) by simp
  qed
qed simp

lemma slab_ok_grown:
  assumes "grown sz k flags s a b s'" "fits_slab sz k flags"
  shows "slab_ok s' sz k flags b (tl (slab_objects sz k flags b))"
proof -
  note g = assms(1) [unfolded grown_def]
  have "(unat b, 2 ^ (k + 12)) \<in> buddy_live s'" using g by simp
  note w = slab_objects_within [OF _ this assms(2)]
  obtain x xs where x: "slab_objects sz k flags b = x # xs" using w(4) g by (cases "slab_objects sz k flags b") auto
  have n: "length (slab_objects sz k flags b) = unat (slab_num b sz (2 ^ (k + 12)) (align_of flags))"
    by (simp add: slab_objects_def)
  then have "slab_num b sz (2 ^ (k + 12)) (align_of flags) \<noteq> 0" using x by (auto simp: unat_eq_zero)
  from unat_minus_one [OF this] n x g w(3) show ?thesis
    by (auto simp: slab_ok_def new_slab_def)
qed

lemma pool_grow:
  assumes "pool sz k flags s root F" "F \<noteq> []" "grown sz k flags s (fst (last F)) b s'" "fits_slab sz k flags"
  shows "pool sz k flags s' root (F @ [(b, tl (slab_objects sz k flags b))])"
proof -
  note g = assms(3) [unfolded grown_def] and p = assms(1) [unfolded pool_def]
  have live: "(unat a, 2 ^ (k + 12)) \<in> buddy_live s" "a \<noteq> b" if "(a, fl) \<in> set F" for a fl
  proof -
    show "(unat a, 2 ^ (k + 12)) \<in> buddy_live s" using p that by (auto simp: slab_ok_def)
    then show "a \<noteq> b" using g disjoint_blocks_same [of "unat b" "2 ^ (k + 12)"] by auto
  qed
  obtain c cl where c: "last F = (c, cl)" "(c, cl) \<in> set F" using assms(2) by (metis last_in_set surj_pair)
  have "chain s' root (F @ [(b, tl (slab_objects sz k flags b))])"
  proof (rule chain_snoc)
    show "\<forall>a \<in> fst ` set F. a \<noteq> fst (last F) \<longrightarrow> sl_next (slabs s' a) = sl_next (slabs s a)"
      using g by (auto dest: live(2))
    show "sl_next (slabs s' (fst (last F))) = b" using g c live(2) by auto
  qed (use g p assms(2) pool_distinct [OF assms(1)] in \<open>auto simp: new_slab_def\<close>)
  moreover have "slab_ok s' sz k flags a fl" if m: "(a, fl) \<in> set F" for a fl
  proof -
    have ok: "slab_ok s sz k flags a fl" using p m by auto
    have "x \<notin> set (slab_objects sz k flags b)" if "x \<in> set fl" for x
    proof
      assume "x \<in> set (slab_objects sz k flags b)"
      then have "unat b + 80 \<le> unat x \<and> unat x + unat sz \<le> unat b + 2 ^ (k + 12)"
        using slab_objects_within(1) [of s' b k sz flags x] g assms(4) by auto
      moreover have "unat a + 80 \<le> unat x \<and> unat x + unat sz \<le> unat a + 2 ^ (k + 12)"
        using slab_objects_within(1) [OF _ live(1) [OF m] assms(4), of x] p ok that by (auto simp: slab_ok_def)
      moreover have "disjoint_blocks (unat a, 2 ^ (k + 12)) (unat b, 2 ^ (k + 12))" using g live(1) [OF m] by auto
      moreover have "0 < unat sz" using assms(4) by (auto simp: fits_slab_def word_le_nat_alt)
      ultimately show False unfolding disjoint_blocks_def fst_conv snd_conv by linarith
    qed
    then have "freelist (links s') (sl_nextfree (slabs s a)) fl"
      using g ok by (auto simp: slab_ok_def intro: freelist_cong [of "links s"])
    then show ?thesis using ok g live(2) [OF m] by (auto simp: slab_ok_def)
  qed
  moreover have "slab_ok s' sz k flags b (tl (slab_objects sz k flags b))" using assms(3,4) by (rule slab_ok_grown)
  ultimately show ?thesis using p g live(1) unfolding pool_def by (auto simp: sorted_wrt_append)
qed

lemma first_free_None: "first_free F = None \<longleftrightarrow> (\<forall>x \<in> set F. snd x = [])"
  by (auto simp: first_free_def find_None_iff)

text \<open>What \<open>slab_alloc\<close> does to the pool.\<close>

definition pool_step :: "u64 \<Rightarrow> nat \<Rightarrow> u64 \<Rightarrow> 'a slab_state_scheme \<Rightarrow> pool \<Rightarrow> addr \<Rightarrow> 'a slab_state_scheme \<Rightarrow> pool \<Rightarrow> bool" where
  "pool_step sz k flags s F ret s' F' \<longleftrightarrow> (case first_free F of
     Some (b, fl) \<Rightarrow> ret = hd fl \<and> F' = pool_set b (tl fl) F \<and> s' = take_object b (hd fl) s
   | None \<Rightarrow> ret = NULL \<and> s' = s \<and> F' = F
       \<or> (\<exists>b. ret = hd (slab_objects sz k flags b) \<and> F' = F @ [(b, tl (slab_objects sz k flags b))]
           \<and> grown sz k flags s (fst (last F)) b s'))"

lemma slab_alloc_pool:
  assumes "pool sz k flags s root F" "F \<noteq> []" "fits_slab sz k flags"
  shows "\<exists>ret s' F'. slab_alloc kmap root s = Some (ret, s') \<and> pool sz k flags s' root F' \<and> pool_step sz k flags s F ret s' F'"
proof -
  have p: "buddy_inv s" "chain s root F" "\<forall>x \<in> set F. slab_ok s sz k flags (fst x) (snd x)"
    using assms(1) by (auto simp: pool_def)
  show ?thesis
  proof (cases "first_free F")
    case None
    then have e: "\<forall>x \<in> set F. snd x = [] \<and> slab_ok s sz k flags (fst x) []" using p(3) by (metis first_free_None)
    from slab_alloc_append [OF assms(3) p(1,2) assms(2) e pool_distinct [OF assms(1)]] obtain ret s' where
      r: "slab_alloc kmap root s = Some (ret, s')" "ret = NULL \<and> s' = s \<or>
        (\<exists>b. ret = hd (slab_objects sz k flags b) \<and> grown sz k flags s (fst (last F)) b s')"
      by blast
    from r(2) show ?thesis
    proof
      assume "ret = NULL \<and> s' = s"
      then show ?thesis using r(1) assms(1) None unfolding pool_step_def by auto
    next
      assume "\<exists>b. ret = hd (slab_objects sz k flags b) \<and> grown sz k flags s (fst (last F)) b s'"
      then obtain b where b: "ret = hd (slab_objects sz k flags b)" "grown sz k flags s (fst (last F)) b s'" by blast
      have "pool_step sz k flags s F ret s' (F @ [(b, tl (slab_objects sz k flags b))])"
        using b None by (auto simp: pool_step_def)
      then show ?thesis using r(1) pool_grow [OF assms(1,2) b(2) assms(3)] by blast
    qed
  next
    case (Some bf)
    then obtain b x fl where f: "first_free F = Some (b, x # fl)"
      using first_free_mem by (metis list.exhaust surj_pair)
    have "\<forall>x \<in> set F. walkable s x" using p(3) by (metis slab_ok_walkable prod.collapse)
    from slab_alloc_first [OF p(2) this pool_distinct [OF assms(1)] f, of kmap]
    have "slab_alloc kmap root s = Some (x, take_object b x s)" .
    then show ?thesis using pool_take [OF assms(1) f] f by (auto simp: pool_step_def)
  qed
qed

section \<open>Objects in use never overlap\<close>

lemma pool_objects_apart:
  assumes "pool sz k flags s root F" "fits_slab sz k flags" "(a, fl) \<in> set F" "(b, gl) \<in> set F"
    and "x \<in> set (slab_objects sz k flags a)" "y \<in> set (slab_objects sz k flags b)" "a \<noteq> b \<or> x \<noteq> y"
  shows "disjoint_blocks (unat x, unat sz) (unat y, unat sz)"
proof -
  have p: "buddy_inv s" "(unat a, 2 ^ (k + 12)) \<in> buddy_live s" "(unat b, 2 ^ (k + 12)) \<in> buddy_live s"
    using assms(1,3,4) by (auto simp: pool_def slab_ok_def)
  note wa = slab_objects_within [OF p(1,2) assms(2)] and wb = slab_objects_within [OF p(1,3) assms(2)]
  show ?thesis
  proof (cases "a = b")
    case True
    then obtain i j where ij: "i < length (slab_objects sz k flags a)" "j < length (slab_objects sz k flags a)"
      "x = slab_objects sz k flags a ! i" "y = slab_objects sz k flags a ! j" "i \<noteq> j"
      using assms(5-7) by (metis in_set_conv_nth)
    then show ?thesis using wa(2) unfolding sorted_wrt_iff_nth_less disjoint_blocks_def fst_conv snd_conv
      by (metis linorder_neqE_nat)
  next
    case False
    obtain i j where ij: "i < length F" "j < length F" "F ! i = (a, fl)" "F ! j = (b, gl)"
      using assms(3,4) by (metis in_set_conv_nth)
    then have "i \<noteq> j" using False by auto
    have "disjoint_blocks (unat (fst (F ! u)), 2 ^ (k + 12)) (unat (fst (F ! v)), 2 ^ (k + 12))" if "u < v" "v < length F" for u v
      using assms(1) that by (simp add: pool_def sorted_wrt_iff_nth_less)
    from this [of i j] this [of j i] \<open>i \<noteq> j\<close> ij
    have "disjoint_blocks (unat a, 2 ^ (k + 12)) (unat b, 2 ^ (k + 12))"
      by (cases "i < j") (simp_all add: disjoint_blocks_sym [of "(unat a, _)"])
    then show ?thesis using wa(1) [OF assms(5)] wb(1) [OF assms(6)] unfolding disjoint_blocks_def by auto
  qed
qed

lemma pool_out_set:
  assumes "pool sz k flags s root F" "(b, fl) \<in> set F" "fits_slab sz k flags"
  shows "pool_out sz k flags (pool_set b gl F) =
    (pool_out sz k flags F - (\<lambda>x. (unat x, unat sz)) ` set (slab_objects sz k flags b))
      \<union> (\<lambda>x. (unat x, unat sz)) ` (set (slab_objects sz k flags b) - set gl)" (is "?L = ?R")
proof -
  have uniq: "a = b \<Longrightarrow> (a, hl) \<in> set F \<Longrightarrow> hl = fl" for a hl
    using pool_distinct [OF assms(1)] assms(2) by (metis eq_key_imp_eq_value)
  have mem: "(a, hl) \<in> set (pool_set b gl F) \<longleftrightarrow> (if a = b then hl = gl else (a, hl) \<in> set F)" for a hl
  proof
    show "(a, hl) \<in> set (pool_set b gl F) \<Longrightarrow> if a = b then hl = gl else (a, hl) \<in> set F" using pool_set_mem by blast
    show "if a = b then hl = gl else (a, hl) \<in> set F \<Longrightarrow> (a, hl) \<in> set (pool_set b gl F)"
      using assms(2) unfolding pool_set_def set_map
      by (cases "a = b") (simp_all add: rev_image_eqI [of "(b, fl)"] rev_image_eqI [of "(a, hl)"])
  qed
  have other: "unat x \<noteq> unat y" if "(a, hl) \<in> set F" "a \<noteq> b" "x \<in> set (slab_objects sz k flags a)" "y \<in> set (slab_objects sz k flags b)" for a hl x y
  proof -
    have "0 < unat sz" using assms(3) by (auto simp: fits_slab_def word_le_nat_alt)
    then show ?thesis
      using pool_objects_apart [OF assms(1,3) that(1) assms(2) that(3,4)] that(2) unfolding disjoint_blocks_def by auto
  qed
  show ?thesis
  proof
    show "?L \<subseteq> ?R"
    proof
      fix z assume "z \<in> ?L"
      then obtain a hl x where z: "(a, hl) \<in> set (pool_set b gl F)" "x \<in> set (slab_objects sz k flags a)" "x \<notin> set hl"
        "z = (unat x, unat sz)"
        unfolding pool_out_def by blast
      show "z \<in> ?R"
      proof (cases "a = b")
        case True
        then show ?thesis using z mem [of a hl] by simp
      next
        case False
        then have m: "(a, hl) \<in> set F" using z(1) mem [of a hl] by simp
        then have "z \<in> pool_out sz k flags F" using z unfolding pool_out_def by blast
        moreover have "z \<notin> (\<lambda>x. (unat x, unat sz)) ` set (slab_objects sz k flags b)"
          using z(4) other [OF m False z(2)] by auto
        ultimately show ?thesis by blast
      qed
    qed
    show "?R \<subseteq> ?L"
    proof
      fix z assume "z \<in> ?R"
      then consider (old_obj) a hl x where "(a, hl) \<in> set F" "x \<in> set (slab_objects sz k flags a)" "x \<notin> set hl" "z = (unat x, unat sz)"
          "z \<notin> (\<lambda>x. (unat x, unat sz)) ` set (slab_objects sz k flags b)"
        | (new_obj) x where "x \<in> set (slab_objects sz k flags b)" "x \<notin> set gl" "z = (unat x, unat sz)"
        unfolding pool_out_def by blast
      then show "z \<in> ?L"
      proof cases
        case old_obj
        then have "a \<noteq> b" by auto
        then show ?thesis using old_obj mem [of a hl] unfolding pool_out_def by fastforce
      next
        case new_obj
        then show ?thesis using mem [of b gl] unfolding pool_out_def by auto
      qed
    qed
  qed
qed

lemma pool_objects_nonnull:
  assumes "pool sz k flags s root F" "fits_slab sz k flags" "(a, fl) \<in> set F" "x \<in> set (slab_objects sz k flags a)"
  shows "x \<noteq> NULL"
  using slab_objects_within(1) [of s a k sz flags x] assms by (force simp: pool_def slab_ok_def)

lemma pool_out_mem:
  "z \<in> pool_out sz k flags F \<longleftrightarrow> (\<exists>a fl x. (a, fl) \<in> set F \<and> x \<in> set (slab_objects sz k flags a) \<and> x \<notin> set fl \<and> z = (unat x, unat sz))"
  by (force simp: pool_out_def)

lemma pool_out_take:
  assumes "pool sz k flags s root F" "fits_slab sz k flags" "(b, x # fl) \<in> set F"
  shows "pool_out sz k flags (pool_set b fl F) = insert (unat x, unat sz) (pool_out sz k flags F)"
    and "\<forall>z \<in> pool_out sz k flags F. disjoint_blocks z (unat x, unat sz)"
proof -
  have ok: "x \<in> set (slab_objects sz k flags b)" "x \<notin> set fl" using assms(1,3) by (auto simp: pool_def slab_ok_def)
  show "\<forall>z \<in> pool_out sz k flags F. disjoint_blocks z (unat x, unat sz)"
  proof
    fix z assume "z \<in> pool_out sz k flags F"
    then obtain a gl y where z: "(a, gl) \<in> set F" "y \<in> set (slab_objects sz k flags a)" "y \<notin> set gl" "z = (unat y, unat sz)"
      by (auto simp: pool_out_mem)
    have "a \<noteq> b \<or> y \<noteq> x"
      using z assms(3) pool_distinct [OF assms(1)] eq_key_imp_eq_value [of F b gl "x # fl"] by auto
    then show "disjoint_blocks z (unat x, unat sz)"
      using pool_objects_apart [OF assms(1,2) z(1) assms(3) z(2) ok(1)] z(4) by simp
  qed
  have "pool_out sz k flags F = pool_out sz k flags (pool_set b (x # fl) F)"
  proof -
    have u: "gl = x # fl" if "(b, gl) \<in> set F" for gl
      using that assms(3) pool_distinct [OF assms(1)] by (metis eq_key_imp_eq_value)
    have "pool_set b (x # fl) F = F"
      unfolding pool_set_def
    proof (rule map_idI)
      fix y assume y: "y \<in> set F"
      obtain a gl where "y = (a, gl)" by (metis surj_pair)
      then show "(case y of (a, gl) \<Rightarrow> (a, if a = b then x # fl else gl)) = y" using u y by auto
    qed
    then show ?thesis by simp
  qed
  then show "pool_out sz k flags (pool_set b fl F) = insert (unat x, unat sz) (pool_out sz k flags F)"
    using ok unfolding pool_out_set [OF assms(1,3,2)] by auto
qed

lemma pool_out_grow:
  assumes "pool sz k flags s' root (F @ [(b, tl (slab_objects sz k flags b))])" "fits_slab sz k flags"
  defines "x \<equiv> hd (slab_objects sz k flags b)"
  shows "pool_out sz k flags (F @ [(b, tl (slab_objects sz k flags b))]) = insert (unat x, unat sz) (pool_out sz k flags F)"
    and "\<forall>z \<in> pool_out sz k flags F. disjoint_blocks z (unat x, unat sz)" and "x \<noteq> NULL"
proof -
  let ?F = "F @ [(b, tl (slab_objects sz k flags b))]"
  have m: "(b, tl (slab_objects sz k flags b)) \<in> set ?F" by simp
  have "buddy_inv s'" "(unat b, 2 ^ (k + 12)) \<in> buddy_live s'" using assms(1) by (auto simp: pool_def slab_ok_def)
  note w = slab_objects_within [OF this assms(2)]
  obtain xs where xs: "slab_objects sz k flags b = x # xs" using w(4) by (cases "slab_objects sz k flags b") (auto simp: x_def)
  have d: "x \<notin> set xs" using w(3) xs by simp
  then have "(\<lambda>x. (unat x, unat sz)) ` (set (slab_objects sz k flags b) - set (tl (slab_objects sz k flags b))) = {(unat x, unat sz)}"
    by (auto simp: xs)
  then show "pool_out sz k flags ?F = insert (unat x, unat sz) (pool_out sz k flags F)"
    by (simp add: pool_out_def)
  show "x \<noteq> NULL" using pool_objects_nonnull [OF assms(1,2) m, of x] xs by simp
  show "\<forall>z \<in> pool_out sz k flags F. disjoint_blocks z (unat x, unat sz)"
  proof
    fix z assume "z \<in> pool_out sz k flags F"
    then obtain a gl y where z: "(a, gl) \<in> set F" "y \<in> set (slab_objects sz k flags a)" "z = (unat y, unat sz)"
      by (auto simp: pool_out_mem)
    have "a \<noteq> b" using z(1) pool_distinct [OF assms(1)] by force
    then show "disjoint_blocks z (unat x, unat sz)"
      using pool_objects_apart [OF assms(1,2) _ m z(2), of gl x] z(1,3) xs by simp
  qed
qed

section \<open>A cache as an allocator\<close>

definition cache_inv :: "u64 \<Rightarrow> nat \<Rightarrow> u64 \<Rightarrow> addr \<Rightarrow> 'a slab_state_scheme \<Rightarrow> bool" where
  "cache_inv sz k flags root s \<longleftrightarrow> fits_slab sz k flags \<and> root \<noteq> NULL \<and> (\<exists>F. pool sz k flags s root F)"

definition cache_live :: "u64 \<Rightarrow> nat \<Rightarrow> u64 \<Rightarrow> addr \<Rightarrow> 'a slab_state_scheme \<Rightarrow> (nat \<times> nat) set" where
  "cache_live sz k flags root s = (\<Union>F \<in> {F. pool sz k flags s root F}. pool_out sz k flags F)"

lemma cache_live_pool:
  assumes "pool sz k flags s root F"
  shows "cache_live sz k flags root s = pool_out sz k flags F"
proof -
  have "{G. pool sz k flags s root G} = {F}" using assms pool_unique by (auto intro: pool_unique)
  then show ?thesis by (simp add: cache_live_def)
qed

lemma cache_alloc_law:
  assumes "cache_inv sz k flags root s"
  shows "\<exists>p s'. slab_alloc kmap root s = Some (p, s') \<and> cache_inv sz k flags root s' \<and>
    (if p = NULL then s' = s else cache_live sz k flags root s' = insert (unat p, unat sz) (cache_live sz k flags root s)
       \<and> (\<forall>x \<in> cache_live sz k flags root s. disjoint_blocks x (unat p, unat sz)))"
proof -
  obtain F where F: "pool sz k flags s root F" and fit: "fits_slab sz k flags" and r: "root \<noteq> NULL"
    using assms by (auto simp: cache_inv_def)
  have ne: "F \<noteq> []" using F r by (auto simp: pool_def)
  obtain p s' F' where a: "slab_alloc kmap root s = Some (p, s')" "pool sz k flags s' root F'" "pool_step sz k flags s F p s' F'"
    using slab_alloc_pool [OF F ne fit] by blast
  have inv: "cache_inv sz k flags root s'" using a(2) fit r by (auto simp: cache_inv_def)
  have "if p = NULL then s' = s else pool_out sz k flags F' = insert (unat p, unat sz) (pool_out sz k flags F)
     \<and> (\<forall>x \<in> pool_out sz k flags F. disjoint_blocks x (unat p, unat sz))"
  proof (cases "first_free F")
    case None
    then consider "p = NULL" "s' = s" | b where "p = hd (slab_objects sz k flags b)" "F' = F @ [(b, tl (slab_objects sz k flags b))]"
      using a(3) by (auto simp: pool_step_def)
    then show ?thesis
    proof cases
      case 2
      note g = pool_out_grow [OF a(2) [unfolded 2(2)] fit, folded 2(1)]
      then show ?thesis using 2(2) by simp
    qed simp
  next
    case (Some bf)
    then obtain b x fl where f: "first_free F = Some (b, x # fl)" using first_free_mem by (metis list.exhaust surj_pair)
    then have m: "(b, x # fl) \<in> set F" using first_free_mem by blast
    then have "x \<noteq> NULL" using pool_objects_nonnull [OF F fit, of b "x # fl" x] F by (auto simp: pool_def slab_ok_def)
    then show ?thesis using a(3) f pool_out_take [OF F fit m] by (simp add: pool_step_def)
  qed
  then show ?thesis using a(1) inv cache_live_pool [OF F] cache_live_pool [OF a(2)] by simp
qed

lemma cache_alloc_more:
  assumes "cache_inv sz k flags root s" "slab_alloc kmap root s = Some (p, s')"
  shows "slab_state.more s' = slab_state.more s"
proof -
  obtain F where F: "pool sz k flags s root F" "fits_slab sz k flags" "root \<noteq> NULL" using assms(1) by (auto simp: cache_inv_def)
  then have "F \<noteq> []" by (auto simp: pool_def)
  then have "\<exists>F'. pool_step sz k flags s F p s' F'" using slab_alloc_pool [OF F(1) _ F(2), of kmap] assms(2) by auto
  then show ?thesis by (auto simp: pool_step_def take_object_def grown_def split: option.splits)
qed

text \<open>A cache does not depend on the parts of the state that later components add.\<close>

lemma pool_cong:
  assumes "buddy_state.truncate s' = buddy_state.truncate s" "slabs s' = slabs s" "links s' = links s"
  shows "pool sz k flags s' = pool sz k flags s"
proof -
  have b: "buddy_inv s' = buddy_inv s" "buddy_live s' = buddy_live s" using assms(1) by (metis buddy_inv_truncate)+
  have "chain s' p F = chain s p F" for p F by (induction F arbitrary: p) (simp_all add: assms)
  moreover have "slab_ok s' sz k flags a fl = slab_ok s sz k flags a fl" for a fl by (simp add: slab_ok_def assms b)
  ultimately show ?thesis by (simp add: fun_eq_iff pool_def b)
qed

section \<open>Release\<close>

definition give_object :: "addr \<Rightarrow> addr \<Rightarrow> 'a slab_state_scheme \<Rightarrow> 'a slab_state_scheme" where
  "give_object a p s = upd_slab a (\<lambda>sl. sl\<lparr>sl_free := sl_free sl + 1, sl_nextfree := p\<rparr>)
     (s\<lparr>links := (links s)(p := sl_nextfree (slabs s a))\<rparr>)"

text \<open>The range the search loop accepts for the first slab of a cache.\<close>

definition root_range :: "u64 \<Rightarrow> nat \<Rightarrow> u64 \<Rightarrow> addr \<Rightarrow> addr \<Rightarrow> bool" where
  "root_range sz k flags root p \<longleftrightarrow> (root OR align_of flags) + 1 \<le> p
     \<and> p \<le> (root OR align_of flags) + 1 + sz * slab_num root sz (2 ^ (k + 12)) (align_of flags)"

lemma slab_range_lock [simp]: "slab_range a (upd_slab b (sl_lock_update f) s) = slab_range a s"
  by (simp add: slab_range_def)

lemma slab_range_ok:
  "slab_ok s sz k flags a fl \<Longrightarrow> slab_range a s =
     ((a OR align_of flags) + 1, (a OR align_of flags) + 1 + sz * slab_num a sz (2 ^ (k + 12)) (align_of flags))"
  by (simp add: slab_range_def slab_ok_def Let_def)

lemma slab_free_root:
  assumes "slab_ok s sz k flags root fl" "root_range sz k flags root p" "sl_prev (slabs s root) = NULL" "p \<noteq> NULL"
  shows "slab_free kmap root p s = Some (give_object root p s)"
proof -
  have w: "root \<noteq> NULL" "sl_lock (slabs s root) = 0" using assms(1) by (auto simp: slab_ok_def)
  obtain low high where r: "slab_range root s = (low, high)" by fastforce
  then have "\<not> (p < low \<or> high < p)"
    using assms(2) slab_range_ok [OF assms(1)] by (auto simp: root_range_def not_less)
  then have "slab_free_find p low high root s' = Some root" for s' :: "'a slab_state_scheme"
    by (subst slab_free_find.simps) simp
  then show ?thesis
    using w assms(3,4) r unfolding slab_free_def
    by (simp add: Let_def upd_slab_twice give_object_def) (cases "slabs s root", simp add: upd_slab_def)
qed

lemma slab_ok_give:
  assumes "slab_ok s sz k flags a fl" "p \<in> set (slab_objects sz k flags a)" "p \<notin> set fl" "p \<noteq> NULL"
  shows "slab_ok (give_object a p s) sz k flags a (p # fl)"
proof -
  note ok = assms(1) [unfolded slab_ok_def]
  have "length (p # fl) \<le> length (slab_objects sz k flags a)"
    using ok assms(2,3) distinct_card [of "p # fl"] card_mono [of "set (slab_objects sz k flags a)" "set (p # fl)"]
      card_length [of "slab_objects sz k flags a"] by simp
  also have "\<dots> = unat (slab_num a sz (2 ^ (k + 12)) (align_of flags))" by (simp add: slab_objects_def)
  finally have "unat (sl_free (slabs s a)) + 1 < 2 ^ 64"
    using ok unsigned_less [of "slab_num a sz (2 ^ (k + 12)) (align_of flags)", where ?'a = nat] by simp
  then have "unat (sl_free (slabs s a) + 1) = length (p # fl)" using ok by (simp add: unat_plus_if')
  moreover have "freelist ((links s)(p := sl_nextfree (slabs s a))) (sl_nextfree (slabs s a)) fl"
    by (rule freelist_cong [of "links s"]) (use ok assms(3) in auto)
  ultimately show ?thesis using ok assms(2-4) by (simp add: slab_ok_def give_object_def)
qed

lemma pool_give:
  assumes "pool sz k flags s root F" "fits_slab sz k flags" "(a, fl) \<in> set F" "p \<in> set (slab_objects sz k flags a)" "p \<notin> set fl"
  shows "pool sz k flags (give_object a p s) root (pool_set a (p # fl) F)"
    and "pool_out sz k flags (pool_set a (p # fl) F) = pool_out sz k flags F - {(unat p, unat sz)}"
proof -
  have ok: "slab_ok s sz k flags a fl" using assms(1,3) by (auto simp: pool_def)
  have nn: "p \<noteq> NULL" using pool_objects_nonnull [OF assms(1,2,3,4)] .
  have sz: "0 < unat sz" using assms(2) by (auto simp: fits_slab_def word_le_nat_alt)
  have other: "p \<notin> set gl" if "(b, gl) \<in> set F" "b \<noteq> a" for b gl
  proof
    assume "p \<in> set gl"
    then have "p \<in> set (slab_objects sz k flags b)" using assms(1) that(1) by (auto simp: pool_def slab_ok_def)
    from pool_objects_apart [OF assms(1,2) that(1) assms(3) this assms(4)] that(2) sz
    show False by (auto simp: disjoint_blocks_def)
  qed
  show p: "pool sz k flags (give_object a p s) root (pool_set a (p # fl) F)"
    using assms(1)
  proof (rule pool_change)
    show "slab_ok (give_object a p s) sz k flags a (p # fl)" using ok assms(4,5) nn by (rule slab_ok_give)
    show "\<forall>b gl. (b, gl) \<in> set F \<longrightarrow> b \<noteq> a \<longrightarrow> (\<forall>x \<in> set gl. links (give_object a p s) x = links s x)"
      using other by (auto simp: give_object_def)
  qed (use assms(1) in \<open>auto simp: give_object_def pool_def\<close>)
  have "(a, p # fl) \<in> set (pool_set a (p # fl) F)" using assms(3) by (force simp: pool_set_def)
  note t = pool_out_take(1,2) [OF p assms(2) this]
  have "pool_set a fl (pool_set a (p # fl) F) = F"
  proof -
    have "gl = fl" if "(a, gl) \<in> set F" for gl
      using that assms(3) pool_distinct [OF assms(1)] by (metis eq_key_imp_eq_value)
    then show ?thesis unfolding pool_set_def map_map by (intro map_idI) auto
  qed
  moreover have "(unat p, unat sz) \<notin> pool_out sz k flags (pool_set a (p # fl) F)"
    using t(2) disjoint_blocks_same [of "unat p" "unat sz"] sz by auto
  ultimately show "pool_out sz k flags (pool_set a (p # fl) F) = pool_out sz k flags F - {(unat p, unat sz)}"
    using t(1) by simp
qed

definition cache_freeable :: "u64 \<Rightarrow> nat \<Rightarrow> u64 \<Rightarrow> addr \<Rightarrow> 'a slab_state_scheme \<Rightarrow> addr \<Rightarrow> bool" where
  "cache_freeable sz k flags root s p \<longleftrightarrow> sl_prev (slabs s root) = NULL \<and> p \<in> set (slab_objects sz k flags root)
     \<and> root_range sz k flags root p"

lemma cache_cong:
  assumes "buddy_state.truncate s' = buddy_state.truncate s" "slabs s' = slabs s" "links s' = links s"
  shows "cache_inv sz k flags root s' = cache_inv sz k flags root s" "cache_live sz k flags root s' = cache_live sz k flags root s"
    "cache_freeable sz k flags root s' p = cache_freeable sz k flags root s p"
  by (simp_all add: cache_inv_def cache_live_def cache_freeable_def pool_cong [OF assms] assms)

lemma cache_free_law:
  assumes "cache_inv sz k flags root s" "(unat p, l) \<in> cache_live sz k flags root s" "cache_freeable sz k flags root s p"
  shows "\<exists>s'. slab_free kmap root p s = Some s' \<and> cache_inv sz k flags root s'
    \<and> cache_live sz k flags root s' = cache_live sz k flags root s - {(unat p, l)}"
proof -
  obtain F where F: "pool sz k flags s root F" and fit: "fits_slab sz k flags" and r: "root \<noteq> NULL"
    using assms(1) by (auto simp: cache_inv_def)
  obtain fl F' where F': "F = (root, fl) # F'" using F r by (cases F) (auto simp: pool_def)
  then have m: "(root, fl) \<in> set F" by simp
  note fr = assms(3) [unfolded cache_freeable_def]
  have l: "l = unat sz" "p \<notin> set fl"
  proof -
    obtain a gl x where x: "(a, gl) \<in> set F" "x \<in> set (slab_objects sz k flags a)" "x \<notin> set gl" "unat p = unat x" "l = unat sz"
      using assms(2) unfolding cache_live_pool [OF F] pool_out_mem by auto
    then show "l = unat sz" by simp
    have px: "p = x" using x(4) by (simp add: word_unat_eq_iff)
    have "0 < unat sz" using fit by (auto simp: fits_slab_def word_le_nat_alt)
    then have "a = root"
      using pool_objects_apart [OF F fit x(1) m x(2), of p] fr px disjoint_blocks_same [of "unat p" "unat sz"] by auto
    then show "p \<notin> set fl" using x(1,3) m pool_distinct [OF F] px by (metis eq_key_imp_eq_value)
  qed
  have ok: "slab_ok s sz k flags root fl" using F m by (auto simp: pool_def)
  have "p \<noteq> NULL" using pool_objects_nonnull [OF F fit m] fr by blast
  then have "slab_free kmap root p s = Some (give_object root p s)" using slab_free_root [OF ok] fr by blast
  moreover note g = pool_give [OF F fit m _ l(2)]
  ultimately show ?thesis
    using fr r fit l(1) cache_live_pool [OF F] cache_live_pool [OF g(1)] by (auto simp: cache_inv_def)
qed

interpretation cache: block_allocator "cache_inv sz k flags root" "cache_live sz k flags root" "\<lambda>_ :: unit. True" "\<lambda>_. unat sz"
    "\<lambda>_. slab_alloc kmap root" "cache_freeable sz k flags root" "slab_free kmap root"
  for sz k flags root kmap
  by unfold_locales (rule cache_alloc_law cache_free_law; assumption)+

section \<open>Properties\<close>

text \<open>
  A state for the witnesses: the block of \<open>full_state\<close> is a slab with three objects of 2048 bytes, of
  which the first is in use.
\<close>

definition cache_root :: addr where "cache_root = 0xFFFF800000100000"

definition cache_state :: slab_state where
  "cache_state = \<lparr>ram = full_ram, headers = headers full_state, mem_regions = mem_regions full_state,
     hhdm_start = hhdm_start full_state,
     slabs = (\<lambda>_. (new_slab cache_root 0x800 0x2000 0)\<lparr>sl_free := 2, sl_nextfree := cache_root + 2128\<rparr>),
     links = (\<lambda>p. if p = cache_root + 2128 then cache_root + 4176 else 0), kdefault_attrs = 3\<rparr>"

lemma cache_state_buddy: "buddy_inv cache_state" "(unat cache_root, 0x2000) \<in> buddy_live cache_state"
proof -
  have t: "buddy_state.truncate cache_state = buddy_state.truncate full_state"
    by (simp add: buddy_state.defs cache_state_def full_state_def)
  show "buddy_inv cache_state" using full_state_inv(1) by (metis buddy_inv_truncate(1) t)
  show "(unat cache_root, 0x2000) \<in> buddy_live cache_state"
    using full_state_inv(2) by (simp add: buddy_inv_truncate(2) [of cache_state] t cache_root_def flip: buddy_inv_truncate(2))
qed

lemma cache_fits: "fits_slab 0x800 1 0"
  by (simp add: fits_slab_def align_bits_def)

lemma cache_objects: "slab_objects 0x800 1 0 cache_root = [cache_root + 80, cache_root + 2128, cache_root + 4176]"
proof -
  have "slab_start cache_root (align_of 0) = cache_root + 80"
    by (simp add: slab_start_def align_of_def SLAB_ALIGN_def cache_root_def slab_header_def)
  moreover have "slab_num cache_root 0x800 0x2000 (align_of 0) = 3"
    by (simp add: slab_num_def slab_start_def align_of_def SLAB_ALIGN_def cache_root_def slab_header_def)
  ultimately show ?thesis by (simp add: slab_objects_def objects_def upt_rec)
qed

lemma cache_pool: "pool 0x800 1 0 cache_state cache_root [(cache_root, [cache_root + 2128, cache_root + 4176])]"
proof -
  have "freelist (links cache_state) (cache_root + 2128) [cache_root + 2128, cache_root + 4176]"
    by (simp add: cache_state_def cache_root_def)
  then have "slab_ok cache_state 0x800 1 0 cache_root [cache_root + 2128, cache_root + 4176]"
    using cache_state_buddy(2) unfolding slab_ok_def cache_objects
    by (simp add: cache_state_def new_slab_def) (simp add: cache_root_def)
  moreover have "chain cache_state cache_root [(cache_root, [cache_root + 2128, cache_root + 4176])]"
    by (simp add: cache_state_def new_slab_def)
  ultimately show ?thesis using cache_state_buddy(1) by (simp add: pool_def)
qed

lemma cache_state_inv: "cache_inv 0x800 1 0 cache_root cache_state"
  using cache_pool cache_fits by (auto simp: cache_inv_def cache_root_def)

text \<open>
  C18. A new slab is a fresh buddy block whose objects all lie between the header and the end of the
  block, do not overlap and are all on its free list, in order of their addresses; when no block is
  free the result is \<open>NULL\<close> and nothing has changed.
\<close>

theorem slab_create_fresh:
  assumes "buddy_inv s" "fits_slab sz k flags"
  shows "\<exists>ret s'. slab_create kmap sz (2 ^ (k + 12)) flags s = Some (ret, s')
    \<and> (if ret = NULL then s' = s
       else (\<forall>x \<in> buddy_live s. disjoint_blocks x (unat ret, 2 ^ (k + 12)))
         \<and> pool sz k flags s' ret [(ret, slab_objects sz k flags ret)]
         \<and> slab_objects sz k flags ret \<noteq> []
         \<and> sorted_wrt (\<lambda>x y. unat x + unat sz \<le> unat y) (slab_objects sz k flags ret)
         \<and> (\<forall>x \<in> set (slab_objects sz k flags ret). unat ret + 80 \<le> unat x \<and> unat x + unat sz \<le> unat ret + 2 ^ (k + 12)))"
proof -
  obtain ret s' where c: "slab_create kmap sz (2 ^ (k + 12)) flags s = Some (ret, s')"
    "ret = NULL \<and> s' = s \<or> ret \<noteq> NULL \<and> created sz k flags s ret s'"
    using slab_create_law [OF assms] by blast
  show ?thesis
  proof (cases "ret = NULL")
    case True
    then show ?thesis using c by auto
  next
    case False
    then have cr: "created sz k flags s ret s'" using c(2) by blast
    note o = new_slab_objs [OF cr] and d = cr [unfolded created_def new_slab_objs [OF cr]]
    have ns: "slabs s' ret = new_slab ret sz (2 ^ (k + 12)) flags" "(unat ret, 2 ^ (k + 12)) \<in> buddy_live s'" using d by simp_all
    have "freelist (links s') (sl_nextfree (slabs s' ret)) (slab_objects sz k flags ret)" "distinct (slab_objects sz k flags ret)"
      using d unfolding slab_holds_def by blast+
    then have "slab_ok s' sz k flags ret (slab_objects sz k flags ret)"
      using False ns by (simp add: slab_ok_def) (simp add: new_slab_def slab_objects_def)
    then have "pool sz k flags s' ret [(ret, slab_objects sz k flags ret)]" using d ns(1) by (simp add: pool_def new_slab_def)
    then show ?thesis using c(1) d False by auto
  qed
qed

theorem slab_create_fresh_witness:
  "\<exists>ret s'. slab_create (\<lambda>_ _ _ _. Some) 0x800 (2 ^ (1 + 12)) 0 cache_state = Some (ret, s')
    \<and> (if ret = NULL then s' = cache_state
       else (\<forall>x \<in> buddy_live cache_state. disjoint_blocks x (unat ret, 2 ^ (1 + 12)))
         \<and> pool 0x800 1 0 s' ret [(ret, slab_objects 0x800 1 0 ret)]
         \<and> slab_objects 0x800 1 0 ret \<noteq> []
         \<and> sorted_wrt (\<lambda>x y. unat x + unat (0x800 :: u64) \<le> unat y) (slab_objects 0x800 1 0 ret)
         \<and> (\<forall>x \<in> set (slab_objects 0x800 1 0 ret). unat ret + 80 \<le> unat x \<and> unat x + unat (0x800 :: u64) \<le> unat ret + 2 ^ (1 + 12)))"
  using cache_state_buddy(1) cache_fits by (rule slab_create_fresh)

text \<open>
  C3. Any number of \<open>slab_alloc\<close> calls on a cache returns, the chain growing as needed; the objects
  obtained overlap neither each other nor any object in use, and exactly those are added to the
  objects in use.
\<close>

theorem slab_alloc_sequence:
  assumes "cache_inv sz k flags root s"
  shows "\<exists>ps s'. alloc_list (\<lambda>_ :: unit. slab_alloc kmap root) (\<lambda>_. unat sz) rs s = Some (ps, s')
    \<and> cache_inv sz k flags root s' \<and> cache_live sz k flags root s' = cache_live sz k flags root s \<union> set (got ps)
    \<and> sorted_wrt disjoint_blocks (got ps) \<and> (\<forall>x \<in> cache_live sz k flags root s. \<forall>y \<in> set (got ps). disjoint_blocks x y)"
  using cache.alloc_list_disjoint [OF assms, of rs kmap] by simp

theorem slab_alloc_sequence_witness:
  "\<exists>ps s'. alloc_list (\<lambda>_ :: unit. slab_alloc (\<lambda>_ _ _ _. Some) cache_root) (\<lambda>_. unat (0x800 :: u64)) [(), (), ()] cache_state = Some (ps, s')
    \<and> cache_inv 0x800 1 0 cache_root s'
    \<and> cache_live 0x800 1 0 cache_root s' = cache_live 0x800 1 0 cache_root cache_state \<union> set (got ps)
    \<and> sorted_wrt disjoint_blocks (got ps)
    \<and> (\<forall>x \<in> cache_live 0x800 1 0 cache_root cache_state. \<forall>y \<in> set (got ps). disjoint_blocks x y)"
  using cache_state_inv by (rule slab_alloc_sequence)

text \<open>
  C19. Releasing an object of the first slab of a cache, within the range the search accepts, returns,
  keeps the invariant and removes exactly that object from the objects in use.
\<close>

theorem slab_free_object:
  assumes "cache_inv sz k flags root s" "(unat p, l) \<in> cache_live sz k flags root s" "cache_freeable sz k flags root s p"
  shows "\<exists>s'. slab_free kmap root p s = Some s' \<and> cache_inv sz k flags root s'
    \<and> cache_live sz k flags root s' = cache_live sz k flags root s - {(unat p, l)}"
  using assms by (rule cache.free_law)

theorem slab_free_object_witness:
  "\<exists>s'. slab_free (\<lambda>_ _ _ _. Some) cache_root (cache_root + 80) cache_state = Some s' \<and> cache_inv 0x800 1 0 cache_root s'
    \<and> cache_live 0x800 1 0 cache_root s' = cache_live 0x800 1 0 cache_root cache_state - {(unat (cache_root + 80), 0x800)}"
proof (rule slab_free_object [OF cache_state_inv])
  show "(unat (cache_root + 80), 0x800) \<in> cache_live 0x800 1 0 cache_root cache_state"
    unfolding cache_live_pool [OF cache_pool] pool_out_def
    by (simp add: cache_objects [unfolded One_nat_def])
  have "slab_num cache_root 0x800 0x2000 (align_of 0) = 3"
    by (simp add: slab_num_def slab_start_def align_of_def SLAB_ALIGN_def cache_root_def slab_header_def)
  then show "cache_freeable 0x800 1 0 cache_root cache_state (cache_root + 80)"
    unfolding cache_freeable_def cache_objects root_range_def
    by (simp add: cache_state_def new_slab_def align_of_def SLAB_ALIGN_def) (simp add: cache_root_def)
qed

text \<open>
  C38. In a cache with two slabs, releasing an object of the second slab leaves everything as it was:
  the search compares the object with the range of the first slab twice and reaches the end of the
  chain, so the object is lost.
\<close>

theorem slab_free_second_slab_lost:
  assumes "pool sz k flags s root [(root, fl), (b, gl)]" "\<not> root_range sz k flags root p"
  shows "slab_free kmap root p s = Some s"
proof (cases "p = NULL")
  case True
  then show ?thesis by (simp add: slab_free_def)
next
  case False
  have ok: "slab_ok s sz k flags root fl" and n: "sl_next (slabs s root) = b" "sl_next (slabs s b) = NULL" "b \<noteq> NULL" "b \<noteq> root"
    using assms(1) pool_distinct [OF assms(1)] by (auto simp: pool_def slab_ok_def)
  have w: "root \<noteq> NULL" "sl_lock (slabs s root) = 0" using ok by (auto simp: slab_ok_def)
  obtain low high where r: "slab_range root s = (low, high)" by fastforce
  then have out: "p < low \<or> high < p" using assms(2) slab_range_ok [OF ok] by (auto simp: root_range_def not_le)
  have "slab_free_find p low high root (upd_slab root (sl_lock_update (\<lambda>_. 1)) s) = Some NULL"
    using out n r by (subst slab_free_find.simps, subst slab_free_find.simps) (simp add: Let_def case_prod_beta)
  then show ?thesis
    using w False r unfolding slab_free_def
    by (simp add: Let_def upd_slab_twice) (rule upd_slab_same, cases "slabs s root", simp)
qed

text \<open>The two pages of \<open>small_state\<close> handed out one by one, as the two slabs of a cache.\<close>

definition pages_ram :: mem where
  "pages_ram = buddy_bitmap_set 0xFFFF800000008020 (of_nat 1) (of_nat 1) BBMAP_USED
     (buddy_bitmap_set 0xFFFF800000008020 (of_nat 1) (of_nat 0) BBMAP_USED
     (buddy_bitmap_set 0xFFFF800000008020 (of_nat 0) (of_nat 0) BBMAP_SPLIT (\<lambda>_. 0)))"

lemma pages_entries:
  "entry 0xFFFF800000008020 pages_ram 0 0 = BBMAP_SPLIT" "entry 0xFFFF800000008020 pages_ram 1 0 = BBMAP_USED"
  "entry 0xFFFF800000008020 pages_ram 1 1 = BBMAP_USED"
proof -
  have n: "bnode 0 0" "bnode 1 0" "bnode 1 1" by (simp_all add: bnode_def)
  have v: "BBMAP_USED \<in> {BBMAP_FREE, BBMAP_SPLIT, BBMAP_USED}" "BBMAP_SPLIT \<in> {BBMAP_FREE, BBMAP_SPLIT, BBMAP_USED}" by auto
  note e = entry_set [OF n(3,1) v(1)] entry_set [OF n(2,1) v(1)] entry_set [OF n(1,1) v(2)]
    entry_set [OF n(3,2) v(1)] entry_set [OF n(3,3) v(1)] entry_set [OF n(2,2) v(1)]
  show "entry 0xFFFF800000008020 pages_ram 0 0 = BBMAP_SPLIT" "entry 0xFFFF800000008020 pages_ram 1 0 = BBMAP_USED"
    "entry 0xFFFF800000008020 pages_ram 1 1 = BBMAP_USED"
    unfolding pages_ram_def e by simp_all
qed

lemma pages_ram_holds: "region_holds two_pages 0xFFFF800000008020 pages_ram 1 (Split Used Used)"
  using pages_entries two_pages_ok by (simp add: region_holds_def)

lemma pages_ram_keeps: "keeps 0xFFFF800000008020 1 (\<lambda>_. 0) pages_ram"
  unfolding pages_ram_def by (intro keeps_trans [OF _ set_keeps] keeps_refl) (simp_all add: bnode_def)

definition chain_state :: slab_state where
  "chain_state = \<lparr>ram = pages_ram, headers = headers small_state, mem_regions = mem_regions small_state,
     hhdm_start = hhdm_start small_state,
     slabs = (\<lambda>p. if p = cache_root
       then (new_slab cache_root 0x400 0x1000 0)\<lparr>sl_free := 0, sl_nextfree := NULL, sl_next := cache_root + 0x1000\<rparr>
       else (new_slab (cache_root + 0x1000) 0x400 0x1000 0)\<lparr>sl_free := 0, sl_nextfree := NULL, sl_prev := cache_root\<rparr>),
     links = (\<lambda>_. 0), kdefault_attrs = 3\<rparr>"

lemma chain_state_buddy:
  "buddy_inv chain_state" "(unat cache_root, 0x1000) \<in> buddy_live chain_state"
  "(unat (cache_root + 0x1000), 0x1000) \<in> buddy_live chain_state"
proof -
  note u = region_update [OF small_state_inv, of small_region pages_ram "Split Used Used", unfolded small_state_simps,
      OF _ pages_ram_holds pages_ram_keeps]
  let ?s = "small_state\<lparr>ram := pages_ram\<rparr>"
  have t: "buddy_state.truncate chain_state = buddy_state.truncate ?s" by (simp add: buddy_state.defs chain_state_def)
  have "buddy_inv ?s" using u(1) by simp
  then show "buddy_inv chain_state" by (metis buddy_inv_truncate(1) t)
  have "region_blocks ?s small_region = {(0x100000, 0x1000), (0x101000, 0x1000)}"
    using u(2) by (auto simp: blocks_def two_pages_def)
  then have "{(0xFFFF800000100000, 0x1000), (0xFFFF800000101000, 0x1000)} \<subseteq> buddy_live ?s"
    by (simp add: buddy_live_def small_state_simps)
  then show "(unat cache_root, 0x1000) \<in> buddy_live chain_state" "(unat (cache_root + 0x1000), 0x1000) \<in> buddy_live chain_state"
    by (simp_all add: buddy_inv_truncate(2) [of chain_state] t cache_root_def flip: buddy_inv_truncate(2))
qed

theorem slab_free_second_slab_lost_witness:
  "slab_free (\<lambda>_ _ _ _. Some) cache_root (cache_root + 0x1000 + 80) chain_state = Some chain_state"
proof (rule slab_free_second_slab_lost)
  have "slab_ok chain_state 0x400 0 0 cache_root []" "slab_ok chain_state 0x400 0 0 (cache_root + 0x1000) []"
    using chain_state_buddy by (simp_all add: slab_ok_def, simp_all add: chain_state_def new_slab_def cache_root_def)
  then show "pool 0x400 0 0 chain_state cache_root [(cache_root, []), (cache_root + 0x1000, [])]"
    using chain_state_buddy(1) by (simp add: pool_def) (simp add: chain_state_def new_slab_def cache_root_def disjoint_blocks_def)
  show "\<not> root_range 0x400 0 0 cache_root (cache_root + 0x1000 + 80)"
    by (simp add: root_range_def slab_num_def slab_start_def align_of_def SLAB_ALIGN_def cache_root_def slab_header_def)
qed

end
