(* ===== verification/Rbtree.thy ===== *)
theory Rbtree
  imports Slab_Pool
begin

unbundle bit_operations_syntax

text \<open>
  \<^verbatim>\<open>lib/rbtree.c\<close>: red-black trees of nodes that link to their parent and children by address. The
  nodes are a typed store; \<open>struct rbtree\<close>, which callers embed in their own structures and pass by
  reference, is a value that operations take and return. Following a \<open>NULL\<close> pointer is \<open>None\<close>.
\<close>

definition RB_RED :: int where "RB_RED = 0"
definition RB_BLACK :: int where "RB_BLACK = 1"

record rbnode =
  rb_parent :: addr
  rb_left :: addr
  rb_right :: addr
  rb_color :: int
  rb_key :: u64
  rb_value :: u64
  rb_value2 :: u64
  rb_value3 :: u64

definition rbnode_size :: u64 where "rbnode_size = 64"

record rbtree =
  rt_root :: addr
  rt_lock :: u32
  rt_num_nodes :: u64

type_synonym nodes = "addr \<Rightarrow> rbnode"

record rbt_state = slab_state +
  rbnodes :: nodes
  rbt_slab :: addr

definition nd :: "nodes \<Rightarrow> addr \<Rightarrow> rbnode option" where
  "nd h p = (if p = NULL then None else Some (h p))"

definition setn :: "addr \<Rightarrow> (rbnode \<Rightarrow> rbnode) \<Rightarrow> nodes \<Rightarrow> nodes option" where
  "setn p f h = (if p = NULL then None else Some (h(p := f (h p))))"

abbreviation set_color :: "addr \<Rightarrow> int \<Rightarrow> nodes \<Rightarrow> nodes option" where
  "set_color p c \<equiv> setn p (rb_color_update (\<lambda>_. c))"

definition rbt_slab_init :: "'a rbt_state_ext kmap_fun \<Rightarrow> 'a rbt_state_scheme \<Rightarrow> 'a rbt_state_scheme option" where
  "rbt_slab_init kmap s = do {
     (p, s) \<leftarrow> slab_create kmap rbnode_size 0x100000 0 s;
     Some (s\<lparr>rbt_slab := p\<rparr>)
   }"

section \<open>Rotations\<close>

definition rbt_rotate_right :: "addr \<Rightarrow> rbtree \<Rightarrow> nodes \<Rightarrow> (rbtree \<times> nodes) option" where
  "rbt_rotate_right node tree h = do {
     n \<leftarrow> nd h node;
     let left = rb_left n;
     l \<leftarrow> nd h left;
     let lr = rb_right l;
     h \<leftarrow> setn node (rb_left_update (\<lambda>_. lr)) h;
     h \<leftarrow> (if lr \<noteq> NULL then setn lr (rb_parent_update (\<lambda>_. node)) h else Some h);
     let p = rb_parent (h node);
     h \<leftarrow> setn left (rb_parent_update (\<lambda>_. p)) h;
     (tree, h) \<leftarrow> (if p = NULL then Some (tree\<lparr>rt_root := left\<rparr>, h)
        else if node = rb_right (h p) then do { h \<leftarrow> setn p (rb_right_update (\<lambda>_. left)) h; Some (tree, h) }
        else do { h \<leftarrow> setn p (rb_left_update (\<lambda>_. left)) h; Some (tree, h) });
     h \<leftarrow> setn left (rb_right_update (\<lambda>_. node)) h;
     h \<leftarrow> setn node (rb_parent_update (\<lambda>_. left)) h;
     Some (tree, h)
   }"

definition rbt_rotate_left :: "addr \<Rightarrow> rbtree \<Rightarrow> nodes \<Rightarrow> (rbtree \<times> nodes) option" where
  "rbt_rotate_left node tree h = do {
     n \<leftarrow> nd h node;
     let right = rb_right n;
     r \<leftarrow> nd h right;
     let rl = rb_left r;
     h \<leftarrow> setn node (rb_right_update (\<lambda>_. rl)) h;
     h \<leftarrow> (if rl \<noteq> NULL then setn rl (rb_parent_update (\<lambda>_. node)) h else Some h);
     let p = rb_parent (h node);
     h \<leftarrow> setn right (rb_parent_update (\<lambda>_. p)) h;
     (tree, h) \<leftarrow> (if p = NULL then Some (tree\<lparr>rt_root := right\<rparr>, h)
        else if node = rb_left (h p) then do { h \<leftarrow> setn p (rb_left_update (\<lambda>_. right)) h; Some (tree, h) }
        else do { h \<leftarrow> setn p (rb_right_update (\<lambda>_. right)) h; Some (tree, h) });
     h \<leftarrow> setn right (rb_left_update (\<lambda>_. node)) h;
     h \<leftarrow> setn node (rb_parent_update (\<lambda>_. right)) h;
     Some (tree, h)
   }"

section \<open>Insertion\<close>

definition rbt_uncle :: "addr \<Rightarrow> nodes \<Rightarrow> addr option" where
  "rbt_uncle node h = do {
     n \<leftarrow> nd h node;
     let p = rb_parent n;
     if p = NULL \<or> rb_parent (h p) = NULL then Some NULL
     else
       let g = rb_parent (h p) in
       if p = rb_left (h g) then Some (rb_right (h g)) else Some (rb_left (h g))
   }"

text \<open>Recolouring never changes a link, so parent \<open>p\<close> and grandparent \<open>g\<close> are read once per iteration.\<close>

partial_function (option) rbt_insert_fixup_loop :: "addr \<Rightarrow> rbtree \<Rightarrow> nodes \<Rightarrow> (rbtree \<times> nodes) option" where
  "rbt_insert_fixup_loop node tree h = do {
     n \<leftarrow> nd h node;
     let p = rb_parent n;
     if p \<noteq> NULL \<and> rb_color (h p) = RB_RED then do {
       let g = rb_parent (h p);
       if g \<noteq> NULL \<and> p = rb_left (h g) then do {
         uncle \<leftarrow> rbt_uncle node h;
         if uncle \<noteq> NULL \<and> rb_color (h uncle) = RB_RED then do {
           h \<leftarrow> set_color uncle RB_BLACK h;
           h \<leftarrow> set_color p RB_BLACK h;
           h \<leftarrow> set_color g RB_RED h;
           rbt_insert_fixup_loop g tree h
         }
         else if node = rb_right (h p) then do {
           (tree, h) \<leftarrow> rbt_rotate_left p tree h;
           rbt_insert_fixup_loop p tree h
         }
         else do {
           h \<leftarrow> set_color p RB_BLACK h;
           h \<leftarrow> set_color g RB_RED h;
           (tree, h) \<leftarrow> rbt_rotate_right g tree h;
           rbt_insert_fixup_loop node tree h
         }
       }
       else do {
         uncle \<leftarrow> rbt_uncle node h;
         if uncle \<noteq> NULL \<and> rb_color (h uncle) = RB_RED then do {
           h \<leftarrow> set_color uncle RB_BLACK h;
           h \<leftarrow> set_color p RB_BLACK h;
           h \<leftarrow> set_color g RB_RED h;
           rbt_insert_fixup_loop g tree h
         }
         else if node = rb_left (h p) then do {
           (tree, h) \<leftarrow> rbt_rotate_right p tree h;
           rbt_insert_fixup_loop p tree h
         }
         else do {
           h \<leftarrow> set_color p RB_BLACK h;
           h \<leftarrow> set_color g RB_RED h;
           (tree, h) \<leftarrow> rbt_rotate_left g tree h;
           rbt_insert_fixup_loop node tree h
         }
       }
     }
     else Some (tree, h)
   }"

definition rbt_insert_fixup :: "addr \<Rightarrow> rbtree \<Rightarrow> nodes \<Rightarrow> (rbtree \<times> nodes) option" where
  "rbt_insert_fixup node tree h = do {
     (tree, h) \<leftarrow> rbt_insert_fixup_loop node tree h;
     h \<leftarrow> (if rt_root tree \<noteq> NULL then set_color (rt_root tree) RB_BLACK h else Some h);
     Some (tree, h)
   }"

text \<open>The descent of \<open>rbt_insert\<close>: \<open>None\<close> inside when the key is already there, else the last node.\<close>

partial_function (option) rbt_insert_find :: "u64 \<Rightarrow> addr \<Rightarrow> addr \<Rightarrow> nodes \<Rightarrow> addr option option" where
  "rbt_insert_find key node parent h =
    (if node = NULL then Some (Some parent)
     else if key < rb_key (h node) then rbt_insert_find key (rb_left (h node)) node h
     else if key > rb_key (h node) then rbt_insert_find key (rb_right (h node)) node h
     else Some None)"

definition new_node :: "addr \<Rightarrow> u64 \<Rightarrow> rbnode" where
  "new_node parent key = \<lparr>rb_parent = parent, rb_left = NULL, rb_right = NULL, rb_color = RB_RED,
     rb_key = key, rb_value = 0, rb_value2 = 0, rb_value3 = 0\<rparr>"

definition insert_node :: "addr \<Rightarrow> addr \<Rightarrow> u64 \<Rightarrow> rbtree \<Rightarrow> nodes \<Rightarrow> (rbtree \<times> nodes) option" where
  "insert_node new parent key tree h = do {
     (tree, h) \<leftarrow> (if parent = NULL then Some (tree\<lparr>rt_root := new\<rparr>, h)
        else if key < rb_key (h parent) then do { h \<leftarrow> setn parent (rb_left_update (\<lambda>_. new)) h; Some (tree, h) }
        else do { h \<leftarrow> setn parent (rb_right_update (\<lambda>_. new)) h; Some (tree, h) });
     rbt_insert_fixup new tree h
   }"

definition rbt_insert :: "'a rbt_state_ext kmap_fun \<Rightarrow> u64 \<Rightarrow> rbtree \<Rightarrow> 'a rbt_state_scheme \<Rightarrow> (addr \<times> rbtree \<times> 'a rbt_state_scheme) option" where
  "rbt_insert kmap key tree s = do {
     parent \<leftarrow> rbt_insert_find key (rt_root tree) NULL (rbnodes s);
     case parent of None \<Rightarrow> Some (NULL, tree, s)
     | Some parent \<Rightarrow> do {
         (new, s) \<leftarrow> slab_alloc kmap (rbt_slab s) s;
         if new = NULL then Some (NULL, tree, s)
         else do {
           let h = (rbnodes s)(new := new_node parent key);
           l \<leftarrow> spinlock_acquire (rt_lock tree);
           (tree, h) \<leftarrow> insert_node new parent key (tree\<lparr>rt_lock := l\<rparr>) h;
           Some (new, tree\<lparr>rt_num_nodes := rt_num_nodes tree + 1, rt_lock := 0\<rparr>, s\<lparr>rbnodes := h\<rparr>)
         }
       }
   }"

section \<open>Search and traversal\<close>

partial_function (option) rbt_minimum_loop :: "addr \<Rightarrow> nodes \<Rightarrow> addr option" where
  "rbt_minimum_loop node h = (if rb_left (h node) \<noteq> NULL then rbt_minimum_loop (rb_left (h node)) h else Some node)"

definition rbt_minimum :: "addr \<Rightarrow> nodes \<Rightarrow> addr option" where
  "rbt_minimum node h = (if node = NULL then Some NULL else rbt_minimum_loop node h)"

partial_function (option) rbt_search_loop :: "u64 \<Rightarrow> addr \<Rightarrow> nodes \<Rightarrow> addr option" where
  "rbt_search_loop key node h =
    (if node = NULL then Some NULL
     else if key < rb_key (h node) then rbt_search_loop key (rb_left (h node)) h
     else if key > rb_key (h node) then rbt_search_loop key (rb_right (h node)) h
     else Some node)"

definition rbt_search :: "rbtree \<Rightarrow> u64 \<Rightarrow> nodes \<Rightarrow> addr option" where
  "rbt_search tree key h = rbt_search_loop key (rt_root tree) h"

partial_function (option) rbt_successor_up :: "addr \<Rightarrow> addr \<Rightarrow> nodes \<Rightarrow> addr option" where
  "rbt_successor_up node parent h =
    (if parent \<noteq> NULL \<and> node = rb_right (h parent) then rbt_successor_up parent (rb_parent (h parent)) h
     else Some parent)"

definition rbt_successor :: "addr \<Rightarrow> nodes \<Rightarrow> addr option" where
  "rbt_successor node h = do {
     n \<leftarrow> nd h node;
     if rb_right n \<noteq> NULL then rbt_minimum (rb_right n) h
     else rbt_successor_up node (rb_parent n) h
   }"

partial_function (option) rbt_closest :: "u64 \<Rightarrow> addr \<Rightarrow> addr \<Rightarrow> nodes \<Rightarrow> addr option" where
  "rbt_closest sval node closest h =
    (if node = NULL then Some closest
     else if rb_key (h node) = sval then Some node
     else if rb_key (h node) < sval then rbt_closest sval (rb_right (h node)) node h
     else rbt_closest sval (rb_left (h node)) closest h)"

definition rbt_range_val2 :: "rbtree \<Rightarrow> u64 \<Rightarrow> u64 \<Rightarrow> nodes \<Rightarrow> addr option" where
  "rbt_range_val2 tree sval len h = do {
     closest \<leftarrow> rbt_closest sval (rt_root tree) NULL h;
     if closest = NULL then Some NULL
     else if rb_key (h closest) + rb_value2 (h closest) > sval then Some closest
     else do {
       node \<leftarrow> rbt_successor closest h;
       if node = NULL then Some NULL
       else if rb_key (h node) < sval + len then Some node
       else Some NULL
     }
   }"

partial_function (option) rbt_next_key_loop :: "addr \<Rightarrow> nodes \<Rightarrow> u64 option" where
  "rbt_next_key_loop node h = do {
     next \<leftarrow> rbt_successor node h;
     if next = NULL then Some (rb_key (h node) + 1)
     else if rb_key (h next) \<noteq> rb_key (h node) + 1 then Some (rb_key (h node) + 1)
     else rbt_next_key_loop next h
   }"

definition rbt_next_key :: "rbtree \<Rightarrow> nodes \<Rightarrow> u64 option" where
  "rbt_next_key tree h =
    (if rt_root tree = NULL then Some 0
     else do {
       node \<leftarrow> rbt_minimum_loop (rt_root tree) h;
       rbt_next_key_loop node h
     })"

section \<open>Deletion\<close>

definition rbt_transplant :: "addr \<Rightarrow> addr \<Rightarrow> rbtree \<Rightarrow> nodes \<Rightarrow> (rbtree \<times> nodes) option" where
  "rbt_transplant old new tree h = do {
     on \<leftarrow> nd h old;
     let p = rb_parent on;
     (tree, h) \<leftarrow> (if p = NULL then Some (tree\<lparr>rt_root := new\<rparr>, h)
        else if old = rb_left (h p) then do { h \<leftarrow> setn p (rb_left_update (\<lambda>_. new)) h; Some (tree, h) }
        else do { h \<leftarrow> setn p (rb_right_update (\<lambda>_. new)) h; Some (tree, h) });
     h \<leftarrow> (if new \<noteq> NULL then setn new (rb_parent_update (\<lambda>_. rb_parent (h old))) h else Some h);
     Some (tree, h)
   }"

definition black_or_null :: "nodes \<Rightarrow> addr \<Rightarrow> bool" where
  "black_or_null h p \<longleftrightarrow> p = NULL \<or> rb_color (h p) = RB_BLACK"

text \<open>\<open>node->parent->right\<close>\<close>

definition parent_right :: "addr \<Rightarrow> nodes \<Rightarrow> addr option" where
  "parent_right node h = do { n \<leftarrow> nd h node; p \<leftarrow> nd h (rb_parent n); Some (rb_right p) }"

text \<open>One iteration for a left child and for a right child: the next \<open>node\<close> and \<open>sibling\<close>.\<close>

definition rbt_delete_fixup_left :: "addr \<Rightarrow> rbtree \<Rightarrow> nodes \<Rightarrow> (addr \<times> addr \<times> rbtree \<times> nodes) option" where
  "rbt_delete_fixup_left node tree h = do {
     let parent = rb_parent (h node);
     let sibling = rb_right (h parent);
     if sibling = NULL \<or> rb_left (h sibling) = NULL \<or> rb_right (h sibling) = NULL then Some (parent, sibling, tree, h)
     else do {
       (sibling, tree, h) \<leftarrow> (if rb_color (h sibling) = RB_RED then do {
            h \<leftarrow> set_color sibling RB_BLACK h;
            h \<leftarrow> set_color parent RB_RED h;
            (tree, h) \<leftarrow> rbt_rotate_left parent tree h;
            sibling \<leftarrow> parent_right node h;
            Some (sibling, tree, h)
          } else Some (sibling, tree, h));
       sn \<leftarrow> nd h sibling;
       if black_or_null h (rb_left sn) \<and> black_or_null h (rb_right sn) then do {
         h \<leftarrow> set_color sibling RB_RED h;
         Some (rb_parent (h node), sibling, tree, h)
       }
       else do {
         r \<leftarrow> nd h (rb_right sn);
         (sibling, tree, h) \<leftarrow> (if rb_color r = RB_BLACK then do {
              h \<leftarrow> set_color (rb_left sn) RB_BLACK h;
              h \<leftarrow> set_color sibling RB_RED h;
              (tree, h) \<leftarrow> rbt_rotate_right sibling tree h;
              sibling \<leftarrow> parent_right node h;
              Some (sibling, tree, h)
            } else Some (sibling, tree, h));
         p \<leftarrow> nd h (rb_parent (h node));
         h \<leftarrow> set_color sibling (rb_color p) h;
         h \<leftarrow> set_color (rb_parent (h node)) RB_BLACK h;
         h \<leftarrow> set_color (rb_right (h sibling)) RB_BLACK h;
         (tree, h) \<leftarrow> rbt_rotate_left (rb_parent (h node)) tree h;
         Some (rt_root tree, sibling, tree, h)
       }
     }
   }"

definition rbt_delete_fixup_right :: "addr \<Rightarrow> addr \<Rightarrow> rbtree \<Rightarrow> nodes \<Rightarrow> (addr \<times> addr \<times> rbtree \<times> nodes) option" where
  "rbt_delete_fixup_right node sibling tree h = do {
     let parent = rb_parent (h node);
     if sibling = NULL \<or> rb_right (h sibling) = NULL \<or> rb_right (h sibling) = NULL then Some (parent, sibling, tree, h)
     else do {
       (sibling, tree, h) \<leftarrow> (if rb_color (h sibling) = RB_RED then do {
            h \<leftarrow> set_color sibling RB_BLACK h;
            h \<leftarrow> set_color parent RB_RED h;
            (tree, h) \<leftarrow> rbt_rotate_right parent tree h;
            sibling \<leftarrow> parent_right node h;
            Some (sibling, tree, h)
          } else Some (sibling, tree, h));
       sn \<leftarrow> nd h sibling;
       if black_or_null h (rb_left sn) \<and> black_or_null h (rb_right sn) then do {
         h \<leftarrow> set_color sibling RB_RED h;
         Some (rb_parent (h node), sibling, tree, h)
       }
       else do {
         r \<leftarrow> nd h (rb_right sn);
         (sibling, tree, h) \<leftarrow> (if rb_color r = RB_BLACK then do {
              h \<leftarrow> set_color (rb_right sn) RB_BLACK h;
              h \<leftarrow> set_color sibling RB_RED h;
              (tree, h) \<leftarrow> rbt_rotate_right sibling tree h;
              sibling \<leftarrow> parent_right node h;
              Some (sibling, tree, h)
            } else Some (sibling, tree, h));
         p \<leftarrow> nd h (rb_parent (h node));
         h \<leftarrow> set_color sibling (rb_color p) h;
         h \<leftarrow> set_color (rb_parent (h node)) RB_BLACK h;
         h \<leftarrow> set_color (rb_right (h sibling)) RB_BLACK h;
         (tree, h) \<leftarrow> rbt_rotate_right (rb_parent (h node)) tree h;
         Some (rt_root tree, sibling, tree, h)
       }
     }
   }"

partial_function (option) rbt_delete_fixup_loop :: "addr \<Rightarrow> addr \<Rightarrow> rbtree \<Rightarrow> nodes \<Rightarrow> (addr \<times> rbtree \<times> nodes) option" where
  "rbt_delete_fixup_loop node sibling tree h =
    (if node = rt_root tree then Some (node, tree, h)
     else do {
       n \<leftarrow> nd h node;
       if rb_color n \<noteq> RB_BLACK then Some (node, tree, h)
       else do {
         p \<leftarrow> nd h (rb_parent n);
         (node, sibling, tree, h) \<leftarrow> (if node = rb_left p then rbt_delete_fixup_left node tree h
            else rbt_delete_fixup_right node sibling tree h);
         rbt_delete_fixup_loop node sibling tree h
       }
     })"

definition rbt_delete_fixup :: "addr \<Rightarrow> rbtree \<Rightarrow> nodes \<Rightarrow> (rbtree \<times> nodes) option" where
  "rbt_delete_fixup node tree h =
    (if node = NULL then Some (tree, h)
     else do {
       (node, tree, h) \<leftarrow> rbt_delete_fixup_loop node NULL tree h;
       h \<leftarrow> set_color node RB_BLACK h;
       h \<leftarrow> set_color (rt_root tree) RB_BLACK h;
       Some (tree, h)
     })"

text \<open>The three cases of \<open>rbt_delete\<close>; only the first two give the node back to the cache.\<close>

definition rbt_delete :: "'a rbt_state_ext kmap_fun \<Rightarrow> addr \<Rightarrow> rbtree \<Rightarrow> 'a rbt_state_scheme \<Rightarrow> (rbtree \<times> 'a rbt_state_scheme) option" where
  "rbt_delete kmap del tree s = do {
     l \<leftarrow> spinlock_acquire (rt_lock tree);
     let tree = tree\<lparr>rt_lock := l\<rparr>;
     let h = rbnodes s;
     d \<leftarrow> nd h del;
     (tree, s) \<leftarrow>
       (if rb_left d = NULL then do {
          (tree, h) \<leftarrow> rbt_transplant del (rb_right d) tree h;
          (tree, h) \<leftarrow> rbt_delete_fixup (rb_right (h del)) tree h;
          s \<leftarrow> slab_free kmap (rbt_slab s) del (s\<lparr>rbnodes := h\<rparr>);
          Some (tree, s)
        }
        else if rb_right d = NULL then do {
          (tree, h) \<leftarrow> rbt_transplant del (rb_left d) tree h;
          (tree, h) \<leftarrow> rbt_delete_fixup (rb_left (h del)) tree h;
          s \<leftarrow> slab_free kmap (rbt_slab s) del (s\<lparr>rbnodes := h\<rparr>);
          Some (tree, s)
        }
        else do {
          y \<leftarrow> rbt_minimum (rb_right d) h;
          yn \<leftarrow> nd h y;
          let x = rb_right yn;
          let orig_color = rb_color yn;
          (tree, h) \<leftarrow>
            (if rb_parent yn = del then do {
               h \<leftarrow> (if x \<noteq> NULL then setn x (rb_parent_update (\<lambda>_. y)) h else Some h);
               Some (tree, h)
             }
             else do {
               (tree, h) \<leftarrow> rbt_transplant y (rb_right yn) tree h;
               h \<leftarrow> setn y (rb_right_update (\<lambda>_. rb_right (h del))) h;
               h \<leftarrow> (if rb_right (h y) \<noteq> NULL then setn (rb_right (h y)) (rb_parent_update (\<lambda>_. y)) h else Some h);
               Some (tree, h)
             });
          (tree, h) \<leftarrow> rbt_transplant del y tree h;
          h \<leftarrow> setn y (rb_left_update (\<lambda>_. rb_left (h del))) h;
          h \<leftarrow> (if rb_left (h y) \<noteq> NULL then setn (rb_left (h y)) (rb_parent_update (\<lambda>_. y)) h else Some h);
          h \<leftarrow> set_color y (rb_color (h del)) h;
          (tree, h) \<leftarrow> (if orig_color = RB_BLACK then rbt_delete_fixup x tree h else Some (tree, h));
          Some (tree, s\<lparr>rbnodes := h\<rparr>)
        });
     Some (tree\<lparr>rt_num_nodes := rt_num_nodes tree - 1, rt_lock := 0\<rparr>, s)
   }"

partial_function (option) rbt_destroy :: "'a rbt_state_ext kmap_fun \<Rightarrow> rbtree \<Rightarrow> 'a rbt_state_scheme \<Rightarrow> (rbtree \<times> 'a rbt_state_scheme) option" where
  "rbt_destroy kmap tree s =
    (if rt_root tree = NULL then Some (tree, s)
     else do {
       (tree, s) \<leftarrow> rbt_delete kmap (rt_root tree) tree s;
       rbt_destroy kmap tree s
     })"

end
