(* ===== verification/Rbt_Tree.thy ===== *)
theory Rbt_Tree
  imports Kernel_Prelude "HOL-Library.Tree"
begin

text \<open>
  The abstract side of the red-black trees: trees of (address, colour), a position in a tree as the
  list of frames from the position up to the root, the red-black conditions, and the repair after an
  insertion as a function on positions.
\<close>

datatype color = Red | Black

lemma color_cases [simp]: "c \<noteq> Red \<longleftrightarrow> c = Black" "c \<noteq> Black \<longleftrightarrow> c = Red"
  by (cases c; simp)+

type_synonym ctree = "(addr \<times> color) tree"

text \<open>\<open>L a c r\<close>: the position is the left child of node \<open>a\<close>, whose right child is \<open>r\<close>.\<close>

datatype frame = L addr color ctree | R ctree addr color

fun frame_color :: "frame \<Rightarrow> color" where
  "frame_color (L a c r) = c"
| "frame_color (R l a c) = c"

primrec fill :: "ctree \<Rightarrow> frame \<Rightarrow> ctree" where
  "fill t (L a c r) = Node t (a, c) r"
| "fill t (R l a c) = Node l (a, c) t"

primrec plug :: "ctree \<Rightarrow> frame list \<Rightarrow> ctree" where
  "plug t [] = t"
| "plug t (f # fs) = plug (fill t f) fs"

section \<open>Red-black conditions\<close>

fun rootc :: "ctree \<Rightarrow> color" where
  "rootc Leaf = Black"
| "rootc (Node l (a, c) r) = c"

fun paint :: "color \<Rightarrow> ctree \<Rightarrow> ctree" where
  "paint c Leaf = Leaf"
| "paint c (Node l (a, _) r) = Node l (a, c) r"

fun bh :: "ctree \<Rightarrow> nat" where
  "bh Leaf = 0"
| "bh (Node l (a, c) r) = bh l + (if c = Black then 1 else 0)"

fun invc :: "ctree \<Rightarrow> bool" where
  "invc Leaf \<longleftrightarrow> True"
| "invc (Node l (a, c) r) \<longleftrightarrow> (c = Red \<longrightarrow> rootc l = Black \<and> rootc r = Black) \<and> invc l \<and> invc r"

fun invh :: "ctree \<Rightarrow> bool" where
  "invh Leaf \<longleftrightarrow> True"
| "invh (Node l (a, c) r) \<longleftrightarrow> bh l = bh r \<and> invh l \<and> invh r"

definition rbt_ok :: "ctree \<Rightarrow> bool" where
  "rbt_ok t \<longleftrightarrow> invc t \<and> invh t \<and> rootc t = Black"

text \<open>The conditions of a tree, split into those of the subtree at a position and of the frames.\<close>

fun frames_invc :: "color \<Rightarrow> frame list \<Rightarrow> bool" where
  "frames_invc c [] \<longleftrightarrow> True"
| "frames_invc c (L a d s # fs) \<longleftrightarrow> invc s \<and> (d = Red \<longrightarrow> c = Black \<and> rootc s = Black) \<and> frames_invc d fs"
| "frames_invc c (R s a d # fs) \<longleftrightarrow> invc s \<and> (d = Red \<longrightarrow> c = Black \<and> rootc s = Black) \<and> frames_invc d fs"

fun frames_invh :: "nat \<Rightarrow> frame list \<Rightarrow> bool" where
  "frames_invh n [] \<longleftrightarrow> True"
| "frames_invh n (L a d s # fs) \<longleftrightarrow> bh s = n \<and> invh s \<and> frames_invh (n + (if d = Black then 1 else 0)) fs"
| "frames_invh n (R s a d # fs) \<longleftrightarrow> bh s = n \<and> invh s \<and> frames_invh (n + (if d = Black then 1 else 0)) fs"

lemma invh_plug: "invh (plug t fs) \<longleftrightarrow> invh t \<and> frames_invh (bh t) fs"
proof (induction fs arbitrary: t)
  case (Cons f fs)
  show ?case by (cases f) (simp_all only: plug.simps fill.simps Cons.IH invh.simps bh.simps frames_invh.simps, metis+)
qed simp

lemma invc_plug: "invc (plug t fs) \<longleftrightarrow> invc t \<and> frames_invc (rootc t) fs"
proof (induction fs arbitrary: t)
  case (Cons f fs)
  then show ?case by (cases f) auto
qed simp

lemma rootc_plug: "fs \<noteq> [] \<Longrightarrow> rootc (plug t fs) = frame_color (last fs)"
proof (induction fs arbitrary: t)
  case (Cons f fs)
  show ?case
  proof (cases "fs = []")
    case True
    then show ?thesis by (cases f) auto
  next
    case False
    then show ?thesis using Cons.IH [of "fill t f"] by simp
  qed
qed simp

lemma frames_invc_black: "frames_invc c fs \<Longrightarrow> frames_invc Black fs"
  by (cases "(c, fs)" rule: frames_invc.cases) auto

text \<open>The nodes of a position in order: those of the subtree stay together.\<close>

primrec before :: "frame list \<Rightarrow> (addr \<times> color) list" where
  "before [] = []"
| "before (f # fs) = (case f of L a c r \<Rightarrow> before fs | R l a c \<Rightarrow> before fs @ inorder l @ [(a, c)])"

primrec after :: "frame list \<Rightarrow> (addr \<times> color) list" where
  "after [] = []"
| "after (f # fs) = (case f of L a c r \<Rightarrow> (a, c) # inorder r @ after fs | R l a c \<Rightarrow> after fs)"

lemma inorder_plug: "inorder (plug t fs) = before fs @ inorder t @ after fs"
proof (induction fs arbitrary: t)
  case (Cons f fs)
  then show ?case by (cases f) auto
qed simp

definition tree_addrs :: "ctree \<Rightarrow> addr list" where
  "tree_addrs t = map fst (inorder t)"

lemma tree_addrs_simps [simp]:
  "tree_addrs Leaf = []" "tree_addrs (Node l x r) = tree_addrs l @ fst x # tree_addrs r"
  by (simp_all add: tree_addrs_def)

definition frames_before :: "frame list \<Rightarrow> addr list" where "frames_before fs = map fst (before fs)"
definition frames_after :: "frame list \<Rightarrow> addr list" where "frames_after fs = map fst (after fs)"

lemma frames_addrs_simps [simp]:
  "frames_before [] = []" "frames_before (L a c r # fs) = frames_before fs"
  "frames_before (R l a c # fs) = frames_before fs @ tree_addrs l @ [a]"
  "frames_after [] = []" "frames_after (L a c r # fs) = a # tree_addrs r @ frames_after fs"
  "frames_after (R l a c # fs) = frames_after fs"
  by (simp_all add: frames_before_def frames_after_def tree_addrs_def)

lemma tree_addrs_plug: "tree_addrs (plug t fs) = frames_before fs @ tree_addrs t @ frames_after fs"
  by (simp add: tree_addrs_def inorder_plug frames_before_def frames_after_def)

lemma tree_addrs_paint [simp]: "tree_addrs (paint c t) = tree_addrs t"
  by (cases "(c, t)" rule: paint.cases) simp_all

section \<open>Repair after an insertion\<close>

text \<open>
  The position holds a red node. With a red parent and a red uncle both are painted black and the
  repair goes on at the grandparent; with a black uncle one or two rotations end it.
\<close>

fun afix :: "ctree \<Rightarrow> frame list \<Rightarrow> ctree" where
  "afix t (L p Red s # L g cg u # fs) =
    (if rootc u = Red then afix (Node (Node t (p, Black) s) (g, Red) (paint Black u)) fs
     else plug (Node t (p, Black) (Node s (g, Red) u)) fs)"
| "afix t (R s p Red # R u g cg # fs) =
    (if rootc u = Red then afix (Node (paint Black u) (g, Red) (Node s (p, Black) t)) fs
     else plug (Node (Node u (g, Red) s) (p, Black) t) fs)"
| "afix t (R s p Red # L g cg u # fs) =
    (if rootc u = Red then afix (Node (Node s (p, Black) t) (g, Red) (paint Black u)) fs
     else (case t of Node l (x, c) r \<Rightarrow> plug (Node (Node s (p, Red) l) (x, Black) (Node r (g, Red) u)) fs | Leaf \<Rightarrow> Leaf))"
| "afix t (L p Red s # R u g cg # fs) =
    (if rootc u = Red then afix (Node (paint Black u) (g, Red) (Node t (p, Black) s)) fs
     else (case t of Node l (x, c) r \<Rightarrow> plug (Node (Node u (g, Red) l) (x, Black) (Node r (p, Red) s)) fs | Leaf \<Rightarrow> Leaf))"
| "afix t fs = plug t fs"

lemma paint_black [simp]: "rootc u = Red \<Longrightarrow> bh (paint Black u) = Suc (bh u)" "rootc (paint Black u) = Black"
  "invc u \<Longrightarrow> invc (paint Black u)" "invh u \<Longrightarrow> invh (paint Black u)"
  by (cases u rule: rootc.cases; simp)+

definition fixable :: "ctree \<Rightarrow> frame list \<Rightarrow> bool" where
  "fixable t fs \<longleftrightarrow> rootc t = Red \<and> invc t \<and> invh t \<and> frames_invc Black fs \<and> frames_invh (bh t) fs
     \<and> (fs \<noteq> [] \<longrightarrow> frame_color (last fs) = Black)"

lemma fill_ok:
  "frame_color v = Black \<Longrightarrow> invc (fill t v) \<longleftrightarrow> invc t \<and> frames_invc Black [v]"
  "invh (fill t v) \<longleftrightarrow> invh t \<and> frames_invh (bh t) [v]"
  by (cases v; auto)+

lemma afix_ok:
  "fixable t fs \<Longrightarrow> invc (afix t fs) \<and> invh (afix t fs) \<and> tree_addrs (afix t fs) = tree_addrs (plug t fs)"
proof (induction t fs rule: afix.induct)
  case (1 t p s g cg u fs)
  then show ?case by (auto simp: fixable_def invc_plug invh_plug tree_addrs_plug dest: frames_invc_black split: if_splits)
next
  case (2 t s p u g cg fs)
  then show ?case by (auto simp: fixable_def invc_plug invh_plug tree_addrs_plug dest: frames_invc_black split: if_splits)
next
  case (3 t s p g cg u fs)
  then show ?case
    by (cases t rule: rootc.cases) (auto simp: fixable_def invc_plug invh_plug tree_addrs_plug dest: frames_invc_black split: if_splits)
next
  case (4 t p s u g cg fs)
  then show ?case
    by (cases t rule: rootc.cases) (auto simp: fixable_def invc_plug invh_plug tree_addrs_plug dest: frames_invc_black split: if_splits)
qed (auto simp: fixable_def invc_plug invh_plug fill_ok)

lemma paint_root_ok: "invc t \<Longrightarrow> invh t \<Longrightarrow> rbt_ok (paint Black t)"
  by (cases t rule: rootc.cases) (auto simp: rbt_ok_def)

end
