(* ===== verification/Rbt_Refine.thy ===== *)
theory Rbt_Refine
  imports Rbtree Rbt_Tree
begin

unbundle bit_operations_syntax

text \<open>
  The heap operations of \<open>Rbtree\<close> refine the abstract trees of \<open>Rbt_Tree\<close>: \<open>rep\<close> says that a tree is laid
  out in the node store, \<open>frep\<close> the same for the frames around a position.
\<close>

fun col :: "color \<Rightarrow> int" where
  "col Red = RB_RED"
| "col Black = RB_BLACK"

lemma col_iff [simp]: "col c = RB_RED \<longleftrightarrow> c = Red" "col c = RB_BLACK \<longleftrightarrow> c = Black"
  by (cases c; simp add: RB_RED_def RB_BLACK_def)+

fun rep :: "nodes \<Rightarrow> addr \<Rightarrow> addr \<Rightarrow> ctree \<Rightarrow> bool" where
  "rep h par p Leaf \<longleftrightarrow> p = NULL"
| "rep h par p (Node l x r) \<longleftrightarrow> p = fst x \<and> p \<noteq> NULL \<and> rb_parent (h p) = par \<and> rb_color (h p) = col (snd x)
     \<and> rep h p (rb_left (h p)) l \<and> rep h p (rb_right (h p)) r"

fun frep :: "nodes \<Rightarrow> addr \<Rightarrow> addr \<Rightarrow> addr \<Rightarrow> frame list \<Rightarrow> bool" where
  "frep h root p par [] \<longleftrightarrow> par = NULL \<and> root = p"
| "frep h root p par (f # fs) \<longleftrightarrow> (case f of
     L a c r \<Rightarrow> par = a \<and> a \<noteq> NULL \<and> rb_left (h a) = p \<and> rb_color (h a) = col c \<and> rep h a (rb_right (h a)) r
       \<and> frep h root a (rb_parent (h a)) fs
   | R l a c \<Rightarrow> par = a \<and> a \<noteq> NULL \<and> rb_right (h a) = p \<and> rb_color (h a) = col c \<and> rep h a (rb_left (h a)) l
       \<and> frep h root a (rb_parent (h a)) fs)"

lemma rep_plug: "rep h NULL root (plug t fs) \<longleftrightarrow> (\<exists>p par. rep h par p t \<and> frep h root p par fs)"
proof (induction fs arbitrary: t)
  case (Cons f fs)
  then show ?case by (cases f) auto
qed simp

lemma rep_cong: "\<forall>a \<in> set (tree_addrs t). h' a = h a \<Longrightarrow> rep h' par p t = rep h par p t"
  by (induction t arbitrary: par p) auto

lemma frep_cong:
  "\<forall>a \<in> set (frames_before fs) \<union> set (frames_after fs). h' a = h a \<Longrightarrow> frep h' root p par fs = frep h root p par fs"
proof (induction fs arbitrary: p par)
  case (Cons f fs)
  then show ?case by (cases f) (auto simp: rep_cong [of _ h' h])
qed simp

lemma rep_upd [simp]: "q \<notin> set (tree_addrs t) \<Longrightarrow> rep (h(q := x)) par p t = rep h par p t"
  by (rule rep_cong) auto

lemma frep_upd [simp]:
  "q \<notin> set (frames_before fs) \<Longrightarrow> q \<notin> set (frames_after fs) \<Longrightarrow> frep (h(q := x)) root p par fs = frep h root p par fs"
  by (rule frep_cong) auto

lemma rep_null: "rep h par NULL t \<longleftrightarrow> t = Leaf"
  by (cases t) auto

lemma rep_root: "rep h par p t \<Longrightarrow> p \<noteq> NULL \<Longrightarrow> p \<in> set (tree_addrs t)"
  by (cases t) auto

definition node_data :: "rbnode \<Rightarrow> u64 \<times> u64 \<times> u64 \<times> u64" where
  "node_data n = (rb_key n, rb_value n, rb_value2 n, rb_value3 n)"

text \<open>Only links and colours of the nodes in \<open>A\<close>, and the root, have changed.\<close>

definition relinked :: "addr set \<Rightarrow> rbtree \<Rightarrow> nodes \<Rightarrow> rbtree \<Rightarrow> nodes \<Rightarrow> bool" where
  "relinked A tree h tree' h' \<longleftrightarrow> (\<forall>a. node_data (h' a) = node_data (h a)) \<and> (\<forall>a. a \<notin> A \<longrightarrow> h' a = h a)
     \<and> tree' = tree\<lparr>rt_root := rt_root tree'\<rparr>"

lemma relinked_refl: "relinked A tree h tree h"
  by (simp add: relinked_def)

lemma relinked_mono: "relinked A tree h tree' h' \<Longrightarrow> A \<subseteq> B \<Longrightarrow> relinked B tree h tree' h'"
  by (auto simp: relinked_def)

lemma relinked_trans:
  "relinked A tree h tree1 h1 \<Longrightarrow> relinked A tree1 h1 tree2 h2 \<Longrightarrow> relinked A tree h tree2 h2"
  unfolding relinked_def by (cases tree; cases tree1; cases tree2) auto

lemma relinked_upd:
  "relinked A tree h tree' h' \<Longrightarrow> a \<in> A \<Longrightarrow> node_data n = node_data (h' a) \<Longrightarrow> relinked A tree h tree' (h'(a := n))"
  by (auto simp: relinked_def)

lemma node_data_upd [simp]:
  "node_data (n\<lparr>rb_parent := p\<rparr>) = node_data n" "node_data (n\<lparr>rb_left := p\<rparr>) = node_data n"
  "node_data (n\<lparr>rb_right := p\<rparr>) = node_data n" "node_data (n\<lparr>rb_color := c\<rparr>) = node_data n"
  by (simp_all add: node_data_def)

section \<open>Replacing the subtree at a position\<close>

abbreviation frames_set :: "frame list \<Rightarrow> addr set" where
  "frames_set fs \<equiv> set (frames_before fs) \<union> set (frames_after fs)"

text \<open>The link of the parent (or the root) that leads to \<open>old\<close> is set to \<open>new\<close>.\<close>

definition link_to :: "addr \<Rightarrow> addr \<Rightarrow> addr \<Rightarrow> rbtree \<Rightarrow> nodes \<Rightarrow> rbtree \<times> nodes" where
  "link_to old new par tree h =
    (if par = NULL then (tree\<lparr>rt_root := new\<rparr>, h)
     else if old = rb_left (h par) then (tree, h(par := (h par)\<lparr>rb_left := new\<rparr>))
     else (tree, h(par := (h par)\<lparr>rb_right := new\<rparr>)))"

lemma frep_sibling:
  assumes "frep h root old par fs" "old \<notin> frames_set fs" "old \<noteq> NULL" "par \<noteq> NULL"
  shows "old = rb_right (h par) \<longleftrightarrow> old \<noteq> rb_left (h par)"
proof -
  obtain f fs' where fs: "fs = f # fs'" using assms(1,4) by (cases fs) auto
  show ?thesis
  proof (cases f)
    case (L a c r)
    then have "rep h a (rb_right (h a)) r" "par = a" "rb_left (h a) = old" using assms(1) fs by auto
    moreover have "old \<notin> set (tree_addrs r)" using assms(2) fs L by simp
    ultimately show ?thesis using rep_root assms(3) by metis
  next
    case (R l a c)
    then have "rep h a (rb_left (h a)) l" "par = a" "rb_right (h a) = old" using assms(1) fs by auto
    moreover have "old \<notin> set (tree_addrs l)" using assms(2) fs R by simp
    ultimately show ?thesis using rep_root assms(3) by metis
  qed
qed

lemma frep_link:
  assumes "frep h (rt_root tree) old par fs" "old \<notin> frames_set fs" "old \<noteq> NULL" "distinct (frames_before fs @ frames_after fs)"
  shows "\<exists>tree' h'. link_to old new par tree h = (tree', h') \<and> frep h' (rt_root tree') new par fs
    \<and> relinked (frames_set fs) tree h tree' h'"
proof (cases fs)
  case Nil
  then show ?thesis using assms(1) by (auto simp: link_to_def relinked_def)
next
  case (Cons f fs')
  show ?thesis
  proof (cases f)
    case (L a c r)
    have a: "par = a" "a \<noteq> NULL" "old = rb_left (h a)" using assms(1) Cons L by auto
    let ?h = "h(a := (h a)\<lparr>rb_left := new\<rparr>)"
    have "a \<notin> set (tree_addrs r)" "a \<notin> frames_set fs'" using assms(4) Cons L by auto
    then have "frep ?h (rt_root tree) new par fs" using assms(1) Cons L by simp
    moreover have "relinked (frames_set fs) tree h tree ?h"
      by (rule relinked_upd [OF relinked_refl]) (use Cons L in auto)
    ultimately show ?thesis using a by (simp add: link_to_def)
  next
    case (R l a c)
    have a: "par = a" "a \<noteq> NULL" "old \<noteq> rb_left (h a)" using assms(1) Cons R frep_sibling [OF assms(1-3)] by auto
    let ?h = "h(a := (h a)\<lparr>rb_right := new\<rparr>)"
    have "a \<notin> set (tree_addrs l)" "a \<notin> frames_set fs'" using assms(4) Cons R by auto
    then have "frep ?h (rt_root tree) new par fs" using assms(1) Cons R by simp
    moreover have "relinked (frames_set fs) tree h tree ?h"
      by (rule relinked_upd [OF relinked_refl]) (use Cons R in auto)
    ultimately show ?thesis using a by (simp add: link_to_def)
  qed
qed

lemma rep_reparent:
  assumes "rep h par p t" "distinct (tree_addrs t)" "\<forall>a \<in> set (tree_addrs t). a \<noteq> p \<longrightarrow> h' a = h a"
    and "p \<noteq> NULL \<Longrightarrow> h' p = (h p)\<lparr>rb_parent := q\<rparr>"
  shows "rep h' q p t"
proof (cases t)
  case (Node l x r)
  have p: "p = fst x" "p \<noteq> NULL" using assms(1) Node by auto
  have "h' a = h a" if "a \<in> set (tree_addrs l) \<union> set (tree_addrs r)" for a
  proof -
    have "a \<noteq> p" "a \<in> set (tree_addrs t)" using that assms(2) p Node by auto
    then show ?thesis using assms(3) by blast
  qed
  then have "\<forall>a \<in> set (tree_addrs l). h' a = h a" "\<forall>a \<in> set (tree_addrs r). h' a = h a" by auto
  from rep_cong [OF this(1)] rep_cong [OF this(2)] show ?thesis using assms(1,4) Node p by simp
qed (use assms in simp)

section \<open>Rotations\<close>

definition reparent :: "addr \<Rightarrow> addr \<Rightarrow> nodes \<Rightarrow> nodes" where
  "reparent q p h = (if p = NULL then h else h(p := (h p)\<lparr>rb_parent := q\<rparr>))"

lemma rotate_right_steps:
  assumes "g \<noteq> NULL" "rb_left (h g) = p" "p \<noteq> NULL" "g \<noteq> p" "rb_right (h p) \<noteq> g" "rb_right (h p) \<noteq> p"
  defines "h1 \<equiv> reparent g (rb_right (h p)) (h(g := (h g)\<lparr>rb_left := rb_right (h p)\<rparr>))"
  assumes "par = rb_parent (h g)" and "par \<noteq> NULL \<Longrightarrow> g = rb_right (h1 par) \<longleftrightarrow> g \<noteq> rb_left (h1 par)" "par \<noteq> p"
    and "link_to g p par tree (h1(p := (h1 p)\<lparr>rb_parent := par\<rparr>)) = (tree', h2)" "g \<noteq> par"
  shows "rbt_rotate_right g tree h = Some (tree', h2(p := (h2 p)\<lparr>rb_right := g\<rparr>, g := ((h2(p := (h2 p)\<lparr>rb_right := g\<rparr>)) g)\<lparr>rb_parent := p\<rparr>))"
  using assms unfolding rbt_rotate_right_def
  by (auto simp: nd_def setn_def reparent_def link_to_def Let_def split: if_splits)

lemma rotate_right_rep:
  assumes "rep h NULL (rt_root tree) (plug (Node (Node t (p, cp) s) (g, cg) u) fs)"
    and "distinct (tree_addrs (plug (Node (Node t (p, cp) s) (g, cg) u) fs))"
  shows "\<exists>tree' h'. rbt_rotate_right g tree h = Some (tree', h')
    \<and> rep h' NULL (rt_root tree') (plug (Node t (p, cp) (Node s (g, cg) u)) fs)
    \<and> relinked (set (tree_addrs (plug (Node (Node t (p, cp) s) (g, cg) u) fs))) tree h tree' h'"
proof -
  let ?A = "set (tree_addrs (plug (Node (Node t (p, cp) s) (g, cg) u) fs))"
  obtain par where r: "rep h par g (Node (Node t (p, cp) s) (g, cg) u)" "frep h (rt_root tree) g par fs"
    using assms(1) by (auto simp: rep_plug)
  note d = assms(2) [unfolded tree_addrs_plug]
  let ?sp = "rb_right (h p)"
  have gp: "g \<noteq> NULL" "rb_left (h g) = p" "p \<noteq> NULL" "g \<noteq> p" "par = rb_parent (h g)" using r d by auto
  have rs: "rep h p ?sp s" using r gp by auto
  then have sp: "?sp \<noteq> NULL \<Longrightarrow> ?sp \<in> set (tree_addrs s)" by (rule rep_root)
  have out: "g \<notin> frames_set fs" "p \<notin> frames_set fs" "?sp \<notin> frames_set fs \<or> ?sp = NULL" "?sp \<noteq> g" "?sp \<noteq> p"
    using d sp gp by auto
  have parin: "par \<noteq> NULL \<Longrightarrow> par \<in> frames_set fs" using r(2) by (cases fs) (auto split: frame.splits)
  have np: "par \<noteq> p" "par \<noteq> g" using parin out gp by auto
  define h1 where "h1 = reparent g ?sp (h(g := (h g)\<lparr>rb_left := ?sp\<rparr>))"
  define h2 where "h2 = h1(p := (h1 p)\<lparr>rb_parent := par\<rparr>)"
  have h1out: "\<forall>a \<in> frames_set fs. h1 a = h a" using out by (auto simp: h1_def reparent_def)
  then have "\<forall>a \<in> frames_set fs. h2 a = h a" using out by (auto simp: h2_def)
  then have "frep h2 (rt_root tree) g par fs" using frep_cong [of fs h2 h] r(2) by blast
  moreover have "distinct (frames_before fs @ frames_after fs)" using d by auto
  ultimately obtain tree' h3 where
    l: "link_to g p par tree h2 = (tree', h3)" "frep h3 (rt_root tree') p par fs" "relinked (frames_set fs) tree h2 tree' h3"
    using frep_link [OF _ out(1) gp(1)] by blast
  have sib: "g = rb_right (h1 par) \<longleftrightarrow> g \<noteq> rb_left (h1 par)" if "par \<noteq> NULL"
    using frep_sibling [OF r(2) out(1) gp(1) that] h1out parin [OF that] by simp
  let ?h = "h3(p := (h3 p)\<lparr>rb_right := g\<rparr>, g := ((h3(p := (h3 p)\<lparr>rb_right := g\<rparr>)) g)\<lparr>rb_parent := p\<rparr>)"
  have rot: "rbt_rotate_right g tree h = Some (tree', ?h)"
    by (rule rotate_right_steps [OF gp(1-4) out(4,5), of par])
      (use gp(5) sib np l(1) in \<open>simp_all add: h2_def h1_def\<close>)
  have h3: "h3 a = h2 a" if "a \<notin> frames_set fs" for a using l(3) that by (auto simp: relinked_def)
  have "frep ?h (rt_root tree') p par fs" using l(2) out by simp
  moreover have "rep ?h par p (Node t (p, cp) (Node s (g, cg) u))"
  proof -
    have same: "?h a = h a" if "a \<in> set (tree_addrs t) \<or> a \<in> set (tree_addrs u) \<or> a \<in> set (tree_addrs s) \<and> a \<noteq> ?sp" for a
    proof -
      have "a \<noteq> g" "a \<noteq> p" "a \<notin> frames_set fs" "?sp \<noteq> NULL \<Longrightarrow> a \<noteq> ?sp" using that d sp by auto
      then show ?thesis using h3 by (auto simp: h2_def h1_def reparent_def)
    qed
    have "rep ?h p (rb_left (h p)) t" using rep_cong [of t ?h h] same r gp by auto
    moreover have "rep ?h g (rb_right (h g)) u" using rep_cong [of u ?h h] same r gp by auto
    moreover have "rep ?h g ?sp s"
      using rs by (rule rep_reparent) (use d same h3 out np gp in \<open>auto simp: h2_def h1_def reparent_def\<close>)
    moreover have "?h p = (h p)\<lparr>rb_parent := par, rb_right := g\<rparr>" "?h g = (h g)\<lparr>rb_left := ?sp, rb_parent := p\<rparr>"
      using h3 out gp np by (auto simp: h2_def h1_def reparent_def)
    ultimately show ?thesis using r gp by auto
  qed
  ultimately have "rep ?h NULL (rt_root tree') (plug (Node t (p, cp) (Node s (g, cg) u)) fs)"
    unfolding rep_plug by blast
  moreover have "relinked ?A tree h tree' ?h"
  proof -
    have A: "p \<in> ?A" "g \<in> ?A" "?sp \<noteq> NULL \<Longrightarrow> ?sp \<in> ?A" "frames_set fs \<subseteq> ?A" using sp by (auto simp: tree_addrs_plug)
    have "relinked ?A tree h tree h2"
      unfolding h2_def h1_def reparent_def relinked_def using A(1-3) by (auto simp: node_data_def)
    then have "relinked ?A tree h tree' h3" using relinked_mono [OF l(3) A(4)] by (rule relinked_trans)
    then show ?thesis using A(1,2) by (intro relinked_upd) simp_all
  qed
  ultimately show ?thesis using rot by blast
qed

text \<open>The other rotation is the mirror image.\<close>

definition mir :: "rbnode \<Rightarrow> rbnode" where
  "mir n = n\<lparr>rb_left := rb_right n, rb_right := rb_left n\<rparr>"

lemma mir_simps [simp]:
  "rb_parent (mir n) = rb_parent n" "rb_left (mir n) = rb_right n" "rb_right (mir n) = rb_left n"
  "rb_color (mir n) = rb_color n" "node_data (mir n) = node_data n" "mir (mir n) = n"
  "mir (n\<lparr>rb_left := p\<rparr>) = (mir n)\<lparr>rb_right := p\<rparr>" "mir (n\<lparr>rb_right := p\<rparr>) = (mir n)\<lparr>rb_left := p\<rparr>"
  "mir (n\<lparr>rb_parent := p\<rparr>) = (mir n)\<lparr>rb_parent := p\<rparr>"
  by (simp_all add: mir_def node_data_def)

lemma mir_mir [simp]: "mir \<circ> (mir \<circ> h) = h"
  by (simp add: fun_eq_iff)

lemma mir_upd: "(mir \<circ> h)(p := n) = mir \<circ> h(p := mir n)"
  by (simp add: fun_eq_iff)

lemma rotate_left_mirror:
  "rbt_rotate_left node tree h = map_option (\<lambda>(tree, h). (tree, mir \<circ> h)) (rbt_rotate_right node tree (mir \<circ> h))"
  by (simp add: rbt_rotate_left_def rbt_rotate_right_def nd_def setn_def Let_def mir_upd del: fun_upd_apply cong: if_cong)

fun mirror_frame :: "frame \<Rightarrow> frame" where
  "mirror_frame (L a c r) = R (mirror r) a c"
| "mirror_frame (R l a c) = L a c (mirror l)"

lemma mirror_plug: "mirror (plug t fs) = plug (mirror t) (map mirror_frame fs)"
proof (induction fs arbitrary: t)
  case (Cons f fs)
  then show ?case by (cases f) simp_all
qed simp

lemma rep_mirror: "rep (mir \<circ> h) par p (mirror t) = rep h par p t"
  by (induction t arbitrary: par p) auto

lemma tree_addrs_mirror: "tree_addrs (mirror t) = rev (tree_addrs t)"
  by (simp add: tree_addrs_def inorder_mirror rev_map)

lemma rotate_left_rep:
  assumes "rep h NULL (rt_root tree) (plug (Node u (g, cg) (Node s (p, cp) t)) fs)"
    and "distinct (tree_addrs (plug (Node u (g, cg) (Node s (p, cp) t)) fs))"
  shows "\<exists>tree' h'. rbt_rotate_left g tree h = Some (tree', h')
    \<and> rep h' NULL (rt_root tree') (plug (Node (Node u (g, cg) s) (p, cp) t) fs)
    \<and> relinked (set (tree_addrs (plug (Node u (g, cg) (Node s (p, cp) t)) fs))) tree h tree' h'"
proof -
  let ?T = "plug (Node u (g, cg) (Node s (p, cp) t)) fs"
  have m: "mirror ?T = plug (Node (Node (mirror t) (p, cp) (mirror s)) (g, cg) (mirror u)) (map mirror_frame fs)"
    by (simp add: mirror_plug)
  have "rep (mir \<circ> h) NULL (rt_root tree) (mirror ?T)" "distinct (tree_addrs (mirror ?T))"
    using assms by (simp_all add: rep_mirror tree_addrs_mirror)
  from rotate_right_rep [OF this [unfolded m]] obtain tree' h' where
    r: "rbt_rotate_right g tree (mir \<circ> h) = Some (tree', h')"
      "rep h' NULL (rt_root tree') (plug (Node (mirror t) (p, cp) (Node (mirror s) (g, cg) (mirror u))) (map mirror_frame fs))"
      "relinked (set (tree_addrs (mirror ?T))) tree (mir \<circ> h) tree' h'"
    unfolding m by blast
  have "rep (mir \<circ> h') NULL (rt_root tree') (plug (Node (Node u (g, cg) s) (p, cp) t) fs)"
    using r(2) rep_mirror [of "mir \<circ> h'" NULL "rt_root tree'" "plug (Node (Node u (g, cg) s) (p, cp) t) fs"]
    by (simp add: mirror_plug)
  moreover have "relinked (set (tree_addrs ?T)) tree h tree' (mir \<circ> h')"
    using r(3) by (simp add: relinked_def tree_addrs_mirror)
  ultimately show ?thesis using r(1) by (auto simp: rotate_left_mirror)
qed

section \<open>Repair after an insertion\<close>

fun frame_addr :: "frame \<Rightarrow> addr" where
  "frame_addr (L a c r) = a"
| "frame_addr (R l a c) = a"

definition parent_of :: "frame list \<Rightarrow> addr" where
  "parent_of fs = (case fs of [] \<Rightarrow> NULL | f # _ \<Rightarrow> frame_addr f)"

lemma parent_of_simps [simp]: "parent_of [] = NULL" "parent_of (f # fs) = frame_addr f"
  by (simp_all add: parent_of_def)

lemma rep_focus:
  assumes "rep h NULL root (plug (Node l (x, c) r) fs)"
  shows "x \<noteq> NULL" "rb_color (h x) = col c" "rb_parent (h x) = parent_of fs"
    "rep h x (rb_left (h x)) l" "rep h x (rb_right (h x)) r"
    "fs \<noteq> [] \<Longrightarrow> parent_of fs \<noteq> NULL" "fs = [] \<Longrightarrow> root = x"
proof -
  obtain par where "rep h par x (Node l (x, c) r)" "frep h root x par fs" using assms by (auto simp: rep_plug)
  then show "x \<noteq> NULL" "rb_color (h x) = col c" "rb_parent (h x) = parent_of fs"
    "rep h x (rb_left (h x)) l" "rep h x (rb_right (h x)) r" "fs \<noteq> [] \<Longrightarrow> parent_of fs \<noteq> NULL" "fs = [] \<Longrightarrow> root = x"
    by (cases fs; auto split: frame.splits)+
qed

lemma rep_rootc: "rep h par p t \<Longrightarrow> p \<noteq> NULL \<and> rb_color (h p) = RB_RED \<longleftrightarrow> rootc t = Red"
  by (cases t rule: rootc.cases) auto

lemma color_rep:
  fixes c' :: color
  assumes "rep h NULL root (plug (Node l (a, c) r) fs)" "distinct (tree_addrs (plug (Node l (a, c) r) fs))"
  defines "h' \<equiv> h(a := (h a)\<lparr>rb_color := col c'\<rparr>)"
  shows "set_color a (col c') h = Some h'" "rep h' NULL root (plug (Node l (a, c') r) fs)"
    and "a \<in> A \<Longrightarrow> relinked A tree h tree h'"
proof -
  obtain par where p: "rep h par a (Node l (a, c) r)" "frep h root a par fs" using assms(1) by (auto simp: rep_plug)
  have "a \<notin> set (tree_addrs l)" "a \<notin> set (tree_addrs r)" "a \<notin> set (frames_before fs)" "a \<notin> set (frames_after fs)"
    using assms(2) by (auto simp: tree_addrs_plug)
  then have "rep h' par a (Node l (a, c') r)" "frep h' root a par fs" using p by (auto simp: h'_def)
  then show "rep h' NULL root (plug (Node l (a, c') r) fs)" by (auto simp: rep_plug)
  show "set_color a (col c') h = Some h'" using p by (simp add: setn_def h'_def)
  show "a \<in> A \<Longrightarrow> relinked A tree h tree h'" by (simp add: h'_def relinked_upd [OF relinked_refl])
qed

lemma fixup_loop_stop:
  assumes "x \<noteq> NULL" "rb_parent (h x) = NULL \<or> rb_color (h (rb_parent (h x))) \<noteq> RB_RED"
  shows "rbt_insert_fixup_loop x tree h = Some (tree, h)"
  using assms by (subst rbt_insert_fixup_loop.simps) (auto simp: nd_def Let_def)

text \<open>Parent \<open>p\<close> red, below a grandparent \<open>g\<close>: which child the parent is, and the uncle.\<close>

lemma uncle_left:
  assumes "rep h NULL root (plug (Node l (x, c) r) (f # L g cg u # fs))" "distinct (tree_addrs (plug (Node l (x, c) r) (f # L g cg u # fs)))"
  shows "rb_parent (h x) = frame_addr f" "rb_parent (h (frame_addr f)) = g" "rb_left (h g) = frame_addr f" "g \<noteq> NULL"
    "rbt_uncle x h = Some (rb_right (h g))" "rep h g (rb_right (h g)) u" "rb_color (h (frame_addr f)) = col (frame_color f)"
    "frame_addr f \<noteq> NULL"
proof -
  obtain par where p: "rep h par x (Node l (x, c) r)" "frep h root x par (f # L g cg u # fs)"
    using assms(1) unfolding rep_plug by auto
  then show "rb_parent (h x) = frame_addr f" "rb_parent (h (frame_addr f)) = g" "rb_left (h g) = frame_addr f" "g \<noteq> NULL"
    "rbt_uncle x h = Some (rb_right (h g))" "rep h g (rb_right (h g)) u" "rb_color (h (frame_addr f)) = col (frame_color f)"
    "frame_addr f \<noteq> NULL"
    by (cases f; auto simp: rbt_uncle_def nd_def Let_def)+
qed

lemma uncle_right:
  assumes "rep h NULL root (plug (Node l (x, c) r) (f # R u g cg # fs))" "distinct (tree_addrs (plug (Node l (x, c) r) (f # R u g cg # fs)))"
  shows "rb_parent (h x) = frame_addr f" "rb_parent (h (frame_addr f)) = g" "rb_left (h g) \<noteq> frame_addr f" "g \<noteq> NULL"
    "rbt_uncle x h = Some (rb_left (h g))" "rep h g (rb_left (h g)) u" "rb_color (h (frame_addr f)) = col (frame_color f)"
    "frame_addr f \<noteq> NULL"
proof -
  obtain par where p: "rep h par x (Node l (x, c) r)" "frep h root x par (f # R u g cg # fs)"
    using assms(1) unfolding rep_plug by auto
  have u: "rep h g (rb_left (h g)) u" using p(2) by (cases f) auto
  have "frame_addr f \<notin> set (tree_addrs u)" using assms(2) by (cases f) (auto simp: tree_addrs_plug)
  moreover have "frame_addr f \<noteq> NULL" using p(2) by (cases f) auto
  ultimately have ne: "rb_left (h g) \<noteq> frame_addr f" using rep_root [OF u] by auto
  then show "rb_parent (h x) = frame_addr f" "rb_parent (h (frame_addr f)) = g" "rb_left (h g) \<noteq> frame_addr f" "g \<noteq> NULL"
    "rbt_uncle x h = Some (rb_left (h g))" "rep h g (rb_left (h g)) u" "rb_color (h (frame_addr f)) = col (frame_color f)"
    "frame_addr f \<noteq> NULL"
    using p by (cases f; auto simp: rbt_uncle_def nd_def Let_def)+
qed

end
