(* ===== verification/Rbt_Insert.thy ===== *)
theory Rbt_Insert
  imports Rbt_Refine
begin

unbundle bit_operations_syntax

text \<open>
  \<open>rbt_insert\<close> refines the abstract insertion: the repair loop ends and gives \<open>afix\<close>, and the whole
  operation keeps the red-black conditions and the order of the keys.
\<close>

section \<open>The repair loop\<close>

lemma recolor_left:
  assumes "rep h NULL root (plug (Node l (x, c) r) (f # L g cg u # fs))"
    and "distinct (tree_addrs (plug (Node l (x, c) r) (f # L g cg u # fs)))" "frame_color f = Red" "rootc u = Red" "rt_root tree = root"
  defines "f' \<equiv> (case f of L p d s \<Rightarrow> L p Black s | R s p d \<Rightarrow> R s p Black)"
  shows "\<exists>h'. rbt_insert_fixup_loop x tree h = rbt_insert_fixup_loop g tree h'
    \<and> rep h' NULL root (plug (Node (fill (Node l (x, c) r) f') (g, Red) (paint Black u)) fs)
    \<and> relinked (set (tree_addrs (plug (Node l (x, c) r) (f # L g cg u # fs)))) tree h tree h'"
proof -
  let ?t = "Node l (x, c) r" and ?p = "frame_addr f"
  let ?A = "set (tree_addrs (plug ?t (f # L g cg u # fs)))"
  note n = uncle_left [OF assms(1,2)]
  obtain ul ua ur where u: "u = Node ul (ua, Red) ur" using assms(4) by (cases u rule: rootc.cases) auto
  have ua: "rb_right (h g) = ua" "ua \<noteq> NULL" "rb_color (h ua) = RB_RED" using n(6) u by auto
  let ?h1 = "h(ua := (h ua)\<lparr>rb_color := col Black\<rparr>)"
  let ?h2 = "?h1(?p := (?h1 ?p)\<lparr>rb_color := col Black\<rparr>)"
  let ?h3 = "?h2(g := (?h2 g)\<lparr>rb_color := col Red\<rparr>)"
  have d: "distinct (tree_addrs (plug ?t (f' # L g cg u # fs)))" "tree_addrs (fill ?t f') = tree_addrs (fill ?t f)"
    using assms(2) by (cases f; simp add: f'_def tree_addrs_plug)+
  have "rep ?h1 NULL root (plug (Node ul (ua, Black) ur) (R (fill ?t f) g cg # fs))"
    by (rule color_rep(2)) (use assms(1,2) u in simp_all)
  then have "rep ?h2 NULL root (plug ?t (f' # L g cg (paint Black u) # fs))"
  proof (cases f)
    case (L p d s)
    then show ?thesis
      using color_rep(2) [of ?h1 root ?t p Red s "L g cg (paint Black u) # fs" Black] \<open>rep ?h1 _ _ _\<close> assms(2,3) u
      by (simp add: f'_def tree_addrs_plug)
  next
    case (R s p d)
    then show ?thesis
      using color_rep(2) [of ?h1 root s p Red ?t "L g cg (paint Black u) # fs" Black] \<open>rep ?h1 _ _ _\<close> assms(2,3) u
      by (simp add: f'_def tree_addrs_plug)
  qed
  then have "rep ?h3 NULL root (plug (Node (fill ?t f') (g, Red) (paint Black u)) fs)"
    using d by (intro color_rep(2) [where c = cg]) (simp_all add: tree_addrs_plug)
  moreover have "rbt_insert_fixup_loop x tree h = rbt_insert_fixup_loop g tree ?h3"
    using n ua assms(3) rep_focus(1) [OF assms(1)]
    by (subst rbt_insert_fixup_loop.simps) (simp add: nd_def setn_def Let_def)
  moreover have "relinked ?A tree h tree ?h3"
  proof -
    have "ua \<in> ?A" "?p \<in> ?A" "g \<in> ?A" using u by (cases f; auto simp: tree_addrs_plug)+
    then show ?thesis by (intro relinked_upd relinked_refl) simp_all
  qed
  ultimately show ?thesis by blast
qed

lemma recolor_right:
  assumes "rep h NULL root (plug (Node l (x, c) r) (f # R u g cg # fs))"
    and "distinct (tree_addrs (plug (Node l (x, c) r) (f # R u g cg # fs)))" "frame_color f = Red" "rootc u = Red" "rt_root tree = root"
  defines "f' \<equiv> (case f of L p d s \<Rightarrow> L p Black s | R s p d \<Rightarrow> R s p Black)"
  shows "\<exists>h'. rbt_insert_fixup_loop x tree h = rbt_insert_fixup_loop g tree h'
    \<and> rep h' NULL root (plug (Node (paint Black u) (g, Red) (fill (Node l (x, c) r) f')) fs)
    \<and> relinked (set (tree_addrs (plug (Node l (x, c) r) (f # R u g cg # fs)))) tree h tree h'"
proof -
  let ?t = "Node l (x, c) r" and ?p = "frame_addr f"
  let ?A = "set (tree_addrs (plug ?t (f # R u g cg # fs)))"
  note n = uncle_right [OF assms(1,2)]
  obtain ul ua ur where u: "u = Node ul (ua, Red) ur" using assms(4) by (cases u rule: rootc.cases) auto
  have ua: "rb_left (h g) = ua" "ua \<noteq> NULL" "rb_color (h ua) = RB_RED" using n(6) u by auto
  let ?h1 = "h(ua := (h ua)\<lparr>rb_color := col Black\<rparr>)"
  let ?h2 = "?h1(?p := (?h1 ?p)\<lparr>rb_color := col Black\<rparr>)"
  let ?h3 = "?h2(g := (?h2 g)\<lparr>rb_color := col Red\<rparr>)"
  have d: "distinct (tree_addrs (plug ?t (f' # R u g cg # fs)))" "tree_addrs (fill ?t f') = tree_addrs (fill ?t f)"
    using assms(2) by (cases f; simp add: f'_def tree_addrs_plug)+
  have "rep ?h1 NULL root (plug (Node ul (ua, Black) ur) (L g cg (fill ?t f) # fs))"
    by (rule color_rep(2)) (use assms(1,2) u in simp_all)
  then have "rep ?h2 NULL root (plug ?t (f' # R (paint Black u) g cg # fs))"
  proof (cases f)
    case (L p d s)
    then show ?thesis
      using color_rep(2) [of ?h1 root ?t p Red s "R (paint Black u) g cg # fs" Black] \<open>rep ?h1 _ _ _\<close> assms(2,3) u
      by (simp add: f'_def tree_addrs_plug)
  next
    case (R s p d)
    then show ?thesis
      using color_rep(2) [of ?h1 root s p Red ?t "R (paint Black u) g cg # fs" Black] \<open>rep ?h1 _ _ _\<close> assms(2,3) u
      by (simp add: f'_def tree_addrs_plug)
  qed
  then have "rep ?h3 NULL root (plug (Node (paint Black u) (g, Red) (fill ?t f')) fs)"
    using d by (intro color_rep(2) [where c = cg]) (simp_all add: tree_addrs_plug)
  moreover have "rbt_insert_fixup_loop x tree h = rbt_insert_fixup_loop g tree ?h3"
    using n ua assms(3) rep_focus(1) [OF assms(1)]
    by (subst rbt_insert_fixup_loop.simps) (simp add: nd_def setn_def Let_def)
  moreover have "relinked ?A tree h tree ?h3"
  proof -
    have "ua \<in> ?A" "?p \<in> ?A" "g \<in> ?A" using u by (cases f; auto simp: tree_addrs_plug)+
    then show ?thesis by (intro relinked_upd relinked_refl) simp_all
  qed
  ultimately show ?thesis by blast
qed

lemma outer_left:
  assumes "rep h NULL (rt_root tree) (plug (Node l (x, Red) r) (L p Red s # L g cg u # fs))"
    and "distinct (tree_addrs (plug (Node l (x, Red) r) (L p Red s # L g cg u # fs)))" "rootc u = Black"
  shows "\<exists>tree' h'. rbt_insert_fixup_loop x tree h = Some (tree', h')
    \<and> rep h' NULL (rt_root tree') (plug (Node (Node l (x, Red) r) (p, Black) (Node s (g, Red) u)) fs)
    \<and> relinked (set (tree_addrs (plug (Node l (x, Red) r) (L p Red s # L g cg u # fs)))) tree h tree' h'"
proof -
  let ?t = "Node l (x, Red) r" and ?root = "rt_root tree"
  let ?A = "set (tree_addrs (plug ?t (L p Red s # L g cg u # fs)))"
  note n = uncle_left [OF assms(1,2), simplified]
  have nu: "\<not> (rb_right (h g) \<noteq> NULL \<and> rb_color (h (rb_right (h g))) = RB_RED)" using rep_rootc [OF n(6)] assms(3) by simp
  have "rep h p (rb_right (h p)) s" using rep_focus(5) [of h ?root ?t p Red s "L g cg u # fs"] assms(1) by simp
  moreover have "x \<notin> set (tree_addrs s)" "x \<noteq> NULL" using assms(2) rep_focus(1) [OF assms(1)] by (auto simp: tree_addrs_plug)
  ultimately have nr: "x \<noteq> rb_right (h p)" "x \<noteq> NULL" using rep_root by metis+
  let ?h1 = "h(p := (h p)\<lparr>rb_color := col Black\<rparr>)"
  let ?h2 = "?h1(g := (?h1 g)\<lparr>rb_color := col Red\<rparr>)"
  have "rep ?h1 NULL ?root (plug (Node ?t (p, Black) s) (L g cg u # fs))"
    by (rule color_rep(2)) (use assms(1,2) in simp_all)
  then have "rep ?h2 NULL ?root (plug (Node (Node ?t (p, Black) s) (g, Red) u) fs)"
    using assms(2) by (intro color_rep(2) [where c = cg]) (simp_all add: tree_addrs_plug)
  from rotate_right_rep [OF this] assms(2) obtain tree' h' where
    r: "rbt_rotate_right g tree ?h2 = Some (tree', h')"
      "rep h' NULL (rt_root tree') (plug (Node ?t (p, Black) (Node s (g, Red) u)) fs)" "relinked ?A tree ?h2 tree' h'"
    by (auto simp: tree_addrs_plug)
  have "relinked ?A tree h tree ?h2" by (intro relinked_upd relinked_refl) (simp_all add: tree_addrs_plug)
  then have "relinked ?A tree h tree' h'" using r(3) by (rule relinked_trans)
  moreover have "rbt_insert_fixup_loop x tree' h' = Some (tree', h')"
  proof (rule fixup_loop_stop [OF nr(2)])
    have "rb_parent (h' x) = p" using rep_focus(3) [of h' "rt_root tree'" l x Red r "L p Black (Node s (g, Red) u) # fs"] r(2) by simp
    moreover have "rb_color (h' p) = col Black" using rep_focus(2) [OF r(2)] .
    ultimately show "rb_parent (h' x) = NULL \<or> rb_color (h' (rb_parent (h' x))) \<noteq> RB_RED" by (simp add: RB_RED_def RB_BLACK_def)
  qed
  moreover have "rbt_insert_fixup_loop x tree h = rbt_insert_fixup_loop x tree' h'"
    using n nu nr r(1) by (subst rbt_insert_fixup_loop.simps, cases "rb_right (h g) = NULL")
      (simp_all add: nd_def setn_def Let_def del: fun_upd_apply)
  ultimately show ?thesis using r(2) by auto
qed

lemma outer_right:
  assumes "rep h NULL (rt_root tree) (plug (Node l (x, Red) r) (R s p Red # R u g cg # fs))"
    and "distinct (tree_addrs (plug (Node l (x, Red) r) (R s p Red # R u g cg # fs)))" "rootc u = Black"
  shows "\<exists>tree' h'. rbt_insert_fixup_loop x tree h = Some (tree', h')
    \<and> rep h' NULL (rt_root tree') (plug (Node (Node u (g, Red) s) (p, Black) (Node l (x, Red) r)) fs)
    \<and> relinked (set (tree_addrs (plug (Node l (x, Red) r) (R s p Red # R u g cg # fs)))) tree h tree' h'"
proof -
  let ?t = "Node l (x, Red) r" and ?root = "rt_root tree"
  let ?A = "set (tree_addrs (plug ?t (R s p Red # R u g cg # fs)))"
  note n = uncle_right [OF assms(1,2), simplified]
  have nu: "\<not> (rb_left (h g) \<noteq> NULL \<and> rb_color (h (rb_left (h g))) = RB_RED)" using rep_rootc [OF n(6)] assms(3) by simp
  have "rep h p (rb_left (h p)) s" using rep_focus(4) [of h ?root s p Red ?t "R u g cg # fs"] assms(1) by simp
  moreover have "x \<notin> set (tree_addrs s)" "x \<noteq> NULL" using assms(2) rep_focus(1) [OF assms(1)] by (auto simp: tree_addrs_plug)
  ultimately have nr: "x \<noteq> rb_left (h p)" "x \<noteq> NULL" using rep_root by metis+
  let ?h1 = "h(p := (h p)\<lparr>rb_color := col Black\<rparr>)"
  let ?h2 = "?h1(g := (?h1 g)\<lparr>rb_color := col Red\<rparr>)"
  have "rep ?h1 NULL ?root (plug (Node s (p, Black) ?t) (R u g cg # fs))"
    by (rule color_rep(2)) (use assms(1,2) in simp_all)
  then have "rep ?h2 NULL ?root (plug (Node u (g, Red) (Node s (p, Black) ?t)) fs)"
    using assms(2) by (intro color_rep(2) [where c = cg]) (simp_all add: tree_addrs_plug)
  from rotate_left_rep [OF this] assms(2) obtain tree' h' where
    r: "rbt_rotate_left g tree ?h2 = Some (tree', h')"
      "rep h' NULL (rt_root tree') (plug (Node (Node u (g, Red) s) (p, Black) ?t) fs)" "relinked ?A tree ?h2 tree' h'"
    by (auto simp: tree_addrs_plug)
  have "relinked ?A tree h tree ?h2" by (intro relinked_upd relinked_refl) (simp_all add: tree_addrs_plug)
  then have "relinked ?A tree h tree' h'" using r(3) by (rule relinked_trans)
  moreover have "rbt_insert_fixup_loop x tree' h' = Some (tree', h')"
  proof (rule fixup_loop_stop [OF nr(2)])
    have "rb_parent (h' x) = p" using rep_focus(3) [of h' "rt_root tree'" l x Red r "R (Node u (g, Red) s) p Black # fs"] r(2) by simp
    moreover have "rb_color (h' p) = col Black" using rep_focus(2) [OF r(2)] .
    ultimately show "rb_parent (h' x) = NULL \<or> rb_color (h' (rb_parent (h' x))) \<noteq> RB_RED" by (simp add: RB_RED_def RB_BLACK_def)
  qed
  moreover have "rbt_insert_fixup_loop x tree h = rbt_insert_fixup_loop x tree' h'"
    using n nu nr r(1) by (subst rbt_insert_fixup_loop.simps, cases "rb_left (h g) = NULL")
      (simp_all add: nd_def setn_def Let_def del: fun_upd_apply)
  ultimately show ?thesis using r(2) by auto
qed

lemma inner_left:
  assumes "rep h NULL (rt_root tree) (plug (Node l (x, Red) r) (R s p Red # L g cg u # fs))"
    and "distinct (tree_addrs (plug (Node l (x, Red) r) (R s p Red # L g cg u # fs)))" "rootc u = Black"
  shows "\<exists>tree' h'. rbt_insert_fixup_loop x tree h = Some (tree', h')
    \<and> rep h' NULL (rt_root tree') (plug (Node (Node s (p, Red) l) (x, Black) (Node r (g, Red) u)) fs)
    \<and> relinked (set (tree_addrs (plug (Node l (x, Red) r) (R s p Red # L g cg u # fs)))) tree h tree' h'"
proof -
  let ?t = "Node l (x, Red) r"
  let ?A = "set (tree_addrs (plug ?t (R s p Red # L g cg u # fs)))"
  note n = uncle_left [OF assms(1,2), simplified]
  have nu: "\<not> (rb_right (h g) \<noteq> NULL \<and> rb_color (h (rb_right (h g))) = RB_RED)" using rep_rootc [OF n(6)] assms(3) by simp
  have xr: "x = rb_right (h p)" "x \<noteq> NULL"
    using rep_focus(5) [of h "rt_root tree" s p Red ?t "L g cg u # fs"] assms(1) by auto
  have "rep h NULL (rt_root tree) (plug (Node s (p, Red) ?t) (L g cg u # fs))"
    "distinct (tree_addrs (plug (Node s (p, Red) ?t) (L g cg u # fs)))" using assms by simp_all
  from rotate_left_rep [OF this] obtain tree1 h1 where
    r: "rbt_rotate_left p tree h = Some (tree1, h1)"
      "rep h1 NULL (rt_root tree1) (plug (Node s (p, Red) l) (L x Red r # L g cg u # fs))" "relinked ?A tree h tree1 h1"
    by (auto simp: tree_addrs_plug)
  obtain tree' h' where o: "rbt_insert_fixup_loop p tree1 h1 = Some (tree', h')"
    "rep h' NULL (rt_root tree') (plug (Node (Node s (p, Red) l) (x, Black) (Node r (g, Red) u)) fs)" "relinked ?A tree1 h1 tree' h'"
    using outer_left [OF r(2) _ assms(3)] assms(2) by (auto simp: tree_addrs_plug)
  have "rbt_insert_fixup_loop x tree h = Some (tree', h')"
    using n nu xr(1) [symmetric] xr(2) r(1) o(1)
    by (subst rbt_insert_fixup_loop.simps, cases "rb_right (h g) = NULL") (simp_all add: nd_def Let_def)
  then show ?thesis using o(2) relinked_trans [OF r(3) o(3)] by blast
qed

lemma inner_right:
  assumes "rep h NULL (rt_root tree) (plug (Node l (x, Red) r) (L p Red s # R u g cg # fs))"
    and "distinct (tree_addrs (plug (Node l (x, Red) r) (L p Red s # R u g cg # fs)))" "rootc u = Black"
  shows "\<exists>tree' h'. rbt_insert_fixup_loop x tree h = Some (tree', h')
    \<and> rep h' NULL (rt_root tree') (plug (Node (Node u (g, Red) l) (x, Black) (Node r (p, Red) s)) fs)
    \<and> relinked (set (tree_addrs (plug (Node l (x, Red) r) (L p Red s # R u g cg # fs)))) tree h tree' h'"
proof -
  let ?t = "Node l (x, Red) r"
  let ?A = "set (tree_addrs (plug ?t (L p Red s # R u g cg # fs)))"
  note n = uncle_right [OF assms(1,2), simplified]
  have nu: "\<not> (rb_left (h g) \<noteq> NULL \<and> rb_color (h (rb_left (h g))) = RB_RED)" using rep_rootc [OF n(6)] assms(3) by simp
  have xl: "x = rb_left (h p)" "x \<noteq> NULL"
    using rep_focus(4) [of h "rt_root tree" ?t p Red s "R u g cg # fs"] assms(1) by auto
  have "rep h NULL (rt_root tree) (plug (Node ?t (p, Red) s) (R u g cg # fs))"
    "distinct (tree_addrs (plug (Node ?t (p, Red) s) (R u g cg # fs)))" using assms by simp_all
  from rotate_right_rep [OF this] obtain tree1 h1 where
    r: "rbt_rotate_right p tree h = Some (tree1, h1)"
      "rep h1 NULL (rt_root tree1) (plug (Node r (p, Red) s) (R l x Red # R u g cg # fs))" "relinked ?A tree h tree1 h1"
    by (auto simp: tree_addrs_plug)
  obtain tree' h' where o: "rbt_insert_fixup_loop p tree1 h1 = Some (tree', h')"
    "rep h' NULL (rt_root tree') (plug (Node (Node u (g, Red) l) (x, Black) (Node r (p, Red) s)) fs)" "relinked ?A tree1 h1 tree' h'"
    using outer_right [OF r(2) _ assms(3)] assms(2) by (auto simp: tree_addrs_plug)
  have "rbt_insert_fixup_loop x tree h = Some (tree', h')"
    using n nu xl(1) [symmetric] xl(2) r(1) o(1)
    by (subst rbt_insert_fixup_loop.simps, cases "rb_left (h g) = NULL") (simp_all add: nd_def Let_def)
  then show ?thesis using o(2) relinked_trans [OF r(3) o(3)] by blast
qed

lemma loop_black_parent:
  assumes "rep h NULL root (plug (Node l (x, Red) r) fs)" "fs = [] \<or> frame_color (hd fs) = Black"
  shows "rbt_insert_fixup_loop x tree h = Some (tree, h)"
proof (rule fixup_loop_stop)
  show "x \<noteq> NULL" using rep_focus(1) [OF assms(1)] .
  show "rb_parent (h x) = NULL \<or> rb_color (h (rb_parent (h x))) \<noteq> RB_RED"
  proof (cases fs)
    case Nil
    then show ?thesis using rep_focus(3) [OF assms(1)] by simp
  next
    case (Cons f fs')
    then have c: "frame_color f = Black" "rb_parent (h x) = frame_addr f" using assms(2) rep_focus(3) [OF assms(1)] by auto
    have "rb_color (h (frame_addr f)) = col (frame_color f)"
      using assms(1) Cons rep_focus(2) [of h root "Node l (x, Red) r"] rep_focus(2) [of h root _ _ _ "Node l (x, Red) r"]
      by (cases f) auto
    then show ?thesis using c by (simp add: RB_RED_def RB_BLACK_def)
  qed
qed

definition loops_to :: "addr \<Rightarrow> rbtree \<Rightarrow> nodes \<Rightarrow> ctree \<Rightarrow> addr set \<Rightarrow> bool" where
  "loops_to x tree h t A \<longleftrightarrow> (\<exists>tree' h'. rbt_insert_fixup_loop x tree h = Some (tree', h')
     \<and> rep h' NULL (rt_root tree') t \<and> relinked A tree h tree' h')"

lemma loops_to_step:
  assumes "rbt_insert_fixup_loop x tree h = rbt_insert_fixup_loop y tree h1" "relinked A tree h tree h1" "loops_to y tree h1 t A"
  shows "loops_to x tree h t A"
  using assms relinked_trans unfolding loops_to_def by fastforce

lemma loops_stop:
  assumes "rep h NULL (rt_root tree) (plug (Node l (x, Red) r) fs)" "fs = [] \<or> frame_color (hd fs) = Black"
  shows "loops_to x tree h (plug (Node l (x, Red) r) fs) A"
  using assms loop_black_parent [OF assms, of tree] by (simp add: loops_to_def relinked_refl)

lemma fixup_loop_rep:
  "rep h NULL (rt_root tree) (plug t fs) \<Longrightarrow> distinct (tree_addrs (plug t fs)) \<Longrightarrow> t = Node l (x, Red) r \<Longrightarrow>
   fs \<noteq> [] \<longrightarrow> frame_color (last fs) = Black \<Longrightarrow> loops_to x tree h (afix t fs) (set (tree_addrs (plug t fs)))"
proof (induction t fs arbitrary: h l x r rule: afix.induct)
  case (1 t p s g cg u fs)
  note d = 1(3) [unfolded 1(4)] and rp = 1(2) [unfolded 1(4)]
  show ?case
  proof (cases "rootc u = Red")
    case True
    let ?t = "Node (Node t (p, Black) s) (g, Red) (paint Black u)"
    obtain h1 where h1: "rbt_insert_fixup_loop x tree h = rbt_insert_fixup_loop g tree h1" "rep h1 NULL (rt_root tree) (plug ?t fs)"
      "relinked (set (tree_addrs (plug t (L p Red s # L g cg u # fs)))) tree h tree h1"
      using recolor_left [OF rp d _ True] 1(4) by auto
    have "tree_addrs (plug ?t fs) = tree_addrs (plug t (L p Red s # L g cg u # fs))" by (simp add: tree_addrs_plug)
    note e = this
    have "loops_to g tree h1 (afix ?t fs) (set (tree_addrs (plug ?t fs)))"
      by (rule 1(1) [OF True h1(2)]) (use e 1(3,5) in \<open>auto split: if_splits\<close>)
    then show ?thesis using loops_to_step [OF h1(1,3)] e True by simp
  next
    case False
    then show ?thesis using outer_left [OF rp d] 1(4) by (simp add: loops_to_def)
  qed
next
  case (2 t s p u g cg fs)
  note d = 2(3) [unfolded 2(4)] and rp = 2(2) [unfolded 2(4)]
  show ?case
  proof (cases "rootc u = Red")
    case True
    let ?t = "Node (paint Black u) (g, Red) (Node s (p, Black) t)"
    obtain h1 where h1: "rbt_insert_fixup_loop x tree h = rbt_insert_fixup_loop g tree h1" "rep h1 NULL (rt_root tree) (plug ?t fs)"
      "relinked (set (tree_addrs (plug t (R s p Red # R u g cg # fs)))) tree h tree h1"
      using recolor_right [OF rp d _ True] 2(4) by auto
    have "tree_addrs (plug ?t fs) = tree_addrs (plug t (R s p Red # R u g cg # fs))" by (simp add: tree_addrs_plug)
    note e = this
    have "loops_to g tree h1 (afix ?t fs) (set (tree_addrs (plug ?t fs)))"
      by (rule 2(1) [OF True h1(2)]) (use e 2(3,5) in \<open>auto split: if_splits\<close>)
    then show ?thesis using loops_to_step [OF h1(1,3)] e True by simp
  next
    case False
    then show ?thesis using outer_right [OF rp d] 2(4) by (simp add: loops_to_def)
  qed
next
  case (3 t s p g cg u fs)
  note d = 3(3) [unfolded 3(4)] and rp = 3(2) [unfolded 3(4)]
  show ?case
  proof (cases "rootc u = Red")
    case True
    let ?t = "Node (Node s (p, Black) t) (g, Red) (paint Black u)"
    obtain h1 where h1: "rbt_insert_fixup_loop x tree h = rbt_insert_fixup_loop g tree h1" "rep h1 NULL (rt_root tree) (plug ?t fs)"
      "relinked (set (tree_addrs (plug t (R s p Red # L g cg u # fs)))) tree h tree h1"
      using recolor_left [OF rp d _ True] 3(4) by auto
    have "tree_addrs (plug ?t fs) = tree_addrs (plug t (R s p Red # L g cg u # fs))" by (simp add: tree_addrs_plug)
    note e = this
    have "loops_to g tree h1 (afix ?t fs) (set (tree_addrs (plug ?t fs)))"
      by (rule 3(1) [OF True h1(2)]) (use e 3(3,5) in \<open>auto split: if_splits\<close>)
    then show ?thesis using loops_to_step [OF h1(1,3)] e True by simp
  next
    case False
    then show ?thesis using inner_left [OF rp d] 3(4) by (simp add: loops_to_def)
  qed
next
  case (4 t p s u g cg fs)
  note d = 4(3) [unfolded 4(4)] and rp = 4(2) [unfolded 4(4)]
  show ?case
  proof (cases "rootc u = Red")
    case True
    let ?t = "Node (paint Black u) (g, Red) (Node t (p, Black) s)"
    obtain h1 where h1: "rbt_insert_fixup_loop x tree h = rbt_insert_fixup_loop g tree h1" "rep h1 NULL (rt_root tree) (plug ?t fs)"
      "relinked (set (tree_addrs (plug t (L p Red s # R u g cg # fs)))) tree h tree h1"
      using recolor_right [OF rp d _ True] 4(4) by auto
    have "tree_addrs (plug ?t fs) = tree_addrs (plug t (L p Red s # R u g cg # fs))" by (simp add: tree_addrs_plug)
    note e = this
    have "loops_to g tree h1 (afix ?t fs) (set (tree_addrs (plug ?t fs)))"
      by (rule 4(1) [OF True h1(2)]) (use e 4(3,5) in \<open>auto split: if_splits\<close>)
    then show ?thesis using loops_to_step [OF h1(1,3)] e True by simp
  next
    case False
    then show ?thesis using inner_right [OF rp d] 4(4) by (simp add: loops_to_def)
  qed
qed (simp only: afix.simps, rule loops_stop, assumption, simp)+

lemma insert_fixup_rep:
  assumes "rep h NULL (rt_root tree) (plug t fs)" "distinct (tree_addrs (plug t fs))" "t = Node l (x, Red) r" "fixable t fs"
  shows "\<exists>tree' h'. rbt_insert_fixup x tree h = Some (tree', h') \<and> rep h' NULL (rt_root tree') (paint Black (afix t fs))
    \<and> relinked (set (tree_addrs (plug t fs))) tree h tree' h'"
proof -
  let ?A = "set (tree_addrs (plug t fs))"
  have "fs \<noteq> [] \<longrightarrow> frame_color (last fs) = Black" using assms(4) by (simp add: fixable_def)
  then obtain tree' h' where r: "rbt_insert_fixup_loop x tree h = Some (tree', h')" "rep h' NULL (rt_root tree') (afix t fs)"
    "relinked ?A tree h tree' h'"
    using fixup_loop_rep [OF assms(1-3)] by (auto simp: loops_to_def)
  have ta: "tree_addrs (afix t fs) = tree_addrs (plug t fs)" using afix_ok [OF assms(4)] by blast
  then obtain tl a c tr where af: "afix t fs = Node tl (a, c) tr"
    using assms(3) by (cases "afix t fs" rule: rootc.cases) (auto simp: tree_addrs_plug)
  have root: "rt_root tree' = a" using r(2) af by simp
  have re: "rep h' NULL (rt_root tree') (plug (Node tl (a, c) tr) [])" using r(2) by (simp only: af plug.simps)
  have "distinct (tree_addrs (plug (Node tl (a, c) tr) []))" "a \<in> ?A" using assms(2) ta af by (auto simp flip: ta)
  note col = color_rep [OF re this(1), where c' = Black] and this(2)
  then show ?thesis
    using r(1) root rep_focus(1) [OF re] relinked_trans [OF r(3) col(3)] unfolding rbt_insert_fixup_def
    by (auto simp: af)
qed

section \<open>Where a key belongs\<close>

fun path :: "(addr \<Rightarrow> u64) \<Rightarrow> u64 \<Rightarrow> ctree \<Rightarrow> frame list \<Rightarrow> frame list option" where
  "path k key Leaf fs = Some fs"
| "path k key (Node l (a, c) r) fs =
    (if key < k a then path k key l (L a c r # fs)
     else if k a < key then path k key r (R l a c # fs)
     else None)"

abbreviation tree_keys :: "nodes \<Rightarrow> ctree \<Rightarrow> u64 list" where
  "tree_keys h t \<equiv> map (\<lambda>a. rb_key (h a)) (tree_addrs t)"

lemma find_path:
  "rep h par p t \<Longrightarrow> par = parent_of fs \<Longrightarrow>
   rbt_insert_find key p par h = Some (map_option parent_of (path (\<lambda>a. rb_key (h a)) key t fs))"
proof (induction t arbitrary: par p fs)
  case Leaf
  then show ?case by (subst rbt_insert_find.simps) simp
next
  case (Node l x r)
  obtain a c where x: "x = (a, c)" by (cases x)
  have a: "p = a" "a \<noteq> NULL" "rep h a (rb_left (h a)) l" "rep h a (rb_right (h a)) r" using Node.prems x by auto
  show ?case
    using Node.IH(1) [OF a(3), of "L a c r # fs"] Node.IH(2) [OF a(4), of "R l a c # fs"] a(1,2) x
    by (subst rbt_insert_find.simps) simp
qed

lemma path_Some:
  "path k key t fs = Some fs' \<Longrightarrow> plug Leaf fs' = plug t fs"
  by (induction k key t fs rule: path.induct) (auto split: if_splits)

lemma path_between:
  "path k key t fs = Some fs' \<Longrightarrow> sorted_wrt (<) (map k (tree_addrs t)) \<Longrightarrow> \<forall>b \<in> set (frames_before fs). k b < key \<Longrightarrow>
   \<forall>b \<in> set (frames_after fs). key < k b \<Longrightarrow>
   (\<forall>b \<in> set (frames_before fs'). k b < key) \<and> (\<forall>b \<in> set (frames_after fs'). key < k b)"
proof (induction k key t fs rule: path.induct)
  case (2 k key l a c r fs)
  have s: "sorted_wrt (<) (map k (tree_addrs l))" "sorted_wrt (<) (map k (tree_addrs r))"
    "\<forall>b \<in> set (tree_addrs l). k b < k a" "\<forall>b \<in> set (tree_addrs r). k a < k b"
    using 2(4) by (auto simp: sorted_wrt_append)
  show ?case
  proof (cases "key < k a")
    case True
    have "\<forall>b \<in> set (frames_after (L a c r # fs)). key < k b" using s(4) True 2(6) by auto
    then show ?thesis using 2(1) [OF True] 2(3,5) True s(1) by auto
  next
    case False
    then have lt: "k a < key" using 2(3) by (auto split: if_splits)
    have "\<forall>b \<in> set (frames_before (R l a c # fs)). k b < key" using s(3) lt 2(5) by auto
    then show ?thesis using 2(2) [OF False lt] 2(3,6) False lt s(2) by auto
  qed
qed simp

lemma path_None:
  "sorted_wrt (<) (map k (tree_addrs t)) \<Longrightarrow> path k key t fs = None \<longleftrightarrow> key \<in> k ` set (tree_addrs t)"
proof (induction k key t fs rule: path.induct)
  case (2 k key l a c r fs)
  have s: "sorted_wrt (<) (map k (tree_addrs l))" "sorted_wrt (<) (map k (tree_addrs r))"
    "\<forall>b \<in> set (tree_addrs l). k b < k a" "\<forall>b \<in> set (tree_addrs r). k a < k b"
    using 2(3) by (auto simp: sorted_wrt_append)
  consider "key < k a" | "k a < key" | "key = k a" by fastforce
  then show ?case
  proof cases
    case 1
    then have "key \<notin> k ` set (tree_addrs r)" using s(4) by (metis imageE less_trans less_irrefl)
    then show ?thesis using 2(1) s(1) 1 by auto
  next
    case 2
    then have "key \<notin> k ` set (tree_addrs l)" using s(3) by (metis imageE less_trans less_irrefl)
    then show ?thesis using "2.IH"(2) s(2) 2 by auto
  qed simp
qed simp

lemma insort_between:
  "\<forall>x \<in> set xs. x < key \<Longrightarrow> \<forall>y \<in> set ys. key < y \<Longrightarrow> insort key (xs @ ys) = xs @ key # ys" for key :: u64
proof (induction xs)
  case Nil
  then show ?case by (cases ys) auto
next
  case (Cons x xs)
  then show ?case by (auto simp: not_le)
qed

section \<open>Insertion\<close>

text \<open>A tree in the node store: layout, red-black conditions, keys in order, lock free, count right.\<close>

definition rbt_rep :: "nodes \<Rightarrow> rbtree \<Rightarrow> ctree \<Rightarrow> bool" where
  "rbt_rep h tree t \<longleftrightarrow> rep h NULL (rt_root tree) t \<and> distinct (tree_addrs t) \<and> rbt_ok t
     \<and> sorted_wrt (<) (tree_keys h t) \<and> rt_lock tree = 0 \<and> rt_num_nodes tree = of_nat (length (tree_addrs t))"

text \<open>The nodes of the tree are objects of the node cache.\<close>

definition rbt_inv :: "'a rbt_state_scheme \<Rightarrow> rbtree \<Rightarrow> ctree \<Rightarrow> bool" where
  "rbt_inv s tree t \<longleftrightarrow> rbt_rep (rbnodes s) tree t \<and> cache_inv rbnode_size 8 0 (rbt_slab s) s
     \<and> (\<forall>a \<in> set (tree_addrs t). (unat a, unat rbnode_size) \<in> cache_live rbnode_size 8 0 (rbt_slab s) s)"

lemma fixable_leaf:
  assumes "rbt_ok (plug Leaf fs)"
  shows "fixable (Node Leaf (x, Red) Leaf) fs"
  using assms rootc_plug [of fs Leaf] by (auto simp: rbt_ok_def fixable_def invc_plug invh_plug)

lemma link_new:
  assumes "rep h NULL (rt_root tree) (plug Leaf fs)" "distinct (tree_addrs (plug Leaf fs))" "x \<notin> set (tree_addrs (plug Leaf fs))" "x \<noteq> NULL"
    and "h x = new_node (parent_of fs) key" "\<forall>b \<in> set (frames_before fs). rb_key (h b) < key" "\<forall>b \<in> set (frames_after fs). key < rb_key (h b)"
    and "\<forall>b \<in> set (tree_addrs (plug Leaf fs)). b \<noteq> NULL"
  shows "\<exists>tree' h'. (if parent_of fs = NULL then Some (tree\<lparr>rt_root := x\<rparr>, h)
       else if key < rb_key (h (parent_of fs)) then do { h \<leftarrow> setn (parent_of fs) (rb_left_update (\<lambda>_. x)) h; Some (tree, h) }
       else do { h \<leftarrow> setn (parent_of fs) (rb_right_update (\<lambda>_. x)) h; Some (tree, h) }) = Some (tree', h')
    \<and> rep h' NULL (rt_root tree') (plug (Node Leaf (x, Red) Leaf) fs)
    \<and> relinked (set (tree_addrs (plug Leaf fs))) tree h tree' h'"
proof (cases fs)
  case Nil
  then show ?thesis using assms(4,5) by (auto simp: relinked_def new_node_def)
next
  case (Cons f fs')
  show ?thesis
  proof (cases f)
    case (L a c r)
    let ?h = "h(a := (h a)\<lparr>rb_left := x\<rparr>)"
    have a: "a \<noteq> NULL" "key < rb_key (h a)" "a \<notin> set (tree_addrs r)" "a \<notin> set (frames_before fs')" "a \<notin> set (frames_after fs')" "x \<noteq> a"
      using assms(2,3,7,8) Cons L by (auto simp: tree_addrs_plug)
    have "frep ?h (rt_root tree) x a (L a c r # fs')" using assms(1) a Cons L by (auto simp: rep_plug)
    then have "rep ?h NULL (rt_root tree) (plug (Node Leaf (x, Red) Leaf) fs)"
      using a assms(4,5) Cons L unfolding rep_plug by (auto simp: new_node_def)
    moreover have "relinked (set (tree_addrs (plug Leaf fs))) tree h tree ?h"
      by (intro relinked_upd relinked_refl) (use Cons L in \<open>auto simp: tree_addrs_plug\<close>)
    ultimately show ?thesis using a Cons L by (simp add: setn_def)
  next
    case (R l a c)
    let ?h = "h(a := (h a)\<lparr>rb_right := x\<rparr>)"
    have a: "a \<noteq> NULL" "\<not> key < rb_key (h a)" "a \<notin> set (tree_addrs l)" "a \<notin> set (frames_before fs')" "a \<notin> set (frames_after fs')" "x \<noteq> a"
      using assms(2,3,6,8) Cons R by (auto simp: tree_addrs_plug)
    have "frep ?h (rt_root tree) x a (R l a c # fs')" using assms(1) a Cons R by (auto simp: rep_plug)
    then have "rep ?h NULL (rt_root tree) (plug (Node Leaf (x, Red) Leaf) fs)"
      using a assms(4,5) Cons R unfolding rep_plug by (auto simp: new_node_def)
    moreover have "relinked (set (tree_addrs (plug Leaf fs))) tree h tree ?h"
      by (intro relinked_upd relinked_refl) (use Cons R in \<open>auto simp: tree_addrs_plug\<close>)
    ultimately show ?thesis using a Cons R by (simp add: setn_def)
  qed
qed

lemma rep_nonnull: "rep h par p t \<Longrightarrow> NULL \<notin> set (tree_addrs t)"
  by (induction t arbitrary: par p) auto

lemma node_data_key: "node_data m = node_data n \<Longrightarrow> rb_key m = rb_key n"
  by (simp add: node_data_def)

lemma insert_node_rep:
  assumes t: "rep h NULL (rt_root tree) t" "distinct (tree_addrs t)" "rbt_ok t" "sorted_wrt (<) (tree_keys h t)"
    and x: "x \<notin> set (tree_addrs t)" "x \<noteq> NULL" and p: "path (\<lambda>a. rb_key (h a)) key t [] = Some fs"
  shows "\<exists>tree' h' t'. insert_node x (parent_of fs) key tree (h(x := new_node (parent_of fs) key)) = Some (tree', h')
    \<and> rep h' NULL (rt_root tree') t' \<and> rbt_ok t' \<and> distinct (tree_addrs t')
    \<and> tree_keys h' t' = insort key (tree_keys h t) \<and> set (tree_addrs t') = insert x (set (tree_addrs t))
    \<and> tree' = tree\<lparr>rt_root := rt_root tree'\<rparr> \<and> node_data (h' x) = (key, 0, 0, 0)
    \<and> (\<forall>a. a \<noteq> x \<longrightarrow> node_data (h' a) = node_data (h a)) \<and> (\<forall>a. a \<notin> set (tree_addrs t') \<longrightarrow> h' a = h a)"
proof -
  let ?h = "h(x := new_node (parent_of fs) key)" and ?t = "Node Leaf (x, Red) Leaf"
  let ?A = "insert x (set (tree_addrs t))"
  have pl: "plug Leaf fs = t" using path_Some [OF p] by simp
  note bt = path_between [OF p t(4)]
  have ta: "tree_addrs t = frames_before fs @ frames_after fs" using tree_addrs_plug [of Leaf fs] pl by simp
  have ta': "tree_addrs (plug ?t fs) = frames_before fs @ x # frames_after fs" by (simp add: tree_addrs_plug)
  have k: "\<forall>b \<in> set (frames_before fs). rb_key (?h b) < key" "\<forall>b \<in> set (frames_after fs). key < rb_key (?h b)"
    using bt x(1) ta by auto
  have r: "rep ?h NULL (rt_root tree) (plug Leaf fs)" using t(1) x(1) pl by simp
  have nn: "\<forall>b \<in> set (tree_addrs (plug Leaf fs)). b \<noteq> NULL" using rep_nonnull [OF t(1)] pl by auto
  have pr: "distinct (tree_addrs (plug Leaf fs))" "x \<notin> set (tree_addrs (plug Leaf fs))" "?h x = new_node (parent_of fs) key"
    using t(2) x(1) pl by simp_all
  obtain tree1 h1 where l: "(if parent_of fs = NULL then Some (tree\<lparr>rt_root := x\<rparr>, ?h)
       else if key < rb_key (?h (parent_of fs)) then do { h \<leftarrow> setn (parent_of fs) (rb_left_update (\<lambda>_. x)) ?h; Some (tree, h) }
       else do { h \<leftarrow> setn (parent_of fs) (rb_right_update (\<lambda>_. x)) ?h; Some (tree, h) }) = Some (tree1, h1)"
    "rep h1 NULL (rt_root tree1) (plug ?t fs)" "relinked (set (tree_addrs t)) tree ?h tree1 h1"
    using link_new [OF r pr(1,2) x(2) pr(3) k nn] unfolding pl by blast
  have fx: "fixable ?t fs" using t(3) pl by (intro fixable_leaf) simp
  have dis: "distinct (tree_addrs (plug ?t fs))" using t(2) x(1) unfolding ta ta' by auto
  have A: "set (tree_addrs (plug ?t fs)) = ?A" unfolding ta ta' by auto
  obtain tree2 h2 where f: "rbt_insert_fixup x tree1 h1 = Some (tree2, h2)" "rep h2 NULL (rt_root tree2) (paint Black (afix ?t fs))"
    "relinked ?A tree1 h1 tree2 h2"
    using insert_fixup_rep [OF l(2) dis refl fx] unfolding A by blast
  note fo = afix_ok [OF fx]
  have "relinked ?A tree ?h tree1 h1" using l(3) by (rule relinked_mono) auto
  then have rl: "relinked ?A tree ?h tree2 h2" using f(3) by (rule relinked_trans)
  have data: "node_data (h2 a) = node_data (?h a)" for a using rl by (simp add: relinked_def)
  have "rbt_ok (paint Black (afix ?t fs))" using fo by (intro paint_root_ok) simp_all
  moreover have ad: "tree_addrs (paint Black (afix ?t fs)) = frames_before fs @ x # frames_after fs" using fo ta' by simp
  moreover have "tree_keys h2 (paint Black (afix ?t fs)) = insort key (tree_keys h t)"
  proof -
    have "rb_key (h2 a) = (if a = x then key else rb_key (h a))" for a using node_data_key [OF data [of a]] by (simp add: new_node_def)
    then have "tree_keys h2 (paint Black (afix ?t fs)) = map (\<lambda>a. rb_key (h a)) (frames_before fs) @ key # map (\<lambda>a. rb_key (h a)) (frames_after fs)"
      using x(1) unfolding ad ta by auto
    also have "\<dots> = insort key (tree_keys h t)" unfolding ta map_append by (rule insort_between [symmetric]) (use bt in auto)
    finally show ?thesis .
  qed
  moreover have "node_data (h2 x) = (key, 0, 0, 0)" using data [of x] by (simp add: node_data_def new_node_def)
  moreover have "\<forall>a. a \<noteq> x \<longrightarrow> node_data (h2 a) = node_data (h a)" using data by simp
  moreover have "\<forall>a. a \<notin> ?A \<longrightarrow> h2 a = h a" "tree2 = tree\<lparr>rt_root := rt_root tree2\<rparr>" using rl by (auto simp: relinked_def)
  moreover have "insert_node x (parent_of fs) key tree ?h = Some (tree2, h2)"
    using l(1) f(1) unfolding insert_node_def by simp
  ultimately show ?thesis
    using f(2) dis ta' ta by (intro exI [of _ tree2] exI [of _ h2] exI [of _ "paint Black (afix ?t fs)"]) auto
qed

end
