(* ===== verification/Sample_State.thy ===== *)
theory Sample_State
  imports Slab_Pool
begin

unbundle bit_operations_syntax

text \<open>
  A small machine state that satisfies the invariants of the allocators, for the witnesses of later
  theories: a region of 1 MB and a region of 128 KB, each handed out as one block and used as a slab
  of 64-byte objects with three free objects, and a region with two free pages.
\<close>

definition sample_hhdm :: addr where "sample_hhdm = 0xFFFF800000000000"

definition region1 :: mem_region where "region1 = \<lparr>mr_base = 0x8000, mr_len = 0x180000, mr_usable = True\<rparr>"
definition region2 :: mem_region where "region2 = \<lparr>mr_base = 0x9000, mr_len = 0x380000, mr_usable = True\<rparr>"
definition region3 :: mem_region where "region3 = \<lparr>mr_base = 0xA000, mr_len = 0x480000, mr_usable = True\<rparr>"

lemmas region_defs = region1_def region2_def region3_def

definition header1 :: buddy_region_header where
  "header1 = \<lparr>usable_base = 0x100000, usable_len = 0x100000, max_depth = 8, bitmap_len = 0\<rparr>"
definition header2 :: buddy_region_header where
  "header2 = \<lparr>usable_base = 0x300000, usable_len = 0x20000, max_depth = 5, bitmap_len = 0\<rparr>"
definition header3 :: buddy_region_header where
  "header3 = \<lparr>usable_base = 0x400000, usable_len = 0x2000, max_depth = 1, bitmap_len = 0\<rparr>"

lemmas header_defs = header1_def header2_def header3_def

definition blank_state :: buddy_state where
  "blank_state = \<lparr>ram = (\<lambda>_. 0),
     headers = (\<lambda>p. if p = 0xFFFF800000008000 then header1 else if p = 0xFFFF800000009000 then header2 else header3),
     mem_regions = [region1, region2, region3], hhdm_start = sample_hhdm\<rparr>"

lemma header_ok: "region_ok header1 8" "region_ok header2 5" "region_ok header3 1"
  by (simp_all add: region_ok_def header_defs)

lemma blank_simps [simp]:
  "region_hdr blank_state region1 = header1" "region_hdr blank_state region2 = header2" "region_hdr blank_state region3 = header3"
  "region_bitmap blank_state region1 = 0xFFFF800000008020" "region_bitmap blank_state region2 = 0xFFFF800000009020"
  "region_bitmap blank_state region3 = 0xFFFF80000000A020"
  "region_depth blank_state region1 = 8" "region_depth blank_state region2 = 5" "region_depth blank_state region3 = 1"
  "ram blank_state = (\<lambda>_. 0)" "mem_regions blank_state = [region1, region2, region3]" "hhdm_start blank_state = 0xFFFF800000000000"
  by (simp_all add: blank_state_def region_defs header_defs sample_hhdm_def region_hdr_def region_bitmap_def region_head_def
      region_depth_def header_size_def)

lemma blank_inv: "buddy_inv blank_state"
proof -
  have t: "region_tree blank_state r = Free" if "r \<in> {region1, region2, region3}" for r
    using that region_holds_tree [OF region_holds_zero [OF header_ok(1)]] region_holds_tree [OF region_holds_zero [OF header_ok(2)]]
      region_holds_tree [OF region_holds_zero [OF header_ok(3)]] by (auto simp: region_tree_def)
  have "region_inv blank_state r" if "r \<in> {region1, region2, region3}" for r
    using that t region_holds_zero [OF header_ok(1)] region_holds_zero [OF header_ok(2)] region_holds_zero [OF header_ok(3)]
    by (auto simp: region_inv_def header_defs)
  moreover have "apart 0xFFFF800000008020 (bitmap_bytes 8) 0xFFFF800000009020 (bitmap_bytes 5)"
    "apart 0xFFFF800000008020 (bitmap_bytes 8) 0xFFFF80000000A020 (bitmap_bytes 1)"
    "apart 0xFFFF800000009020 (bitmap_bytes 5) 0xFFFF80000000A020 (bitmap_bytes 1)"
    by (rule apartI; simp add: bitmap_bytes_def)+
  then have "sorted_wrt (region_sep blank_state) [region1, region2, region3]"
    by (simp add: region_sep_def disjoint_blocks_def header_defs)
  ultimately show ?thesis by (simp add: buddy_inv_def take_bit_eq_mod)
qed

text \<open>A region whose whole tree is handed out as one block.\<close>

lemma used_root:
  assumes "region_ok h D" "brep B m D 0 0 Free"
  shows "region_holds h B (buddy_bitmap_set B (of_nat 0) (of_nat 0) BBMAP_USED m) D Used"
    and "keeps B D m (buddy_bitmap_set B (of_nat 0) (of_nat 0) BBMAP_USED m)"
proof -
  let ?m = "buddy_bitmap_set B (of_nat 0) (of_nat 0) BBMAP_USED m"
  have n: "bnode 0 0" by (simp add: bnode_def)
  have v: "BBMAP_USED \<in> {BBMAP_FREE, BBMAP_SPLIT, BBMAP_USED}" by simp
  have "entry B ?m 0 0 = BBMAP_USED" using entry_set [OF n n v, of B m] by simp
  moreover have "below B ?m D 0 0"
    using below_agree [OF set_agree [OF n v] n] assms by (simp add: region_ok_def)
  ultimately show "region_holds h B ?m D Used" using assms(1) by (simp add: region_holds_def)
  show "keeps B D m ?m" using n by (rule set_keeps) simp
qed

definition ram1 :: mem where "ram1 = buddy_bitmap_set 0xFFFF800000008020 (of_nat 0) (of_nat 0) BBMAP_USED (\<lambda>_. 0)"
definition ram2 :: mem where "ram2 = buddy_bitmap_set 0xFFFF800000009020 (of_nat 0) (of_nat 0) BBMAP_USED ram1"

definition sample_buddy :: buddy_state where "sample_buddy = blank_state\<lparr>ram := ram2\<rparr>"

lemma sample_buddy_inv:
  "buddy_inv sample_buddy" "(0xFFFF800000100000, 0x100000) \<in> buddy_live sample_buddy" "(0xFFFF800000300000, 0x20000) \<in> buddy_live sample_buddy"
proof -
  let ?s1 = "blank_state\<lparr>ram := ram1\<rparr>"
  have z: "brep B (\<lambda>_. 0) D 0 0 Free" for B D using clear_zero [of B D 0 0] by (simp only: clear_brep)
  note u1 = used_root [OF header_ok(1) z [of "0xFFFF800000008020"], folded ram1_def]
  have ap: "apart 0xFFFF800000008020 (bitmap_bytes 8) 0xFFFF800000009020 (bitmap_bytes 5)"
    by (rule apartI; simp add: bitmap_bytes_def)
  have in1: "region1 \<in> set (mem_regions blank_state)" "region2 \<in> set (mem_regions blank_state)" by simp_all
  have s1: "buddy_inv ?s1" "region_blocks ?s1 region1 = blocks header1 8 Used"
    using region_update [OF blank_inv in1(1), of ram1 Used] u1 by simp_all
  have "region_holds header2 0xFFFF800000009020 ram1 5 Free"
    using u1(2) ap region_holds_zero [OF header_ok(2)] by (rule keeps_region_holds)
  then have "brep 0xFFFF800000009020 ram1 5 0 0 Free" by (simp only: region_holds_def)
  note u2 = used_root [OF header_ok(2) this, folded ram2_def]
  have e: "sample_buddy = ?s1\<lparr>ram := ram2\<rparr>" by (simp add: sample_buddy_def)
  have ne: "region1 \<noteq> region2" by (simp add: region_defs)
  have up: "region2 \<in> set (mem_regions ?s1)" "region1 \<in> set (mem_regions ?s1)" by simp_all
  have s2: "buddy_inv sample_buddy" "region_blocks sample_buddy region2 = blocks header2 5 Used"
    "region_blocks sample_buddy region1 = blocks header1 8 Used"
    unfolding e using region_update [OF s1(1) up(1), of ram2 Used] u2 up(2) ne s1(2) by simp_all
  show "buddy_inv sample_buddy" by (rule s2(1))
  have "(0x100000, 0x100000) \<in> region_blocks sample_buddy region1" "(0x300000, 0x20000) \<in> region_blocks sample_buddy region2"
    unfolding s2(2,3) by (simp_all add: blocks_def header_defs)
  moreover have "mem_regions sample_buddy = [region1, region2, region3]" "unat (hhdm_start sample_buddy) = 0xFFFF800000000000"
    by (simp_all add: sample_buddy_def)
  ultimately show "(0xFFFF800000100000, 0x100000) \<in> buddy_live sample_buddy" "(0xFFFF800000300000, 0x20000) \<in> buddy_live sample_buddy"
    unfolding buddy_live_def by force+
qed

text \<open>The two slabs; \<open>sample_links\<close> chains three free objects in each.\<close>

definition slab1 :: addr where "slab1 = 0xFFFF800000100000"
definition slab2 :: addr where "slab2 = 0xFFFF800000300000"

definition sample_slabs :: "addr \<Rightarrow> slab_t" where
  "sample_slabs p = (if p = slab2
     then (new_slab slab2 64 0x20000 0)\<lparr>sl_free := 3, sl_nextfree := slab2 + 80\<rparr>
     else (new_slab slab1 64 0x100000 0)\<lparr>sl_free := 3, sl_nextfree := slab1 + 80\<rparr>)"

definition sample_links :: "addr \<Rightarrow> addr" where
  "sample_links p = (if p = slab1 + 208 \<or> p = slab2 + 208 then NULL else p + 64)"

definition sample_slab_state :: slab_state where
  "sample_slab_state = \<lparr>ram = ram2, headers = headers blank_state, mem_regions = mem_regions blank_state, hhdm_start = hhdm_start blank_state,
     slabs = sample_slabs, links = sample_links, kdefault_attrs = 3\<rparr>"

lemma sample_start: "slab_start slab1 (align_of 0) = slab1 + 80" "slab_start slab2 (align_of 0) = slab2 + 80"
  "slab_num slab1 64 0x100000 (align_of 0) = 16382" "slab_num slab2 64 0x20000 (align_of 0) = 2046"
  by (simp_all add: slab_num_def slab_start_def align_of_def SLAB_ALIGN_def slab1_def slab2_def slab_header_def)

lemma sample_objects:
  "{slab1 + 80, slab1 + 144, slab1 + 208} \<subseteq> set (slab_objects 64 8 0 slab1)"
  "{slab2 + 80, slab2 + 144, slab2 + 208} \<subseteq> set (slab_objects 64 5 0 slab2)"
proof -
  have o: "slab_objects 64 8 0 slab1 = objects (slab1 + 80) 64 16382" "slab_objects 64 5 0 slab2 = objects (slab2 + 80) 64 2046"
    using sample_start by (simp_all add: slab_objects_def)
  have mem: "p + of_nat i * 64 \<in> set (objects p 64 n)" if "i < n" for p :: addr and i n
    unfolding objects_def using that by auto
  show "{slab1 + 80, slab1 + 144, slab1 + 208} \<subseteq> set (slab_objects 64 8 0 slab1)"
    using mem [of 0 16382 "slab1 + 80"] mem [of 1 16382 "slab1 + 80"] mem [of 2 16382 "slab1 + 80"] unfolding o by (simp add: slab1_def)
  show "{slab2 + 80, slab2 + 144, slab2 + 208} \<subseteq> set (slab_objects 64 5 0 slab2)"
    using mem [of 0 2046 "slab2 + 80"] mem [of 1 2046 "slab2 + 80"] mem [of 2 2046 "slab2 + 80"] unfolding o by (simp add: slab2_def)
qed

lemma sample_pools:
  assumes "buddy_state.truncate s = buddy_state.truncate sample_slab_state" "slabs s = sample_slabs" "links s = sample_links"
  shows "pool 64 8 0 s slab1 [(slab1, [slab1 + 80, slab1 + 144, slab1 + 208])]"
    and "pool 64 5 0 s slab2 [(slab2, [slab2 + 80, slab2 + 144, slab2 + 208])]"
    and "cache_inv 64 8 0 slab1 s" and "cache_inv 64 5 0 slab2 s"
proof -
  have "buddy_state.truncate s = buddy_state.truncate sample_buddy"
    using assms(1) by (simp add: buddy_state.defs sample_slab_state_def sample_buddy_def)
  then have b: "buddy_inv s" "buddy_live s = buddy_live sample_buddy" using sample_buddy_inv(1) by (metis buddy_inv_truncate)+
  have "freelist sample_links (slab1 + 80) [slab1 + 80, slab1 + 144, slab1 + 208]"
    "freelist sample_links (slab2 + 80) [slab2 + 80, slab2 + 144, slab2 + 208]"
    by (simp_all add: sample_links_def slab1_def slab2_def)
  then have "slab_ok s 64 8 0 slab1 [slab1 + 80, slab1 + 144, slab1 + 208]" "slab_ok s 64 5 0 slab2 [slab2 + 80, slab2 + 144, slab2 + 208]"
    using sample_objects sample_buddy_inv(2,3) assms(2,3) unfolding slab_ok_def b(2)
    by (simp_all add: sample_slabs_def new_slab_def sample_start) (simp_all add: slab1_def slab2_def)
  then show p: "pool 64 8 0 s slab1 [(slab1, [slab1 + 80, slab1 + 144, slab1 + 208])]"
    "pool 64 5 0 s slab2 [(slab2, [slab2 + 80, slab2 + 144, slab2 + 208])]"
    using b(1) assms(2) by (simp_all add: pool_def sample_slabs_def new_slab_def)
  have "fits_slab 64 8 0" "fits_slab 64 5 0" by (simp_all add: fits_slab_def align_bits_def)
  then show "cache_inv 64 8 0 slab1 s" "cache_inv 64 5 0 slab2 s" using p by (auto simp: cache_inv_def slab1_def slab2_def)
qed

end
