(* ===== verification/Rbt_Map.thy ===== *)
theory Rbt_Map
  imports Rbt_Insert Sample_State
begin

unbundle bit_operations_syntax

text \<open>
  Red-black trees as an index from keys to nodes: the interface \<open>key_index\<close>, its implementation by
  \<open>rbt_insert\<close> and \<open>rbt_search\<close>, and traversal in the order of the keys.
\<close>

section \<open>The interface of an index\<close>

primrec insert_keys :: "(u64 \<Rightarrow> 'st \<Rightarrow> (addr \<times> 'st) option) \<Rightarrow> u64 list \<Rightarrow> 'st \<Rightarrow> (addr list \<times> 'st) option" where
  "insert_keys ins [] s = Some ([], s)"
| "insert_keys ins (k # ks) s = do { (p, s) \<leftarrow> ins k s; (ps, s) \<leftarrow> insert_keys ins ks s; Some (p # ps, s) }"

text \<open>The bindings that were added: a key whose insertion gave \<open>NULL\<close> is left out.\<close>

definition added :: "u64 list \<Rightarrow> addr list \<Rightarrow> (u64 \<times> addr) list" where
  "added ks ps = filter (\<lambda>(k, p). p \<noteq> NULL) (zip ks ps)"

definition found :: "addr option \<Rightarrow> addr" where
  "found r = (case r of None \<Rightarrow> NULL | Some p \<Rightarrow> p)"

locale key_index =
  fixes holds :: "'st \<Rightarrow> (u64 \<rightharpoonup> addr) \<Rightarrow> bool"
    and ins :: "u64 \<Rightarrow> 'st \<Rightarrow> (addr \<times> 'st) option"
    and look :: "u64 \<Rightarrow> 'st \<Rightarrow> addr option"
  assumes look_law: "holds s M \<Longrightarrow> look k s = Some (found (M k))"
    and ins_law: "holds s M \<Longrightarrow> \<exists>p s'. ins k s = Some (p, s') \<and>
      (if p = NULL then s' = s else M k = None \<and> p \<notin> ran M \<and> holds s' (M(k \<mapsto> p)))"
begin

lemma insert_keys_law:
  "holds s M \<Longrightarrow> \<exists>ps s'. insert_keys ins ks s = Some (ps, s') \<and> length ps = length ks
     \<and> holds s' (M ++ map_of (rev (added ks ps))) \<and> (\<forall>(k, p) \<in> set (added ks ps). M k = None)"
proof (induction ks arbitrary: s M)
  case Nil
  then show ?case by (simp add: added_def)
next
  case (Cons k ks)
  obtain p s1 where a: "ins k s = Some (p, s1)" and
    p: "if p = NULL then s1 = s else M k = None \<and> p \<notin> ran M \<and> holds s1 (M(k \<mapsto> p))"
    using ins_law [OF Cons.prems] by blast
  let ?M = "if p = NULL then M else M(k \<mapsto> p)"
  have "holds s1 ?M" using p Cons.prems by (auto split: if_splits)
  from Cons.IH [OF this] obtain ps s' where
    r: "insert_keys ins ks s1 = Some (ps, s')" "length ps = length ks" "holds s' (?M ++ map_of (rev (added ks ps)))"
      "\<forall>(j, q) \<in> set (added ks ps). ?M j = None"
    by blast
  have ad: "added (k # ks) (p # ps) = (if p = NULL then added ks ps else (k, p) # added ks ps)" by (simp add: added_def)
  have "?M ++ map_of (rev (added ks ps)) = M ++ map_of (rev (added (k # ks) (p # ps)))"
    by (simp add: ad)
  moreover have "\<forall>(j, q) \<in> set (added (k # ks) (p # ps)). M j = None"
    using r(4) p by (auto simp: ad split: if_splits)
  ultimately show ?case using a r(1-3) by auto
qed

lemma insert_then_look:
  assumes "holds s M" "insert_keys ins ks s = Some (ps, s')"
  shows "look k s' = Some (found ((M ++ map_of (rev (added ks ps))) k))"
  using insert_keys_law [OF assms(1), of ks] assms(2) look_law by auto

end

section \<open>Search\<close>

definition index_of :: "nodes \<Rightarrow> ctree \<Rightarrow> (u64 \<rightharpoonup> addr)" where
  "index_of h t = map_of (map (\<lambda>a. (rb_key (h a), a)) (tree_addrs t))"

lemma sorted_keys_distinct: "sorted_wrt (<) (xs :: u64 list) \<Longrightarrow> distinct xs"
  by (simp add: strict_sorted_iff)

lemma index_of_Some:
  assumes "sorted_wrt (<) (tree_keys h t)"
  shows "index_of h t k = Some a \<longleftrightarrow> a \<in> set (tree_addrs t) \<and> rb_key (h a) = k"
proof -
  have "distinct (map fst (map (\<lambda>a. (rb_key (h a), a)) (tree_addrs t)))"
    using sorted_keys_distinct [OF assms] by (simp add: comp_def)
  then show ?thesis by (auto simp: index_of_def)
qed

lemma index_of_None: "index_of h t k = None \<longleftrightarrow> k \<notin> (\<lambda>a. rb_key (h a)) ` set (tree_addrs t)"
  by (simp add: index_of_def map_of_eq_None_iff image_image)

lemma index_of_Node:
  "index_of h (Node l x r) = index_of h r ++ [rb_key (h (fst x)) \<mapsto> fst x] ++ index_of h l"
  by (simp add: index_of_def)

lemma search_rep:
  "rep h par p t \<Longrightarrow> sorted_wrt (<) (tree_keys h t) \<Longrightarrow> rbt_search_loop key p h = Some (found (index_of h t key))"
proof (induction t arbitrary: par p)
  case Leaf
  then show ?case by (subst rbt_search_loop.simps) (simp add: index_of_def found_def)
next
  case (Node l x r)
  obtain a c where x: "x = (a, c)" by (cases x)
  have a: "p = a" "a \<noteq> NULL" "rep h a (rb_left (h a)) l" "rep h a (rb_right (h a)) r" using Node.prems(1) x by auto
  have s: "sorted_wrt (<) (tree_keys h l)" "sorted_wrt (<) (tree_keys h r)"
    "\<forall>b \<in> set (tree_addrs l). rb_key (h b) < rb_key (h a)" "\<forall>b \<in> set (tree_addrs r). rb_key (h a) < rb_key (h b)"
    using Node.prems(2) x by (auto simp: sorted_wrt_append)
  note some = index_of_Some [OF Node.prems(2)] index_of_Some [OF s(1)] index_of_Some [OF s(2)]
  consider "key < rb_key (h a)" | "rb_key (h a) < key" | "key = rb_key (h a)" by fastforce
  then show ?case
  proof cases
    case 1
    then have "index_of h (Node l x r) key = index_of h l key"
      using s(4) x index_of_None [of h r key] by (auto simp: index_of_Node map_add_def split: option.splits)
    then show ?thesis using Node.IH(1) [OF a(3) s(1)] 1 a(1,2) by (subst rbt_search_loop.simps) simp
  next
    case 2
    then have "index_of h (Node l x r) key = index_of h r key"
      using s(3) x index_of_None [of h l key] by (auto simp: index_of_Node map_add_def split: option.splits)
    then show ?thesis using Node.IH(2) [OF a(4) s(2)] 2 a(1,2) by (subst rbt_search_loop.simps) (simp add: less_not_sym)
  next
    case 3
    then have "index_of h (Node l x r) key = Some a" using some(1) x by simp
    then show ?thesis using 3 a(1,2) by (subst rbt_search_loop.simps) (simp add: found_def)
  qed
qed

section \<open>The index of a tree\<close>

definition rbt_holds :: "rbtree \<times> 'a rbt_state_scheme \<Rightarrow> (u64 \<rightharpoonup> addr) \<Rightarrow> bool" where
  "rbt_holds x M \<longleftrightarrow> (\<exists>t. rbt_inv (snd x) (fst x) t \<and> M = index_of (rbnodes (snd x)) t)"

text \<open>The operations with tree and state as one value.\<close>

definition index_insert :: "'a rbt_state_ext kmap_fun \<Rightarrow> u64 \<Rightarrow> rbtree \<times> 'a rbt_state_scheme \<Rightarrow> (addr \<times> rbtree \<times> 'a rbt_state_scheme) option" where
  "index_insert kmap key x = rbt_insert kmap key (fst x) (snd x)"

definition index_search :: "u64 \<Rightarrow> rbtree \<times> 'a rbt_state_scheme \<Rightarrow> addr option" where
  "index_search key x = rbt_search (fst x) key (rbnodes (snd x))"

lemma index_search_law: "rbt_holds x M \<Longrightarrow> index_search key x = Some (found (M key))"
  unfolding rbt_holds_def index_search_def rbt_search_def rbt_inv_def rbt_rep_def using search_rep by auto

lemma more_fields:
  assumes "slab_state.more s' = slab_state.more s"
  shows "rbnodes s' = rbnodes s" "rbt_slab s' = rbt_slab s"
  using assms by (cases s; cases s'; simp)+

lemma rbt_insert_Some:
  assumes "rbt_insert_find key (rt_root tree) NULL (rbnodes s) = Some (Some parent)" "slab_alloc kmap (rbt_slab s) s = Some (x, s1)"
    and "x \<noteq> NULL" "rt_lock tree = 0" "rbnodes s1 = rbnodes s"
    and "insert_node x parent key (tree\<lparr>rt_lock := 1\<rparr>) ((rbnodes s)(x := new_node parent key)) = Some (tree', h)"
  shows "rbt_insert kmap key tree s = Some (x, tree'\<lparr>rt_num_nodes := rt_num_nodes tree' + 1, rt_lock := 0\<rparr>, s1\<lparr>rbnodes := h\<rparr>)"
  using assms by (simp add: rbt_insert_def Let_def)

lemma index_of_insert:
  assumes "sorted_wrt (<) (tree_keys h t)" "sorted_wrt (<) (tree_keys h' t')" "set (tree_addrs t') = insert x (set (tree_addrs t))"
    and "x \<notin> set (tree_addrs t)" "rb_key (h' x) = key" "\<forall>a. a \<noteq> x \<longrightarrow> rb_key (h' a) = rb_key (h a)" "index_of h t key = None"
  shows "index_of h' t' = (index_of h t)(key \<mapsto> x)"
proof
  fix k
  have "index_of h' t' k = Some a \<longleftrightarrow> ((index_of h t)(key \<mapsto> x)) k = Some a" for a
    using assms(3-7) index_of_Some [OF assms(1), of k a] index_of_Some [OF assms(2), of k a] index_of_None [of h t key] by auto
  then show "index_of h' t' k = ((index_of h t)(key \<mapsto> x)) k" by (metis option.exhaust)
qed

lemma rbt_insert_law:
  assumes "rbt_inv s tree t"
  shows "\<exists>p tree' s'. rbt_insert kmap key tree s = Some (p, tree', s') \<and>
    (if p = NULL then tree' = tree \<and> s' = s
     else key \<notin> set (tree_keys (rbnodes s) t) \<and> p \<notin> set (tree_addrs t) \<and> (\<exists>t'. rbt_inv s' tree' t'
       \<and> tree_keys (rbnodes s') t' = insort key (tree_keys (rbnodes s) t) \<and> set (tree_addrs t') = insert p (set (tree_addrs t))
       \<and> node_data (rbnodes s' p) = (key, 0, 0, 0)
       \<and> (\<forall>a. a \<noteq> p \<longrightarrow> node_data (rbnodes s' a) = node_data (rbnodes s a))))"
proof -
  let ?h = "rbnodes s" and ?cache = "cache_live rbnode_size 8 0 (rbt_slab s)"
  note inv = assms [unfolded rbt_inv_def rbt_rep_def]
  have r: "rep ?h NULL (rt_root tree) t" and srt: "sorted_wrt (<) (tree_keys ?h t)" using inv by auto
  have fp: "rbt_insert_find key (rt_root tree) NULL ?h = Some (map_option parent_of (path (\<lambda>a. rb_key (?h a)) key t []))"
    using find_path [OF r, of "[]"] by simp
  show ?thesis
  proof (cases "path (\<lambda>a. rb_key (?h a)) key t []")
    case None
    then have "rbt_insert kmap key tree s = Some (NULL, tree, s)" using fp by (simp add: rbt_insert_def)
    then show ?thesis by simp
  next
    case (Some fs)
    obtain x s1 where a: "slab_alloc kmap (rbt_slab s) s = Some (x, s1)" "cache_inv rbnode_size 8 0 (rbt_slab s) s1"
      "if x = NULL then s1 = s else ?cache s1 = insert (unat x, unat rbnode_size) (?cache s)
         \<and> (\<forall>y \<in> ?cache s. disjoint_blocks y (unat x, unat rbnode_size))"
      using cache_alloc_law [of rbnode_size 8 0 "rbt_slab s" s kmap] inv by blast
    show ?thesis
    proof (cases "x = NULL")
      case True
      then have "rbt_insert kmap key tree s = Some (NULL, tree, s)" using fp Some a by (simp add: rbt_insert_def)
      then show ?thesis by simp
    next
      case False
      have m: "rbnodes s1 = ?h" "rbt_slab s1 = rbt_slab s" using more_fields cache_alloc_more [OF _ a(1)] inv by blast+
      have nx: "x \<notin> set (tree_addrs t)"
        using a(3) False inv disjoint_blocks_same [of "unat x" "unat rbnode_size"] by (auto simp: rbnode_size_def)
      have kn: "key \<notin> set (tree_keys ?h t)" using path_None [OF srt, of key "[]"] Some by (auto simp: image_def)
      obtain tree' h' t' where i: "insert_node x (parent_of fs) key (tree\<lparr>rt_lock := 1\<rparr>) (?h(x := new_node (parent_of fs) key)) = Some (tree', h')"
        and t': "rep h' NULL (rt_root tree') t'" "rbt_ok t'" "distinct (tree_addrs t')" "tree_keys h' t' = insort key (tree_keys ?h t)"
          "set (tree_addrs t') = insert x (set (tree_addrs t))" "tree' = (tree\<lparr>rt_lock := 1\<rparr>)\<lparr>rt_root := rt_root tree'\<rparr>"
          "node_data (h' x) = (key, 0, 0, 0)" "\<forall>a. a \<noteq> x \<longrightarrow> node_data (h' a) = node_data (?h a)"
        using insert_node_rep [of ?h "tree\<lparr>rt_lock := 1\<rparr>" t x key fs] inv nx False Some by auto
      let ?tree = "tree'\<lparr>rt_num_nodes := rt_num_nodes tree' + 1, rt_lock := 0\<rparr>" and ?s = "s1\<lparr>rbnodes := h'\<rparr>"
      have v: "rbt_insert kmap key tree s = Some (x, ?tree, ?s)"
        using fp Some a(1) False inv m(1) i by (intro rbt_insert_Some) simp_all
      have len: "length (tree_addrs t') = Suc (length (tree_addrs t))"
        using t'(3,5) nx inv by (simp flip: distinct_card)
      have "sorted_wrt (<) (tree_keys h' t')" using t'(4) kn srt by (simp add: strict_sorted_iff sorted_insort distinct_insort)
      moreover have "rt_num_nodes tree' = rt_num_nodes tree" by (subst t'(6)) simp
      then have "rt_num_nodes ?tree = of_nat (length (tree_addrs t'))" using inv len by simp
      ultimately have rp: "rbt_rep h' ?tree t'" using t'(1-3) by (simp add: rbt_rep_def)
      have "buddy_state.truncate ?s = buddy_state.truncate s1" by (simp add: buddy_state.defs)
      note cc = cache_cong [OF this]
      have "\<forall>b \<in> set (tree_addrs t'). (unat b, unat rbnode_size) \<in> ?cache s1" using inv a(3) False t'(5) by simp
      then have "rbt_inv ?s ?tree t'" using rp a(2) cc m(2) by (simp add: rbt_inv_def)
      then show ?thesis using v t'(4,5,7,8) kn nx False by (intro exI [of _ x] exI [of _ ?tree] exI [of _ ?s]) auto
    qed
  qed
qed

lemma index_insert_law:
  assumes "rbt_holds x M"
  shows "\<exists>p x'. index_insert kmap key x = Some (p, x') \<and>
    (if p = NULL then x' = x else M key = None \<and> p \<notin> ran M \<and> rbt_holds x' (M(key \<mapsto> p)))"
proof -
  obtain tree s where x: "x = (tree, s)" by (cases x)
  obtain t where t: "rbt_inv s tree t" "M = index_of (rbnodes s) t" using assms by (auto simp: rbt_holds_def x)
  have srt: "sorted_wrt (<) (tree_keys (rbnodes s) t)" using t(1) by (simp add: rbt_inv_def rbt_rep_def)
  obtain p tree' s' where i: "rbt_insert kmap key tree s = Some (p, tree', s')"
    and l: "if p = NULL then tree' = tree \<and> s' = s
     else key \<notin> set (tree_keys (rbnodes s) t) \<and> p \<notin> set (tree_addrs t) \<and> (\<exists>t'. rbt_inv s' tree' t'
       \<and> tree_keys (rbnodes s') t' = insort key (tree_keys (rbnodes s) t) \<and> set (tree_addrs t') = insert p (set (tree_addrs t))
       \<and> node_data (rbnodes s' p) = (key, 0, 0, 0) \<and> (\<forall>a. a \<noteq> p \<longrightarrow> node_data (rbnodes s' a) = node_data (rbnodes s a)))"
    using rbt_insert_law [OF t(1)] by blast
  show ?thesis
  proof (cases "p = NULL")
    case True
    then show ?thesis using i l by (simp add: index_insert_def x)
  next
    case False
    then obtain t' where t': "rbt_inv s' tree' t'" "set (tree_addrs t') = insert p (set (tree_addrs t))"
      "node_data (rbnodes s' p) = (key, 0, 0, 0)" "\<forall>a. a \<noteq> p \<longrightarrow> node_data (rbnodes s' a) = node_data (rbnodes s a)"
      and k: "key \<notin> set (tree_keys (rbnodes s) t)" "p \<notin> set (tree_addrs t)"
      using l by auto
    have none: "index_of (rbnodes s) t key = None" using k(1) by (auto simp: index_of_None)
    have "index_of (rbnodes s') t' = (index_of (rbnodes s) t)(key \<mapsto> p)"
    proof (rule index_of_insert [OF srt _ t'(2) k(2) _ _ none])
      show "sorted_wrt (<) (tree_keys (rbnodes s') t')" using t'(1) by (simp add: rbt_inv_def rbt_rep_def)
      show "rb_key (rbnodes s' p) = key" using t'(3) by (simp add: node_data_def)
      show "\<forall>a. a \<noteq> p \<longrightarrow> rb_key (rbnodes s' a) = rb_key (rbnodes s a)" using t'(4) node_data_key by blast
    qed
    then have "rbt_holds (tree', s') (M(key \<mapsto> p))" using t'(1) t(2) by (auto simp: rbt_holds_def)
    moreover have "p \<notin> ran M" using k(2) index_of_Some [OF srt] by (auto simp: ran_def t(2))
    ultimately show ?thesis using i False none t(2) by (simp add: index_insert_def x)
  qed
qed

interpretation rbt: key_index rbt_holds "index_insert kmap" index_search
  for kmap :: "'a rbt_state_ext kmap_fun"
  by unfold_locales (rule index_search_law index_insert_law; assumption)+

section \<open>Properties\<close>

text \<open>An empty tree in the sample state, for the witnesses.\<close>

definition empty_tree :: rbtree where
  "empty_tree = \<lparr>rt_root = NULL, rt_lock = 0, rt_num_nodes = 0\<rparr>"

definition sample_rbt_state :: rbt_state where
  "sample_rbt_state = \<lparr>ram = ram sample_slab_state, headers = headers sample_slab_state, mem_regions = mem_regions sample_slab_state,
     hhdm_start = hhdm_start sample_slab_state, slabs = sample_slabs, links = sample_links, kdefault_attrs = 3,
     rbnodes = (\<lambda>_. new_node NULL 0), rbt_slab = slab1\<rparr>"

lemma sample_rbt_inv: "rbt_inv sample_rbt_state empty_tree Leaf"
proof -
  have "buddy_state.truncate sample_rbt_state = buddy_state.truncate sample_slab_state"
    by (simp add: buddy_state.defs sample_rbt_state_def)
  then have "cache_inv 64 8 0 slab1 sample_rbt_state"
    by (rule sample_pools(3)) (simp_all add: sample_rbt_state_def)
  then show ?thesis by (simp add: rbt_inv_def rbt_rep_def rbt_ok_def empty_tree_def rbnode_size_def) (simp add: sample_rbt_state_def)
qed

text \<open>
  C2. \<open>rbt_insert\<close> into a well-formed tree always returns. A key that is already there, or a cache that
  is exhausted, gives \<open>NULL\<close> and changes nothing. Otherwise the result is a new node with the key and
  zero values; the tree is again a red-black tree whose keys in order are the old ones with the new one
  added, every other node keeps its key and values, the count is right and the lock is free.
\<close>

theorem rbt_insert_correct:
  assumes "rbt_inv s tree t"
  shows "\<exists>p tree' s'. rbt_insert kmap key tree s = Some (p, tree', s') \<and>
    (if p = NULL then tree' = tree \<and> s' = s
     else key \<notin> set (tree_keys (rbnodes s) t) \<and> p \<notin> set (tree_addrs t) \<and> (\<exists>t'. rbt_inv s' tree' t'
       \<and> tree_keys (rbnodes s') t' = insort key (tree_keys (rbnodes s) t) \<and> set (tree_addrs t') = insert p (set (tree_addrs t))
       \<and> node_data (rbnodes s' p) = (key, 0, 0, 0)
       \<and> (\<forall>a. a \<noteq> p \<longrightarrow> node_data (rbnodes s' a) = node_data (rbnodes s a))))"
  using assms by (rule rbt_insert_law)

theorem rbt_insert_correct_witness:
  "\<exists>p tree' s'. rbt_insert (\<lambda>_ _ _ _. Some) 7 empty_tree sample_rbt_state = Some (p, tree', s') \<and>
    (if p = NULL then tree' = empty_tree \<and> s' = sample_rbt_state
     else 7 \<notin> set (tree_keys (rbnodes sample_rbt_state) Leaf) \<and> p \<notin> set (tree_addrs Leaf) \<and> (\<exists>t'. rbt_inv s' tree' t'
       \<and> tree_keys (rbnodes s') t' = insort 7 (tree_keys (rbnodes sample_rbt_state) Leaf) \<and> set (tree_addrs t') = insert p (set (tree_addrs Leaf))
       \<and> node_data (rbnodes s' p) = (7, 0, 0, 0)
       \<and> (\<forall>a. a \<noteq> p \<longrightarrow> node_data (rbnodes s' a) = node_data (rbnodes sample_rbt_state a))))"
  using sample_rbt_inv by (rule rbt_insert_correct)

text \<open>
  C14. After inserting any list of keys, \<open>rbt_search\<close> finds for every key the node it was given, the
  nodes of keys inserted earlier are still found, and a key never inserted gives \<open>NULL\<close>.
\<close>

theorem rbt_search_inserted:
  assumes "rbt_inv s tree t" "insert_keys (index_insert kmap) ks (tree, s) = Some (ps, tree', s')"
  shows "rbt_search tree' k (rbnodes s') = Some (found ((index_of (rbnodes s) t ++ map_of (rev (added ks ps))) k))"
proof -
  have "rbt_holds (tree, s) (index_of (rbnodes s) t)" using assms(1) by (auto simp: rbt_holds_def)
  from rbt.insert_then_look [OF this assms(2)] show ?thesis by (simp add: index_search_def)
qed

theorem rbt_search_inserted_witness:
  "\<exists>ps tree' s'. insert_keys (index_insert (\<lambda>_ _ _ _. Some)) [7, 3] (empty_tree, sample_rbt_state) = Some (ps, tree', s')
    \<and> rbt_search tree' 3 (rbnodes s') = Some (found ((index_of (rbnodes sample_rbt_state) Leaf ++ map_of (rev (added [7, 3] ps))) 3))"
proof -
  have "rbt_holds (empty_tree, sample_rbt_state) (index_of (rbnodes sample_rbt_state) Leaf)"
    using sample_rbt_inv by (auto simp: rbt_holds_def)
  from rbt.insert_keys_law [OF this, of "\<lambda>_ _ _ _. Some" "[7, 3]"] obtain ps x where
    "insert_keys (index_insert (\<lambda>_ _ _ _. Some)) [7, 3] (empty_tree, sample_rbt_state) = Some (ps, x)" by blast
  then show ?thesis using rbt_search_inserted [OF sample_rbt_inv, of "\<lambda>_ _ _ _. Some" "[7, 3]" ps "fst x" "snd x" 3] by (cases x) auto
qed

end
