(* ===== verification/Rbt_Walk.thy ===== *)
theory Rbt_Walk
  imports Rbt_Map
begin

unbundle bit_operations_syntax

text \<open>
  Traversal of a tree in the order of its keys: \<open>rbt_minimum\<close>, \<open>rbt_successor\<close>, \<open>rbt_next_key\<close> and
  \<open>rbt_range_val2\<close> in terms of the list of nodes in order.
\<close>

section \<open>Positions\<close>

lemma focus:
  assumes "a \<in> set (tree_addrs t)"
  obtains l c r fs where "t = plug (Node l (a, c) r) fs"
proof -
  have "\<exists>l c r fs'. plug t fs = plug (Node l (a, c) r) fs'" if "a \<in> set (tree_addrs t)" for fs
    using that
  proof (induction t arbitrary: fs)
    case (Node l x r)
    obtain b c where x: "x = (b, c)" by (cases x)
    consider "a = b" | "a \<in> set (tree_addrs l)" | "a \<in> set (tree_addrs r)" using Node.prems x by auto
    then show ?case
    proof cases
      case 1
      then show ?thesis using x by blast
    next
      case 2
      then show ?thesis using Node.IH(1) [of "L b c r # fs"] x by simp
    next
      case 3
      then show ?thesis using Node.IH(2) [of "R l b c # fs"] x by simp
    qed
  qed simp
  from this [OF assms, of "[]"] show thesis using that by auto
qed

definition first :: "addr list \<Rightarrow> addr" where
  "first xs = (case xs of [] \<Rightarrow> NULL | x # _ \<Rightarrow> x)"

lemma first_simps [simp]: "first [] = NULL" "first (x # xs) = x" "first (xs @ ys) = (if xs = [] then first ys else first xs)"
  by (auto simp: first_def split: list.splits)

lemma minimum_loop_rep:
  "rep h par p t \<Longrightarrow> t \<noteq> Leaf \<Longrightarrow> rbt_minimum_loop p h = Some (first (tree_addrs t))"
proof (induction t arbitrary: par p)
  case (Node l x r)
  then have a: "p = fst x" "rep h p (rb_left (h p)) l" by auto
  show ?case
  proof (cases "l = Leaf")
    case True
    then show ?thesis using a by (subst rbt_minimum_loop.simps) simp
  next
    case False
    then have "rb_left (h p) \<noteq> NULL" "tree_addrs l \<noteq> []" using a(2) rep_null [of h p l] by (auto, cases l, auto)
    then show ?thesis using Node.IH(1) [OF a(2) False] a by (subst rbt_minimum_loop.simps) simp
  qed
qed simp

lemma minimum_rep: "rep h par p t \<Longrightarrow> rbt_minimum p h = Some (first (tree_addrs t))"
  using minimum_loop_rep [of h par p t] by (cases t) (auto simp: rbt_minimum_def)

lemma successor_up_rep:
  "frep h root p par fs \<Longrightarrow> p \<noteq> NULL \<Longrightarrow> p \<notin> frames_set fs \<Longrightarrow> distinct (frames_before fs @ frames_after fs) \<Longrightarrow>
   rbt_successor_up p par h = Some (first (frames_after fs))"
proof (induction fs arbitrary: p par)
  case Nil
  then show ?case by (subst rbt_successor_up.simps) simp
next
  case (Cons f fs)
  show ?case
  proof (cases f)
    case (L a c r)
    then have a: "par = a" "a \<noteq> NULL" "p = rb_left (h a)" using Cons.prems(1) by auto
    then have "p \<noteq> rb_right (h par)" using frep_sibling [OF Cons.prems(1,3,2)] by auto
    then show ?thesis using a L by (subst rbt_successor_up.simps) simp
  next
    case (R l a c)
    then have a: "par = a" "a \<noteq> NULL" "p = rb_right (h a)" "frep h root a (rb_parent (h a)) fs" using Cons.prems(1) by auto
    have "a \<notin> frames_set fs" "distinct (frames_before fs @ frames_after fs)" using Cons.prems(4) R by auto
    then show ?thesis using Cons.IH [OF a(4,2)] a R by (subst rbt_successor_up.simps) simp
  qed
qed

lemma successor_rep:
  assumes "rep h NULL root (plug (Node l (a, c) r) fs)" "distinct (tree_addrs (plug (Node l (a, c) r) fs))"
  shows "rbt_successor a h = Some (first (tree_addrs r @ frames_after fs))"
proof -
  note rf = rep_focus [OF assms(1)]
  obtain par where p: "frep h root a par fs" "rb_parent (h a) = par" using assms(1) by (auto simp: rep_plug)
  have d: "a \<notin> frames_set fs" "distinct (frames_before fs @ frames_after fs)" using assms(2) by (auto simp: tree_addrs_plug)
  show ?thesis
  proof (cases "r = Leaf")
    case True
    then have "rb_right (h a) = NULL" using rf(5) by simp
    then show ?thesis using successor_up_rep [OF p(1) rf(1) d] p(2) rf(1) True by (simp add: rbt_successor_def nd_def)
  next
    case False
    then have "rb_right (h a) \<noteq> NULL" "tree_addrs r \<noteq> []" using rf(5) rep_null [of h a r] by (auto, cases r, auto)
    then show ?thesis using minimum_rep [OF rf(5)] rf(1) by (simp add: rbt_successor_def nd_def)
  qed
qed

text \<open>The successor in the list of nodes.\<close>

lemma successor_list:
  assumes "rep h NULL root t" "distinct (tree_addrs t)" "tree_addrs t = xs @ a # ys"
  shows "rbt_successor a h = Some (first ys)"
proof -
  have "a \<in> set (tree_addrs t)" using assms(3) by simp
  then obtain l c r fs where t: "t = plug (Node l (a, c) r) fs" by (rule focus)
  then have "(frames_before fs @ tree_addrs l) @ a # (tree_addrs r @ frames_after fs) = xs @ a # ys"
    using assms(3) by (simp add: tree_addrs_plug)
  moreover have "a \<notin> set xs" "a \<notin> set ys" using assms(2,3) by auto
  ultimately have "tree_addrs r @ frames_after fs = ys" by (metis append_Cons_eq_iff)
  then show ?thesis using successor_rep [OF assms(1,2) [unfolded t]] by simp
qed

section \<open>The first free key\<close>

lemma next_key_loop:
  assumes "rep h NULL root t" "distinct (tree_addrs t)" "sorted_wrt (<) (tree_keys h t)"
  shows "tree_addrs t = xs @ a # ys \<Longrightarrow> \<exists>n. rbt_next_key_loop a h = Some (rb_key (h a) + of_nat (Suc n))
    \<and> (\<forall>i \<le> n. rb_key (h a) + of_nat i \<in> set (tree_keys h t))
    \<and> (\<exists>b zs ws. tree_addrs t = zs @ b # ws \<and> rb_key (h b) = rb_key (h a) + of_nat n
         \<and> (ws = [] \<or> rb_key (h (hd ws)) \<noteq> rb_key (h b) + 1))"
proof (induction ys arbitrary: xs a)
  case Nil
  then have "rbt_next_key_loop a h = Some (rb_key (h a) + 1)"
    using successor_list [OF assms(1,2) Nil] by (subst rbt_next_key_loop.simps) simp
  then show ?case using Nil by (intro exI [of _ 0]) auto
next
  case (Cons b ys)
  have s: "rbt_successor a h = Some b" using successor_list [OF assms(1,2) Cons.prems] by simp
  have "b \<noteq> NULL" using rep_nonnull [OF assms(1)] Cons.prems by auto
  show ?case
  proof (cases "rb_key (h b) = rb_key (h a) + 1")
    case False
    then have "rbt_next_key_loop a h = Some (rb_key (h a) + 1)" using s \<open>b \<noteq> NULL\<close> by (subst rbt_next_key_loop.simps) simp
    moreover have "\<exists>c zs ws. tree_addrs t = zs @ c # ws \<and> rb_key (h c) = rb_key (h a) + of_nat 0 \<and> (ws = [] \<or> rb_key (h (hd ws)) \<noteq> rb_key (h c) + 1)"
      using Cons.prems False by (intro exI [of _ a] exI [of _ xs] exI [of _ "b # ys"]) simp
    ultimately show ?thesis using Cons.prems by (intro exI [of _ 0]) simp
  next
    case True
    then have e: "rbt_next_key_loop a h = rbt_next_key_loop b h" using s \<open>b \<noteq> NULL\<close> by (subst rbt_next_key_loop.simps) simp
    have tb: "tree_addrs t = (xs @ [a]) @ b # ys" using Cons.prems by simp
    from Cons.IH [OF tb] obtain n where
      n: "rbt_next_key_loop b h = Some (rb_key (h b) + of_nat (Suc n))" "\<forall>i \<le> n. rb_key (h b) + of_nat i \<in> set (tree_keys h t)"
        "\<exists>c zs ws. tree_addrs t = zs @ c # ws \<and> rb_key (h c) = rb_key (h b) + of_nat n \<and> (ws = [] \<or> rb_key (h (hd ws)) \<noteq> rb_key (h c) + 1)"
      by blast
    have "rb_key (h a) + of_nat i \<in> set (tree_keys h t)" if "i \<le> Suc n" for i
      using n(2) that Cons.prems True by (cases i) (auto simp: algebra_simps)
    then show ?thesis using e n(1,3) True by (intro exI [of _ "Suc n"]) (auto simp: algebra_simps)
  qed
qed

lemma above_all:
  fixes k :: "'b \<Rightarrow> u64"
  assumes "sorted_wrt (<) (map k (zs @ b # ws))" "ws = [] \<or> k (hd ws) \<noteq> k b + 1" "k b \<noteq> - 1"
  shows "k b + 1 \<notin> k ` set (zs @ b # ws)"
proof -
  have "1 + k b \<noteq> 0" using assms(3) by (simp add: add.commute eq_neg_iff_add_eq_0)
  from unatSuc [OF this] have up: "k b < k b + 1" by (simp add: word_less_nat_alt add.commute)
  have z: "\<forall>z \<in> set zs. k z < k b" "\<forall>w \<in> set ws. k b < k w" using assms(1) by (auto simp: sorted_wrt_append)
  have wn: "k w \<noteq> k b + 1" if "w \<in> set ws" for w
  proof (cases ws)
    case (Cons v vs)
    have "k v = k w \<or> k v < k w" using assms(1) that Cons by (auto simp: sorted_wrt_append)
    moreover have "k b + 1 \<le> k v" using z(2) Cons by (auto intro: inc_le)
    ultimately show ?thesis using assms(2) Cons by auto
  qed (use that in simp)
  show ?thesis
  proof
    assume "k b + 1 \<in> k ` set (zs @ b # ws)"
    then obtain w where w: "w \<in> set (zs @ b # ws)" "k b + 1 = k w" by (rule imageE)
    then have "w \<in> set zs \<or> w = b \<or> w \<in> set ws" "k w = k b + 1" by auto
    then show False using up z(1) wn by (metis less_asym less_irrefl)
  qed
qed

text \<open>
  C27. In a nonempty tree that does not hold the largest key, \<open>rbt_next_key\<close> returns the first key above
  the smallest one that is not in the tree: all keys from the smallest one up to it are taken, the
  result is not. It never offers a key below the smallest one. On an empty tree it returns 0.
\<close>

theorem rbt_next_key_first_gap:
  assumes "rbt_rep h tree t" "t \<noteq> Leaf" "- 1 \<notin> set (tree_keys h t)"
  shows "\<exists>n. rbt_next_key tree h = Some (hd (tree_keys h t) + of_nat (Suc n))
    \<and> (\<forall>i \<le> n. hd (tree_keys h t) + of_nat i \<in> set (tree_keys h t)) \<and> hd (tree_keys h t) + of_nat (Suc n) \<notin> set (tree_keys h t)"
proof -
  have r: "rep h NULL (rt_root tree) t" "distinct (tree_addrs t)" "sorted_wrt (<) (tree_keys h t)"
    using assms(1) by (auto simp: rbt_rep_def)
  obtain a ys where ta: "tree_addrs t = [] @ a # ys" using assms(2) by (cases "tree_addrs t") (auto, cases t, auto)
  have root: "rt_root tree \<noteq> NULL" using r(1) assms(2) rep_null by metis
  from next_key_loop [OF r ta] obtain n b zs ws where n: "rbt_next_key_loop a h = Some (rb_key (h a) + of_nat (Suc n))"
    "\<forall>i \<le> n. rb_key (h a) + of_nat i \<in> set (tree_keys h t)"
    and b: "tree_addrs t = zs @ b # ws" "rb_key (h b) = rb_key (h a) + of_nat n" "ws = [] \<or> rb_key (h (hd ws)) \<noteq> rb_key (h b) + 1"
    by blast
  have "rb_key (h b) \<noteq> - 1" using assms(3) b(1) by auto
  from above_all [OF _ b(3) this, of zs] have "rb_key (h b) + 1 \<notin> set (tree_keys h t)" using r(3) b(1) by (simp add: image_Un)
  moreover have "rbt_next_key tree h = rbt_next_key_loop a h"
    using minimum_loop_rep [OF r(1) assms(2)] root ta by (simp add: rbt_next_key_def)
  ultimately show ?thesis using n b(2) ta by (intro exI [of _ n]) (simp add: algebra_simps)
qed

definition one_node :: nodes where
  "one_node = (\<lambda>_. \<lparr>rb_parent = NULL, rb_left = NULL, rb_right = NULL, rb_color = RB_BLACK, rb_key = 5,
     rb_value = 0, rb_value2 = 2, rb_value3 = 0\<rparr>)"

definition one_tree :: rbtree where
  "one_tree = \<lparr>rt_root = 0x40, rt_lock = 0, rt_num_nodes = 1\<rparr>"

lemma one_tree_rep: "rbt_rep one_node one_tree (Node Leaf (0x40, Black) Leaf)"
  by (simp add: rbt_rep_def rbt_ok_def one_node_def one_tree_def)

theorem rbt_next_key_first_gap_witness:
  "\<exists>n. rbt_next_key one_tree one_node = Some (hd (tree_keys one_node (Node Leaf (0x40, Black) Leaf)) + of_nat (Suc n))
    \<and> (\<forall>i \<le> n. hd (tree_keys one_node (Node Leaf (0x40, Black) Leaf)) + of_nat i \<in> set (tree_keys one_node (Node Leaf (0x40, Black) Leaf)))
    \<and> hd (tree_keys one_node (Node Leaf (0x40, Black) Leaf)) + of_nat (Suc n) \<notin> set (tree_keys one_node (Node Leaf (0x40, Black) Leaf))"
  by (rule rbt_next_key_first_gap [OF one_tree_rep]) (simp_all add: one_node_def)

section \<open>The node that covers an address\<close>

lemma filter_none: "\<forall>x \<in> set xs. \<not> P x \<Longrightarrow> filter P xs = []"
  by (induction xs) auto

lemma filter_all: "\<forall>x \<in> set xs. P x \<Longrightarrow> filter P xs = xs"
  by (induction xs) auto

lemma closest_rep:
  "rep h par p t \<Longrightarrow> sorted_wrt (<) (tree_keys h t) \<Longrightarrow>
   rbt_closest sval p c h = Some (last (c # filter (\<lambda>a. rb_key (h a) \<le> sval) (tree_addrs t)))"
proof (induction t arbitrary: par p c)
  case Leaf
  then show ?case by (subst rbt_closest.simps) simp
next
  case (Node l x r)
  let ?P = "\<lambda>a. rb_key (h a) \<le> sval"
  obtain a d where x: "x = (a, d)" by (cases x)
  have a: "p = a" "a \<noteq> NULL" "rep h a (rb_left (h a)) l" "rep h a (rb_right (h a)) r" using Node.prems(1) x by auto
  have s: "sorted_wrt (<) (tree_keys h l)" "sorted_wrt (<) (tree_keys h r)"
    "\<forall>b \<in> set (tree_addrs l). rb_key (h b) < rb_key (h a)" "\<forall>b \<in> set (tree_addrs r). rb_key (h a) < rb_key (h b)"
    using Node.prems(2) x by (auto simp: sorted_wrt_append)
  consider "rb_key (h a) = sval" | "rb_key (h a) < sval" | "sval < rb_key (h a)" by fastforce
  then show ?case
  proof cases
    case 1
    have "filter ?P (tree_addrs r) = []" using s(4) 1 by (intro filter_none) auto
    then show ?thesis using 1 a(1,2) x by (subst rbt_closest.simps) simp
  next
    case 2
    then show ?thesis using Node.IH(2) [OF a(4) s(2), of a] a(1,2) x by (subst rbt_closest.simps) auto
  next
    case 3
    have "filter ?P (tree_addrs r) = []" using s(4) 3 by (intro filter_none) (auto dest: less_trans simp: not_le)
    then show ?thesis using Node.IH(1) [OF a(3) s(1), of c] 3 a(1,2) x by (subst rbt_closest.simps) (auto simp: not_le)
  qed
qed

text \<open>
  C28. \<open>rbt_range_val2\<close> with the nodes split at \<open>sval\<close>: the last node at or below \<open>sval\<close> is returned when
  its interval (key and second value) reaches beyond \<open>sval\<close>, else the next node when it starts before
  \<open>sval + len\<close>. When every key lies above \<open>sval\<close> the result is \<open>NULL\<close>, even if the first node starts
  inside the interval asked for.
\<close>

theorem rbt_range_val2_spec:
  assumes "rbt_rep h tree t" "tree_addrs t = xs @ ys"
    and "\<forall>a \<in> set xs. rb_key (h a) \<le> sval" "\<forall>a \<in> set ys. sval < rb_key (h a)"
  shows "rbt_range_val2 tree sval len h = Some (
    if xs = [] then NULL
    else if sval < rb_key (h (last xs)) + rb_value2 (h (last xs)) then last xs
    else if ys \<noteq> [] \<and> rb_key (h (hd ys)) < sval + len then hd ys
    else NULL)"
proof -
  have r: "rep h NULL (rt_root tree) t" "distinct (tree_addrs t)" "sorted_wrt (<) (tree_keys h t)"
    using assms(1) by (auto simp: rbt_rep_def)
  have "filter (\<lambda>a. rb_key (h a) \<le> sval) (tree_addrs t) = xs"
    unfolding assms(2) using assms(3,4) by (simp add: filter_all filter_none not_le)
  then have c: "rbt_closest sval (rt_root tree) NULL h = Some (last (NULL # xs))" using closest_rep [OF r(1,3)] by simp
  show ?thesis
  proof (cases "xs = []")
    case True
    then show ?thesis using c by (simp add: rbt_range_val2_def)
  next
    case False
    then obtain zs b where xs: "xs = zs @ [b]" by (metis rev_exhaust)
    have "tree_addrs t = zs @ b # ys" using assms(2) xs by simp
    from successor_list [OF r(1,2) this] have su: "rbt_successor b h = Some (first ys)" .
    have nn: "b \<noteq> NULL" "ys \<noteq> [] \<Longrightarrow> hd ys \<noteq> NULL" using rep_nonnull [OF r(1)] assms(2) xs by (auto, cases ys, auto)
    then show ?thesis using c su xs by (cases ys) (auto simp: rbt_range_val2_def)
  qed
qed

theorem rbt_range_val2_spec_witness: "rbt_range_val2 one_tree 6 4 one_node = Some 0x40"
  using rbt_range_val2_spec [OF one_tree_rep, of "[0x40]" "[]" 6 4] by (simp add: one_node_def)

end
