(* ===== verification/Sort.thy ===== *)
theory Sort
  imports Kernel_Prelude "HOL-Library.Multiset"
begin

text \<open>
  \<^verbatim>\<open>lib/sort.c\<close>: quicksort with Hoare's partition. The array is a list of elements; an access outside it does not
  return. The pivot is a pointer to the first element of the range, so it is compared with whatever is there at the
  time, also after the first swap has replaced it. Indices are \<open>size_t\<close> and wrap.
\<close>

type_synonym 'e compar = "'e \<Rightarrow> 'e \<Rightarrow> int"

definition elem :: "'e list \<Rightarrow> u64 \<Rightarrow> 'e option" where
  "elem xs i = (if unat i < length xs then Some (xs ! unat i) else None)"

definition swap :: "u64 \<Rightarrow> u64 \<Rightarrow> 'e list \<Rightarrow> 'e list option" where
  "swap i j xs = do {
     x \<leftarrow> elem xs i;
     y \<leftarrow> elem xs j;
     Some (xs[unat i := y, unat j := x])
   }"

partial_function (option) scan_up :: "'e compar \<Rightarrow> 'e list \<Rightarrow> u64 \<Rightarrow> u64 \<Rightarrow> u64 option" where
  "scan_up compar xs pivot left_idx = do {
     let left_idx = left_idx + 1;
     x \<leftarrow> elem xs left_idx;
     p \<leftarrow> elem xs pivot;
     if compar x p < 0 then scan_up compar xs pivot left_idx else Some left_idx
   }"

partial_function (option) scan_down :: "'e compar \<Rightarrow> 'e list \<Rightarrow> u64 \<Rightarrow> u64 \<Rightarrow> u64 option" where
  "scan_down compar xs pivot right_idx = do {
     let right_idx = right_idx - 1;
     x \<leftarrow> elem xs right_idx;
     p \<leftarrow> elem xs pivot;
     if compar x p > 0 then scan_down compar xs pivot right_idx else Some right_idx
   }"

partial_function (option) partition_loop :: "'e compar \<Rightarrow> u64 \<Rightarrow> u64 \<Rightarrow> u64 \<Rightarrow> 'e list \<Rightarrow> (u64 \<times> 'e list) option" where
  "partition_loop compar pivot left_idx right_idx xs = do {
     left_idx \<leftarrow> scan_up compar xs pivot left_idx;
     right_idx \<leftarrow> scan_down compar xs pivot right_idx;
     if left_idx \<ge> right_idx then Some (right_idx, xs)
     else do {
       xs \<leftarrow> swap left_idx right_idx xs;
       partition_loop compar pivot left_idx right_idx xs
     }
   }"

definition hoare_partition :: "'e compar \<Rightarrow> u64 \<Rightarrow> u64 \<Rightarrow> 'e list \<Rightarrow> (u64 \<times> 'e list) option" where
  "hoare_partition compar left right xs = partition_loop compar left (left - 1) (right + 1) xs"

partial_function (option) qsort_range :: "'e compar \<Rightarrow> u64 \<Rightarrow> u64 \<Rightarrow> 'e list \<Rightarrow> 'e list option" where
  "qsort_range compar left right xs =
    (if left \<ge> right then Some xs
     else do {
       (pivot, xs) \<leftarrow> hoare_partition compar left right xs;
       xs \<leftarrow> qsort_range compar left pivot xs;
       qsort_range compar (pivot + 1) right xs
     })"

definition qsort :: "'e compar \<Rightarrow> u64 \<Rightarrow> 'e list \<Rightarrow> 'e list option" where
  "qsort compar nmemb xs = qsort_range compar 0 (nmemb - 1) xs"

section \<open>Indices\<close>

text \<open>What \<open>qsort\<close> demands of the comparison function.\<close>

definition compar_ok :: "'e compar \<Rightarrow> bool" where
  "compar_ok compar \<longleftrightarrow> (\<forall>x y. compar x y < 0 \<longleftrightarrow> compar y x > 0)
     \<and> (\<forall>x y z. compar x y \<le> 0 \<longrightarrow> compar y z \<le> 0 \<longrightarrow> compar x z \<le> 0)"

lemma compar_okD:
  assumes "compar_ok c"
  shows "c x y < 0 \<longleftrightarrow> \<not> c y x \<le> 0" "c x y > 0 \<longleftrightarrow> \<not> c x y \<le> 0"
    "c x y \<le> 0 \<Longrightarrow> c y z \<le> 0 \<Longrightarrow> c x z \<le> 0" "c x x \<le> 0" "c x y \<le> 0 \<or> c y x \<le> 0"
proof -
  have a: "c x y < 0 \<longleftrightarrow> c y x > 0" for x y using assms unfolding compar_ok_def by blast
  show "c x y < 0 \<longleftrightarrow> \<not> c y x \<le> 0" "c x y > 0 \<longleftrightarrow> \<not> c x y \<le> 0" using a [of x y] by auto
  show "c x y \<le> 0 \<Longrightarrow> c y z \<le> 0 \<Longrightarrow> c x z \<le> 0" using assms unfolding compar_ok_def by blast
  show "c x x \<le> 0" using a [of x x] by linarith
  show "c x y \<le> 0 \<or> c y x \<le> 0" using a [of x y] a [of y x] by linarith
qed

lemma unat_plus1: "unat (i::u64) < n \<Longrightarrow> n < 2 ^ 64 \<Longrightarrow> unat (i + 1) = Suc (unat i)"
  by (simp add: unat_word_ariths)

lemma elem_Some: "unat i < length xs \<Longrightarrow> elem xs i = Some (xs ! unat i)"
  by (simp add: elem_def)

lemma swap_Some:
  "unat i < length xs \<Longrightarrow> unat j < length xs \<Longrightarrow> swap i j xs = Some (xs[unat i := xs ! unat j, unat j := xs ! unat i])"
  by (simp add: swap_def elem_Some)

section \<open>The scans\<close>

text \<open>A scan stops at the first element on its way that is not beyond the pivot, if there is one at all.\<close>

lemma scan_up_spec:
  assumes "k < length xs" "length xs < 2 ^ 64" "unat p < length xs" "I \<le> k" "unat (i + 1) = I"
    and "\<not> c (xs ! k) (xs ! unat p) < 0"
  shows "\<exists>i'. scan_up c xs p i = Some i' \<and> I \<le> unat i' \<and> unat i' \<le> k \<and> \<not> c (xs ! unat i') (xs ! unat p) < 0
    \<and> (\<forall>m. I \<le> m \<longrightarrow> m < unat i' \<longrightarrow> c (xs ! m) (xs ! unat p) < 0)"
  using assms
proof (induction "k - I" arbitrary: i I)
  case 0
  then have "unat (i + 1) = k" by simp
  with 0 show ?case by (subst scan_up.simps) (simp add: elem_Some Let_def)
next
  case (Suc d)
  show ?case
  proof (cases "c (xs ! I) (xs ! unat p) < 0")
    case True
    then have ne: "I \<noteq> k" using Suc.prems(6) by auto
    have u: "unat (i + 1 + 1) = Suc I"
      using unat_plus1 [of "i + 1" "length xs"] Suc.prems by simp
    have "d = k - Suc I" "Suc I \<le> k" using Suc.hyps(2) Suc.prems(4) ne by auto
    then obtain i' where i': "scan_up c xs p (i + 1) = Some i'" "Suc I \<le> unat i'" "unat i' \<le> k"
      "\<not> c (xs ! unat i') (xs ! unat p) < 0" "\<forall>m. Suc I \<le> m \<longrightarrow> m < unat i' \<longrightarrow> c (xs ! m) (xs ! unat p) < 0"
      using Suc.hyps(1) [of "Suc I" "i + 1"] Suc.prems u by blast
    have "scan_up c xs p i = Some i'"
      using i'(1) True Suc.prems by (subst scan_up.simps) (simp add: elem_Some Let_def)
    moreover have "\<forall>m. I \<le> m \<longrightarrow> m < unat i' \<longrightarrow> c (xs ! m) (xs ! unat p) < 0"
      using i'(5) True by (metis le_eq_less_or_eq less_eq_Suc_le)
    ultimately show ?thesis using i' by auto
  next
    case False
    then have "scan_up c xs p i = Some (i + 1)"
      using Suc.prems by (subst scan_up.simps) (simp add: elem_Some Let_def)
    then show ?thesis using Suc.prems False by auto
  qed
qed

lemma scan_down_spec:
  assumes "length xs < 2 ^ 64" "unat p < length xs" "k \<le> J" "unat (j - 1) = J" "J < length xs"
    and "\<not> c (xs ! k) (xs ! unat p) > 0"
  shows "\<exists>j'. scan_down c xs p j = Some j' \<and> k \<le> unat j' \<and> unat j' \<le> J \<and> \<not> c (xs ! unat j') (xs ! unat p) > 0
    \<and> (\<forall>m. unat j' < m \<longrightarrow> m \<le> J \<longrightarrow> c (xs ! m) (xs ! unat p) > 0)"
  using assms
proof (induction "J - k" arbitrary: j J)
  case 0
  then have "unat (j - 1) = k" by simp
  with 0 show ?case by (subst scan_down.simps) (simp add: elem_Some Let_def)
next
  case (Suc d)
  show ?case
  proof (cases "c (xs ! J) (xs ! unat p) > 0")
    case True
    then have ne: "J \<noteq> k" using Suc.prems(6) by auto
    then have "0 < J" using Suc.prems(3) by simp
    then have u: "unat (j - 1 - 1) = J - 1"
      using Suc.prems(4) unat_minus_one [of "j - 1"] by (cases "j - 1 = 0") auto
    have "d = (J - 1) - k" "k \<le> J - 1" "J - 1 < length xs" using Suc.hyps(2) Suc.prems ne by auto
    then obtain j' where j': "scan_down c xs p (j - 1) = Some j'" "k \<le> unat j'" "unat j' \<le> J - 1"
      "\<not> c (xs ! unat j') (xs ! unat p) > 0" "\<forall>m. unat j' < m \<longrightarrow> m \<le> J - 1 \<longrightarrow> c (xs ! m) (xs ! unat p) > 0"
      using Suc.hyps(1) [of "J - 1" "j - 1"] Suc.prems u by blast
    have "scan_down c xs p j = Some j'"
      using j'(1) True Suc.prems by (subst scan_down.simps) (simp add: elem_Some Let_def)
    moreover have "c (xs ! m) (xs ! unat p) > 0" if "unat j' < m" "m \<le> J" for m
      using j'(5) that True by (cases "m = J") auto
    ultimately show ?thesis using j' by auto
  next
    case False
    then have "scan_down c xs p j = Some (j - 1)"
      using Suc.prems by (subst scan_down.simps) (simp add: elem_Some Let_def)
    then show ?thesis using Suc.prems False by auto
  qed
qed

section \<open>Partitioning\<close>

text \<open>Only the positions from \<open>L\<close> to \<open>R\<close> are permuted.\<close>

definition rearranged :: "nat \<Rightarrow> nat \<Rightarrow> 'e list \<Rightarrow> 'e list \<Rightarrow> bool" where
  "rearranged L R xs ys \<longleftrightarrow> length ys = length xs \<and> mset ys = mset xs
     \<and> (\<forall>m < length xs. m < L \<or> R < m \<longrightarrow> ys ! m = xs ! m)
     \<and> (!) ys ` {L..R} = (!) xs ` {L..R}"

lemma rearranged_refl: "rearranged L R xs xs"
  by (simp add: rearranged_def)

lemma rearranged_trans: "rearranged L R xs ys \<Longrightarrow> rearranged L R ys zs \<Longrightarrow> rearranged L R xs zs"
  by (simp add: rearranged_def)

lemma rearranged_widen:
  assumes "rearranged L R xs ys" "L' \<le> L" "R \<le> R'" "R' < length xs"
  shows "rearranged L' R' xs ys"
proof -
  have out: "ys ! m = xs ! m" if "m < L \<or> R < m" "m \<le> R'" for m
    using assms that unfolding rearranged_def by auto
  have img: "(!) ys ` {L..R} = (!) xs ` {L..R}" using assms unfolding rearranged_def by blast
  have "{L'..R'} = {m. L' \<le> m \<and> m \<le> R' \<and> (m < L \<or> R < m)} \<union> ({L..R} \<inter> {L'..R'})" by auto
  moreover have "{L..R} \<inter> {L'..R'} = {L..R}" using assms by auto
  ultimately have split: "{L'..R'} = {m. L' \<le> m \<and> m \<le> R' \<and> (m < L \<or> R < m)} \<union> {L..R}" by metis
  have "(!) ys ` {L'..R'} = (!) xs ` {L'..R'}"
    unfolding split image_Un img using out by (intro arg_cong2 [where f = "(\<union>)"] image_cong) auto
  then show ?thesis using assms unfolding rearranged_def by auto
qed

lemma rearranged_swap:
  assumes "L \<le> i" "i \<le> R" "L \<le> j" "j \<le> R" "R < length xs"
  shows "rearranged L R xs (xs[i := xs ! j, j := xs ! i])"
proof -
  let ?ys = "xs[i := xs ! j, j := xs ! i]"
  define f where "f m = (if m = j then i else if m = i then j else m)" for m
  have nth: "?ys ! m = xs ! f m" if "m < length xs" for m
    using that assms by (auto simp: f_def nth_list_update)
  have "f ` {L..R} = {L..R}"
  proof
    show "f ` {L..R} \<subseteq> {L..R}" using assms by (auto simp: f_def)
    show "{L..R} \<subseteq> f ` {L..R}"
    proof
      fix m assume "m \<in> {L..R}"
      then have "f m \<in> {L..R}" "f (f m) = m" using assms by (auto simp: f_def)
      then show "m \<in> f ` {L..R}" by (metis image_eqI)
    qed
  qed
  moreover have "(!) ?ys ` {L..R} = (!) xs ` (f ` {L..R})"
    unfolding image_image using assms by (intro image_cong) (auto simp: nth)
  moreover have "mset ?ys = mset xs" using mset_swap [of j xs i] assms by simp
  ultimately show ?thesis unfolding rearranged_def using assms by (auto simp: nth f_def)
qed

definition split_at :: "'e compar \<Rightarrow> nat \<Rightarrow> nat \<Rightarrow> nat \<Rightarrow> 'e list \<Rightarrow> bool" where
  "split_at c L q R ys \<longleftrightarrow> L \<le> q \<and> q < R
     \<and> (\<forall>m \<in> {L..q}. c (ys ! m) (ys ! L) \<le> 0) \<and> (\<forall>m \<in> {q<..R}. c (ys ! L) (ys ! m) \<le> 0)"

lemma partition_loop_spec:
  assumes ok: "compar_ok c" and len: "length xs < 2 ^ 64" and R: "R < length xs" and p: "unat p = L"
    and ij: "L \<le> unat i" "unat i < unat j" "unat j \<le> R"
    and lo: "\<forall>m \<in> {L..unat i}. c (xs ! m) (xs ! L) \<le> 0" and hi: "\<forall>m \<in> {unat j..R}. c (xs ! L) (xs ! m) \<le> 0"
  shows "\<exists>q ys. partition_loop c p i j xs = Some (q, ys) \<and> split_at c L (unat q) R ys \<and> rearranged L R xs ys"
  using len R ij lo hi
proof (induction "unat j" arbitrary: i j xs rule: less_induct)
  case less
  note ok' = compar_okD [OF ok]
  let ?x = "xs ! L"
  have pL: "unat p < length xs" using less.prems p by simp
  have i1: "unat (i + 1) = Suc (unat i)" using unat_plus1 [of i "length xs"] less.prems by simp
  have j1: "unat (j - 1) = unat j - 1" using unat_minus_one [of j] less.prems(4) by (cases "j = 0") auto
  have "\<not> c (xs ! unat j) (xs ! unat p) < 0" using less.prems(5,7) p ok'(1) by auto
  then obtain i' where i': "scan_up c xs p i = Some i'" "Suc (unat i) \<le> unat i'" "unat i' \<le> unat j"
    "\<not> c (xs ! unat i') ?x < 0" "\<forall>m. Suc (unat i) \<le> m \<longrightarrow> m < unat i' \<longrightarrow> c (xs ! m) ?x < 0"
    using scan_up_spec [of "unat j" xs p "Suc (unat i)" i c] less.prems i1 pL p by auto
  have "unat i \<le> unat j - 1" "unat j - 1 < length xs" using less.prems(2,4,5) by linarith+
  moreover have "\<not> c (xs ! unat i) (xs ! unat p) > 0" using less.prems(3,6) p ok'(2) by auto
  ultimately obtain j' where j': "scan_down c xs p j = Some j'" "unat i \<le> unat j'" "unat j' \<le> unat j - 1"
    "\<not> c (xs ! unat j') ?x > 0" "\<forall>m. unat j' < m \<longrightarrow> m \<le> unat j - 1 \<longrightarrow> c (xs ! m) ?x > 0"
    using scan_down_spec [of xs p "unat i" "unat j - 1" j c] less.prems(1) j1 pL p by blast
  have below: "c (xs ! m) ?x \<le> 0" if "L \<le> m" "m < unat i'" for m
  proof (cases "m \<le> unat i")
    case False
    then have "c (xs ! m) ?x < 0" using i'(5) that by simp
    then show ?thesis by simp
  qed (use less.prems(6) that in simp)
  have above: "c ?x (xs ! m) \<le> 0" if "unat j' < m" "m \<le> R" for m
  proof (cases "unat j \<le> m")
    case True
    then show ?thesis using less.prems(7) that by simp
  next
    case False
    then have "c (xs ! m) ?x > 0" using j'(5) that by auto
    then show ?thesis using ok'(2,5) by blast
  qed
  show ?case
  proof (cases "j' \<le> i'")
    case True
    then have "partition_loop c p i j xs = Some (j', xs)" using i'(1) j'(1) by (subst partition_loop.simps) simp
    moreover have "c (xs ! m) ?x \<le> 0" if "L \<le> m" "m \<le> unat j'" for m
      using below that True j'(4) ok'(2) by (cases "m = unat j'") (auto simp: word_le_nat_alt)
    then have "split_at c L (unat j') R xs" unfolding split_at_def
      using above less.prems(3,4,5) j'(2,3) by auto
    ultimately show ?thesis using rearranged_refl by blast
  next
    case False
    let ?ys = "xs[unat i' := xs ! unat j', unat j' := xs ! unat i']"
    have lt: "unat i' < unat j'" using False by (simp add: word_le_nat_alt)
    have len': "unat j' < length xs" using j'(3) less.prems by linarith
    have nth: "?ys ! m = (if m = unat j' then xs ! unat i' else if m = unat i' then xs ! unat j' else xs ! m)" if "m < length xs" for m
      using that lt by (auto simp: nth_list_update)
    have L: "?ys ! L = ?x" using i'(2) less.prems(3) lt by (auto simp: nth_list_update)
    have lo': "\<forall>m \<in> {L..unat i'}. c (?ys ! m) (?ys ! L) \<le> 0"
    proof
      fix m assume "m \<in> {L..unat i'}"
      then show "c (?ys ! m) (?ys ! L) \<le> 0"
        unfolding L using nth [of m] below [of m] j'(4) lt len' ok'(2) by (cases "m = unat i'") auto
    qed
    have hi': "\<forall>m \<in> {unat j'..R}. c (?ys ! L) (?ys ! m) \<le> 0"
    proof
      fix m assume "m \<in> {unat j'..R}"
      then show "c (?ys ! L) (?ys ! m) \<le> 0"
        unfolding L using nth [of m] above [of m] i'(4) lt less.prems(2) ok'(1) by (cases "m = unat j'") auto
    qed
    have "partition_loop c p i j xs = partition_loop c p i' j' ?ys"
      using i'(1) j'(1) False lt len' by (subst partition_loop.simps) (simp add: swap_Some)
    moreover have "unat j' < unat j" "L \<le> unat i'" "unat j' \<le> R" using j'(3) i'(2) less.prems by auto
    then obtain q zs where "partition_loop c p i' j' ?ys = Some (q, zs)" "split_at c L (unat q) R zs" "rearranged L R ?ys zs"
      using less.hyps [of j' ?ys i'] lt less.prems(1,2) lo' hi' by auto
    moreover have "rearranged L R xs ?ys"
      using rearranged_swap [of L "unat i'" R "unat j'" xs] i'(2) lt j'(3) less.prems by auto
    ultimately show ?thesis using rearranged_trans by metis
  qed
qed

lemma hoare_partition_spec:
  assumes ok: "compar_ok c" and len: "length xs < 2 ^ 64" and R: "unat right < length xs" and lr: "left < right"
  shows "\<exists>q ys. hoare_partition c left right xs = Some (q, ys) \<and> split_at c (unat left) (unat q) (unat right) ys
    \<and> rearranged (unat left) (unat right) xs ys"
proof -
  note ok' = compar_okD [OF ok]
  let ?L = "unat left" and ?R = "unat right"
  let ?p = "xs ! ?L"
  have LR: "?L < ?R" using lr by (simp add: word_less_nat_alt)
  have up: "scan_up c xs left (left - 1) = Some left"
    using ok'(1,4) LR R by (subst scan_up.simps) (simp add: elem_Some Let_def)
  obtain j where j: "scan_down c xs left (right + 1) = Some j" "?L \<le> unat j" "unat j \<le> ?R"
    "\<not> c (xs ! unat j) ?p > 0" "\<forall>m. unat j < m \<longrightarrow> m \<le> ?R \<longrightarrow> c (xs ! m) ?p > 0"
    using scan_down_spec [of xs left ?L ?R "right + 1" c] len R LR ok'(2,4) by auto
  have above: "c ?p (xs ! m) \<le> 0" if "unat j < m" "m \<le> ?R" for m using j(5) that ok'(2,5) by blast
  show ?thesis
  proof (cases "j \<le> left")
    case True
    then have jL: "unat j = ?L" using j(2) by (simp add: word_le_nat_alt)
    have "hoare_partition c left right xs = Some (j, xs)"
      unfolding hoare_partition_def using up j(1) True by (subst partition_loop.simps) simp
    moreover have "split_at c ?L (unat j) ?R xs" unfolding split_at_def using jL LR above ok'(4) by auto
    ultimately show ?thesis using rearranged_refl by blast
  next
    case False
    then have lt: "?L < unat j" by (simp add: word_le_nat_alt)
    let ?ys = "xs[?L := xs ! unat j, unat j := ?p]"
    have len': "unat j < length xs" using j(3) R by simp
    have L: "?ys ! ?L = xs ! unat j" using lt len' by (simp add: nth_list_update)
    have hi: "\<forall>m \<in> {unat j..?R}. c (?ys ! ?L) (?ys ! m) \<le> 0"
    proof
      fix m assume m: "m \<in> {unat j..?R}"
      have x: "c (xs ! unat j) ?p \<le> 0" using j(4) ok'(2) by blast
      show "c (?ys ! ?L) (?ys ! m) \<le> 0"
        unfolding L using m x ok'(3) [OF x above [of m]] lt len' R by (cases "m = unat j") auto
    qed
    have "hoare_partition c left right xs = partition_loop c left left j ?ys"
      unfolding hoare_partition_def using up j(1) False lt len'
      by (subst partition_loop.simps) (simp add: swap_Some)
    moreover obtain q zs where "partition_loop c left left j ?ys = Some (q, zs)" "split_at c ?L (unat q) ?R zs"
      "rearranged ?L ?R ?ys zs"
      using partition_loop_spec [OF ok, of ?ys ?R left ?L left j] len R lt j(3) hi ok'(4) by auto
    moreover have "rearranged ?L ?R xs ?ys"
      using rearranged_swap [of ?L ?L ?R "unat j" xs] lt j(3) R LR by auto
    ultimately show ?thesis using rearranged_trans by metis
  qed
qed

section \<open>Sorting\<close>

definition ordered :: "'e compar \<Rightarrow> nat \<Rightarrow> nat \<Rightarrow> 'e list \<Rightarrow> bool" where
  "ordered c L R ys \<longleftrightarrow> (\<forall>m k. L \<le> m \<longrightarrow> m \<le> k \<longrightarrow> k \<le> R \<longrightarrow> c (ys ! m) (ys ! k) \<le> 0)"

lemma rearranged_image:
  assumes "rearranged L R xs ys" "m \<in> {L..R}"
  obtains m' where "m' \<in> {L..R}" "ys ! m = xs ! m'"
  using assms unfolding rearranged_def by (metis (no_types, lifting) image_iff)

lemma rearranged_outside:
  "rearranged L R xs ys \<Longrightarrow> m < length xs \<Longrightarrow> m < L \<or> R < m \<Longrightarrow> ys ! m = xs ! m"
  unfolding rearranged_def by blast

text \<open>Sorting both sides of a partitioned range sorts the range.\<close>

lemma ordered_join:
  assumes ok: "compar_ok c" and R: "R < length xs" and sp: "split_at c L q R xs"
    and ys: "rearranged L q xs ys" "ordered c L q ys" and zs: "rearranged (Suc q) R ys zs" "ordered c (Suc q) R zs"
  shows "ordered c L R zs"
  unfolding ordered_def
proof (intro allI impI)
  fix m k assume mk: "L \<le> m" "m \<le> k" "k \<le> R"
  have len: "length ys = length xs" using ys(1) by (simp add: rearranged_def)
  have q: "q < R" "L \<le> q" using sp by (auto simp: split_at_def)
  have low: "zs ! i = ys ! i" if "i \<le> q" for i
    using rearranged_outside [OF zs(1), of i] that q R len by simp
  consider "k \<le> q" | "m > q" | "m \<le> q" "q < k" by linarith
  then show "c (zs ! m) (zs ! k) \<le> 0"
  proof cases
    case 1
    then show ?thesis using ys(2) mk low [of m] low [of k] unfolding ordered_def by auto
  next
    case 2
    then show ?thesis using zs(2) mk unfolding ordered_def by auto
  next
    case 3
    obtain m' where m': "m' \<in> {L..q}" "ys ! m = xs ! m'"
      using rearranged_image [OF ys(1), of m] mk(1) 3(1) by auto
    obtain k' where k': "k' \<in> {Suc q..R}" "zs ! k = ys ! k'"
      using rearranged_image [OF zs(1), of k] mk(3) 3(2) by auto
    have "ys ! k' = xs ! k'" using rearranged_outside [OF ys(1), of k'] k'(1) R by auto
    moreover have "c (xs ! m') (xs ! L) \<le> 0" "c (xs ! L) (xs ! k') \<le> 0"
      using sp m'(1) k'(1) unfolding split_at_def by auto
    ultimately show ?thesis using compar_okD(3) [OF ok] m'(2) k'(2) low [OF 3(1)] by metis
  qed
qed

lemma qsort_range_spec:
  assumes ok: "compar_ok c"
  shows "length xs < 2 ^ 64 \<Longrightarrow> unat right < length xs \<Longrightarrow>
    \<exists>ys. qsort_range c left right xs = Some ys \<and> rearranged (unat left) (unat right) xs ys \<and> ordered c (unat left) (unat right) ys"
proof (induction "unat right - unat left" arbitrary: left right xs rule: less_induct)
  case less
  show ?case
  proof (cases "left < right")
    case False
    then have "unat right \<le> unat left" by (simp add: word_le_nat_alt not_less)
    then have "ordered c (unat left) (unat right) xs"
      unfolding ordered_def using compar_okD(4) [OF ok] by (metis le_antisym order_trans)
    moreover have "qsort_range c left right xs = Some xs"
      using False by (subst qsort_range.simps) (simp add: not_less)
    ultimately show ?thesis using rearranged_refl by blast
  next
    case True
    let ?L = "unat left" and ?R = "unat right"
    obtain q ys where ys: "hoare_partition c left right xs = Some (q, ys)" "split_at c ?L (unat q) ?R ys" "rearranged ?L ?R xs ys"
      using hoare_partition_spec [OF ok less.prems(1,2) True] by blast
    have len: "length ys = length xs" using ys(3) by (simp add: rearranged_def)
    have q: "?L \<le> unat q" "unat q < ?R" using ys(2) by (auto simp: split_at_def)
    have q1: "unat (q + 1) = Suc (unat q)" using unat_plus1 [of q "length xs"] q less.prems by simp
    have m: "unat q - ?L < ?R - ?L" "?R - Suc (unat q) < ?R - ?L" using q by linarith+
    have bnd: "length ys < 2 ^ 64" "unat q < length ys" using q len less.prems by auto
    obtain zs where zs: "qsort_range c left q ys = Some zs" "rearranged ?L (unat q) ys zs" "ordered c ?L (unat q) zs"
      using less.hyps [OF m(1), of ys] bnd by blast
    have len': "length zs = length xs" using zs(2) len by (simp add: rearranged_def)
    obtain ws where ws: "qsort_range c (q + 1) right zs = Some ws" "rearranged (Suc (unat q)) ?R zs ws" "ordered c (Suc (unat q)) ?R ws"
      using less.hyps [of right "q + 1" zs] m(2) q1 len' less.prems by auto
    have "qsort_range c left right xs = Some ws"
      using True [folded not_le] ys(1) zs(1) ws(1) by (subst qsort_range.simps) simp
    moreover have "rearranged ?L ?R xs ws"
      using rearranged_trans [OF ys(3)] rearranged_trans [OF rearranged_widen [OF zs(2)] rearranged_widen [OF ws(2)]] q len len' less.prems(2) by auto
    moreover have "ordered c ?L ?R ws"
      using ordered_join [OF ok _ ys(2) zs(2,3) ws(2,3)] len less.prems(2) by simp
    ultimately show ?thesis by blast
  qed
qed

text \<open>
  C7. \<open>qsort\<close> terminates on every array with at least one element, never reads or writes outside it, and leaves a permutation of
  the elements in ascending order, for every comparison function that is consistent and transitive, even though the element
  the pivot pointer designates changes during the partition.
\<close>

theorem qsort_sorts:
  assumes "compar_ok compar" "xs \<noteq> []" "length xs < 2 ^ 64"
  shows "\<exists>ys. qsort compar (of_nat (length xs)) xs = Some ys \<and> mset ys = mset xs \<and> sorted_wrt (\<lambda>x y. compar x y \<le> 0) ys"
proof -
  have u: "unat (of_nat (length xs) - 1 :: u64) = length xs - 1"
    using assms(2,3) by (subst unat_minus_one) (auto simp: unat_of_nat word_unat_eq_iff)
  then obtain ys where ys: "qsort compar (of_nat (length xs)) xs = Some ys" "rearranged 0 (length xs - 1) xs ys"
    "ordered compar 0 (length xs - 1) ys"
    using qsort_range_spec [OF assms(1,3), of "of_nat (length xs) - 1" 0] assms(2) by (auto simp: qsort_def)
  have "sorted_wrt (\<lambda>x y. compar x y \<le> 0) ys"
    using ys(2,3) unfolding sorted_wrt_iff_nth_less ordered_def rearranged_def by auto
  then show ?thesis using ys by (auto simp: rearranged_def)
qed

definition int_compar :: "int compar" where
  "int_compar x y = x - y"

lemma int_compar_ok: "compar_ok int_compar"
  by (auto simp: compar_ok_def int_compar_def)

theorem qsort_sorts_witness:
  "\<exists>ys. qsort int_compar (of_nat (length [3, 1, 2 :: int])) [3, 1, 2] = Some ys \<and> mset ys = mset [3, 1, 2]
     \<and> sorted_wrt (\<lambda>x y. int_compar x y \<le> 0) ys"
  by (rule qsort_sorts) (simp_all add: int_compar_ok)

text \<open>An empty array makes the last index wrap: the first access is already outside.\<close>

lemma qsort_empty: "qsort compar 0 [] = None"
  unfolding qsort_def
  by (subst qsort_range.simps) (simp add: hoare_partition_def partition_loop.simps [of _ 0] scan_up.simps [of _ _ 0] elem_def)

end
