(* ===== verification/Kmalloc.thy ===== *)
theory Kmalloc
  imports Rbt_Walk Kstring
begin

unbundle bit_operations_syntax

text \<open>
  \<^verbatim>\<open>mem/slab.c\<close>, the general allocator: \<open>kmalloc\<close> serves a request from the first cache whose objects
  are large enough, or from the buddy allocator, and records every block in \<open>kmalloc_tree\<close> with its
  cache (or \<open>NULL\<close>) and size; \<open>kfree\<close> looks the block up there.
\<close>

definition KMT_DMA :: u64 where "KMT_DMA = 0xDE11A000"
definition ALLOC_KERN :: u64 where "ALLOC_KERN = 1"
definition ALLOC_DMA :: u64 where "ALLOC_DMA = 2"

definition slab_sizes :: "u64 list" where
  "slab_sizes = [16, 32, 64, 128, 256, 512, 1024, 2048, 4096]"
definition dma_sizes :: "u64 list" where
  "dma_sizes = [0x1000, 0x10000, 0x100000, 0x1000000]"
definition uslab_sizes :: "u64 list" where
  "uslab_sizes = [0x1000, 0x4000, 0x8000, 0x10000, 0x20000]"

record kmalloc_state = rbt_state +
  kmalloc_tree :: rbtree
  umalloc_tree :: rbtree
  kslab_cache :: "addr list"
  slab_cache_dma :: "addr list"
  uslab_cache :: "addr list"

type_synonym 'a km_kmap = "'a kmalloc_state_ext rbt_state_ext kmap_fun"

definition upd_node :: "addr \<Rightarrow> (rbnode \<Rightarrow> rbnode) \<Rightarrow> 'a rbt_state_scheme \<Rightarrow> 'a rbt_state_scheme" where
  "upd_node n f s = s\<lparr>rbnodes := (rbnodes s)(n := f (rbnodes s n))\<rparr>"

section \<open>Initialisation\<close>

primrec create_caches :: "'a km_kmap \<Rightarrow> u64 list \<Rightarrow> u64 \<Rightarrow> u64 \<Rightarrow> 'a kmalloc_state_scheme \<Rightarrow> (addr list \<times> 'a kmalloc_state_scheme) option" where
  "create_caches kmap [] cache_size flags s = Some ([], s)"
| "create_caches kmap (sz # szs) cache_size flags s = do {
     (p, s) \<leftarrow> slab_create kmap sz cache_size flags s;
     (ps, s) \<leftarrow> create_caches kmap szs cache_size flags s;
     Some (p # ps, s)
   }"

definition kmalloc_init :: "'a km_kmap \<Rightarrow> 'a kmalloc_state_scheme \<Rightarrow> 'a kmalloc_state_scheme option" where
  "kmalloc_init kmap s = do {
     (ps, s) \<leftarrow> create_caches kmap slab_sizes 0x20000 0 s;
     let s = s\<lparr>kslab_cache := ps\<rparr>;
     (ps, s) \<leftarrow> create_caches kmap dma_sizes 0x800000 SLAB_DMA_64K s;
     Some (s\<lparr>slab_cache_dma := ps\<rparr>)
   }"

definition umalloc_init :: "'a km_kmap \<Rightarrow> 'a kmalloc_state_scheme \<Rightarrow> 'a kmalloc_state_scheme option" where
  "umalloc_init kmap s = do {
     (ps, s) \<leftarrow> create_caches kmap uslab_sizes 0x400000 SLAB_PAGE_ALIGN s;
     Some (s\<lparr>uslab_cache := ps\<rparr>)
   }"

definition slabtypes_init :: "'a km_kmap \<Rightarrow> 'a kmalloc_state_scheme \<Rightarrow> 'a kmalloc_state_scheme option" where
  "slabtypes_init kmap s = do {
     s \<leftarrow> rbt_slab_init kmap s;
     s \<leftarrow> umalloc_init kmap s;
     kmalloc_init kmap s
   }"

section \<open>Allocation\<close>

text \<open>The first size class that fits, with its cache.\<close>

definition size_class :: "u64 \<Rightarrow> u64 list \<Rightarrow> addr list \<Rightarrow> (u64 \<times> addr) option" where
  "size_class sz sizes cache = List.find (\<lambda>(z, _). sz \<le> z) (zip sizes cache)"

definition kmalloc_table :: "'a km_kmap \<Rightarrow> u64 \<Rightarrow> u64 list \<Rightarrow> addr list \<Rightarrow> bool \<Rightarrow> 'a kmalloc_state_scheme \<Rightarrow> (addr \<times> 'a kmalloc_state_scheme) option" where
  "kmalloc_table kmap sz sizes cache fb_disable s = do {
     (ret, slab, sz, s) \<leftarrow>
       (if sz > last sizes \<and> \<not> fb_disable then do {
          (ret, s) \<leftarrow> buddy_alloc (npow2 sz) s;
          Some (ret, NULL, sz, s)
        }
        else case size_class sz sizes cache of
            Some (z, slab) \<Rightarrow> do {
              (ret, s) \<leftarrow> slab_alloc kmap slab s;
              Some (ret, slab, z, s)
            }
          | None \<Rightarrow> Some (NULL, NULL, sz, s));
     if ret = NULL then Some (NULL, s)
     else do {
       (n, tree, s) \<leftarrow> rbt_insert kmap ret (kmalloc_tree s) s;
       let s = s\<lparr>kmalloc_tree := tree\<rparr>;
       if n = NULL then do {
         s \<leftarrow> (if slab \<noteq> NULL then slab_free kmap slab ret s else buddy_free ret s);
         Some (NULL, s)
       }
       else Some (ret, upd_node n (\<lambda>nd. nd\<lparr>rb_value := slab, rb_value2 := sz\<rparr>) s)
     }
   }"

definition kmalloc :: "'a km_kmap \<Rightarrow> u64 \<Rightarrow> u64 \<Rightarrow> 'a kmalloc_state_scheme \<Rightarrow> (addr \<times> 'a kmalloc_state_scheme) option" where
  "kmalloc kmap sz flags s =
    (if flags AND ALLOC_DMA \<noteq> 0 then do {
       (ret, s) \<leftarrow> kmalloc_table kmap sz dma_sizes (slab_cache_dma s) True s;
       if ret \<noteq> NULL then Some (ret, s)
       else do {
         (ret, s) \<leftarrow> buddy_alloc (npow2 sz) s;
         if ret = NULL then Some (NULL, s)
         else do {
           (n, tree, s) \<leftarrow> rbt_insert kmap ret (kmalloc_tree s) s;
           let s = s\<lparr>kmalloc_tree := tree\<rparr>;
           if n = NULL then do { s \<leftarrow> buddy_free ret s; Some (NULL, s) }
           else Some (ret, upd_node n (\<lambda>nd. nd\<lparr>rb_value := 0, rb_value2 := sz, rb_value3 := KMT_DMA\<rparr>) s)
         }
       }
     }
     else kmalloc_table kmap sz slab_sizes (kslab_cache s) False s)"

definition kzalloc :: "'a km_kmap \<Rightarrow> u64 \<Rightarrow> u64 \<Rightarrow> 'a kmalloc_state_scheme \<Rightarrow> (addr \<times> 'a kmalloc_state_scheme) option" where
  "kzalloc kmap sz flags s = do {
     (ret, s) \<leftarrow> kmalloc kmap sz flags s;
     if ret = NULL then Some (NULL, s)
     else Some (ret, s\<lparr>ram := snd (memset ret 0 sz (ram s))\<rparr>)
   }"

section \<open>Release\<close>

definition kfree :: "'a km_kmap \<Rightarrow> addr \<Rightarrow> 'a kmalloc_state_scheme \<Rightarrow> 'a kmalloc_state_scheme option" where
  "kfree kmap ptr s =
    (if ptr = NULL then Some s
     else do {
       n \<leftarrow> rbt_search (kmalloc_tree s) ptr (rbnodes s);
       if n = NULL then Some s
       else do {
         let slab = rb_value (rbnodes s n);
         s \<leftarrow> (if slab \<noteq> NULL then slab_free kmap slab ptr s
              else do {
                s \<leftarrow> buddy_free ptr s;
                if rb_value3 (rbnodes s n) = KMT_DMA
                then kmap (ptr AND NOT (hhdm_start s)) ptr (rb_value2 (rbnodes s n)) (kdefault_attrs s) s
                else Some s
              });
         (tree, s) \<leftarrow> rbt_delete kmap n (kmalloc_tree s) s;
         Some (s\<lparr>kmalloc_tree := tree\<rparr>)
       }
     })"

definition krealloc :: "'a km_kmap \<Rightarrow> addr \<Rightarrow> u64 \<Rightarrow> u64 \<Rightarrow> 'a kmalloc_state_scheme \<Rightarrow> (addr \<times> 'a kmalloc_state_scheme) option" where
  "krealloc kmap ptr sz flags s =
    (if ptr = NULL then kmalloc kmap sz flags s
     else if sz = 0 then Some (ptr, s)
     else do {
       n \<leftarrow> rbt_search (kmalloc_tree s) ptr (rbnodes s);
       if n = NULL then Some (NULL, s)
       else do {
         let old_size = rb_value2 (rbnodes s n);
         if sz \<le> old_size then Some (ptr, s)
         else do {
           (ret, s) \<leftarrow> kmalloc kmap sz flags s;
           if ret = NULL then Some (NULL, s)
           else do {
             let s = s\<lparr>ram := snd (memcpy ret ptr old_size (ram s))\<rparr>;
             s \<leftarrow> kfree kmap ptr s;
             Some (ret, s)
           }
         }
       }
     })"

end
