(* ===== verification/Paging.thy ===== *)
theory Paging
  imports Kmalloc
begin

unbundle bit_operations_syntax

text \<open>
  \<^verbatim>\<open>mem/page.c\<close>: four-level page tables and the trees of mappings of the kernel and of each process.
  Table entries are a typed store \<open>ptes\<close> indexed by the address of the entry. The processes, whose
  structures hold a tree of mappings, are a typed store as well.

  \<open>kmap\<close> and the slab allocator call each other, but the caches \<open>kmap\<close> itself allocates from (tree nodes
  and page tables) never have \<open>SLAB_DMA_64K\<close> set; the calls here therefore pass \<open>no_kmap\<close>, which does not
  return if it is ever called. Log output is left out.
\<close>

abbreviation (input) PAGE_PRESENT :: u64 where "PAGE_PRESENT \<equiv> 0x1"
abbreviation (input) PAGE_RW :: u64 where "PAGE_RW \<equiv> 0x2"
abbreviation (input) PAGE_USER :: u64 where "PAGE_USER \<equiv> 0x4"
abbreviation (input) PAGE_PWT :: u64 where "PAGE_PWT \<equiv> 0x8"
abbreviation (input) PAGE_XD :: u64 where "PAGE_XD \<equiv> 0x8000000000000000"

record procregs =
  rax :: u64
  rbx :: u64
  rcx :: u64
  rdx :: u64
  rsi :: u64
  rdi :: u64
  rbp :: u64
  r8 :: u64
  r9 :: u64
  r10 :: u64
  r11 :: u64
  r12 :: u64
  r13 :: u64
  r14 :: u64
  r15 :: u64
  rip :: u64
  cs :: u64
  rflags :: u64
  rsp :: u64
  ss :: u64

text \<open>\<open>struct proc\<close>; the signed \<open>pid_t\<close> is kept as its 64 bits, as the trees of processes use it.\<close>

record proc =
  p_regs :: procregs
  p_state :: u8
  p_pid :: u64
  p_ppid :: u64
  p_cr3 :: u64
  p_lock :: u32
  p_is_kernel :: bool
  p_page_map :: rbtree
  p_page_map_lock :: u32
  p_fd_map :: rbtree
  p_fd_map_lock :: u32
  p_parent :: addr
  p_children :: rbtree
  p_buddy_proc :: addr
  p_stack_start :: u64
  p_stack_size :: u64
  p_heap_start :: u64
  p_umalloc_tree :: rbtree

datatype page_source = Alloc_page_early | Kmap_alloc_page

record page_state = kmalloc_state +
  ptes :: "addr \<Rightarrow> u64"
  page_slab :: addr
  alloc_page_fn :: page_source
  early :: early_mem
  kmap_tree :: "rbtree option"
  kmap_lock :: u32
  pml4 :: addr
  kcr3 :: u64
  cr3 :: u64
  procs :: "addr \<Rightarrow> proc"

definition no_kmap :: "'a kmap_fun" where
  "no_kmap = (\<lambda>_ _ _ _ _. None)"

definition upd_proc :: "addr \<Rightarrow> (proc \<Rightarrow> proc) \<Rightarrow> 'a page_state_scheme \<Rightarrow> 'a page_state_scheme" where
  "upd_proc p f s = s\<lparr>procs := (procs s)(p := f (procs s p))\<rparr>"

section \<open>Page tables\<close>

definition kmap_alloc_page :: "'a page_state_scheme \<Rightarrow> (addr \<times> 'a page_state_scheme) option" where
  "kmap_alloc_page s = slab_alloc no_kmap (page_slab s) s"

definition alloc_page :: "'a page_state_scheme \<Rightarrow> (addr \<times> 'a page_state_scheme) option" where
  "alloc_page s = (case alloc_page_fn s of
     Alloc_page_early \<Rightarrow> let (r, e) = alloc_page_early (early s) in Some (r, s\<lparr>early := e\<rparr>)
   | Kmap_alloc_page \<Rightarrow> kmap_alloc_page s)"

text \<open>\<open>memset(r, 0, 4096)\<close> on a page of table entries.\<close>

definition zero_table :: "addr \<Rightarrow> (addr \<Rightarrow> u64) \<Rightarrow> (addr \<Rightarrow> u64)" where
  "zero_table r P = (\<lambda>a. if a - r < 4096 then 0 else P a)"

abbreviation pte_addr :: "addr \<Rightarrow> u64 \<Rightarrow> addr" where
  "pte_addr table n \<equiv> table + 8 * n"

definition pagemap_traverse :: "addr \<Rightarrow> u64 \<Rightarrow> u64 \<Rightarrow> 'a page_state_scheme \<Rightarrow> (addr \<times> 'a page_state_scheme) option" where
  "pagemap_traverse this_level next_num attr s = do {
     assert_opt (this_level \<noteq> NULL);
     let e = pte_addr this_level next_num;
     if ptes s e AND 1 = 0 then
       (if attr = 0 then Some (NULL, s)
        else do {
          (r, s) \<leftarrow> alloc_page s;
          assert_opt (r \<noteq> NULL);
          let s = s\<lparr>ptes := (zero_table r (ptes s))
            (e := ((r OR 3) AND NOT (hhdm_start s)) OR (attr AND (PAGE_PRESENT OR PAGE_USER)))\<rparr>;
          Some (r, s)
        })
     else Some ((ptes s e AND - 4096) OR hhdm_start s, s)
   }"

definition pn :: "addr \<Rightarrow> u64" where "pn v = drop_bit 12 v AND 0x1FF"
definition ptn :: "addr \<Rightarrow> u64" where "ptn v = drop_bit 21 v AND 0x1FF"
definition pdn :: "addr \<Rightarrow> u64" where "pdn v = drop_bit 30 v AND 0x1FF"
definition pdpn :: "addr \<Rightarrow> u64" where "pdpn v = drop_bit 39 v AND 0x1FF"

text \<open>One page of \<open>mmap\<close>.\<close>

definition map_page :: "addr \<Rightarrow> u64 \<Rightarrow> addr \<Rightarrow> u64 \<Rightarrow> 'a page_state_scheme \<Rightarrow> 'a page_state_scheme option" where
  "map_page pml4_v paddr vaddr attr s = do {
     (pdpt, s) \<leftarrow> pagemap_traverse pml4_v (pdpn vaddr) attr s;
     (pdt, s) \<leftarrow> pagemap_traverse pdpt (pdn vaddr) attr s;
     (pt, s) \<leftarrow> pagemap_traverse pdt (ptn vaddr) attr s;
     assert_opt (pt \<noteq> NULL);
     Some (s\<lparr>ptes := (ptes s)(pte_addr pt (pn vaddr) := paddr OR attr)\<rparr>)
   }"

partial_function (option) mmap_loop :: "addr \<Rightarrow> u64 \<Rightarrow> addr \<Rightarrow> u64 \<Rightarrow> u64 \<Rightarrow> 'a page_state_scheme \<Rightarrow> 'a page_state_scheme option" where
  "mmap_loop pml4_v paddr vaddr len attr s =
    (if len = 0 then Some s
     else do {
       s \<leftarrow> map_page pml4_v paddr vaddr attr s;
       mmap_loop pml4_v (paddr + 4096) (vaddr + 4096) (len - 4096) attr s
     })"

definition mmap :: "addr \<Rightarrow> rbtree option \<Rightarrow> u64 \<Rightarrow> addr \<Rightarrow> u64 \<Rightarrow> u64 \<Rightarrow> 'a page_state_scheme \<Rightarrow> (rbtree option \<times> 'a page_state_scheme) option" where
  "mmap pml4_v tree paddr vaddr len attr s = do {
     let len = len + (paddr AND 4095);
     let paddr = paddr AND - 4096;
     let vaddr = vaddr AND - 4096;
     let len = (len + 4095) AND - 4096;
     case tree of
       None \<Rightarrow> do { s \<leftarrow> mmap_loop pml4_v paddr vaddr len attr s; Some (None, s) }
     | Some t \<Rightarrow> do {
         test \<leftarrow> rbt_range_val2 t vaddr len (rbnodes s);
         if test \<noteq> NULL then Some (tree, s)
         else do {
           (n, t, s) \<leftarrow> rbt_insert no_kmap vaddr t s;
           if n = NULL then Some (Some t, s)
           else do {
             let s = upd_node n (\<lambda>nd. nd\<lparr>rb_value := paddr, rb_value2 := len, rb_value3 := attr\<rparr>) s;
             s \<leftarrow> mmap_loop pml4_v paddr vaddr len attr s;
             Some (Some t, s)
           }
         }
       }
   }"

section \<open>Finding an unmapped range\<close>

partial_function (option) find_unmapped_loop :: "u64 \<Rightarrow> addr \<Rightarrow> u64 \<Rightarrow> nodes \<Rightarrow> (bool \<times> u64) option" where
  "find_unmapped_loop len node ret h =
    (if node = NULL then Some (False, ret)
     else if ret + len \<le> rb_key (h node) then do {
       node2 \<leftarrow> rbt_successor node h;
       n2 \<leftarrow> nd h node2;
       if rb_key n2 \<le> ret + len then find_unmapped_loop len node2 (rb_key n2 + rb_value2 n2) h
       else Some (True, ret)
     }
     else do {
       next \<leftarrow> rbt_successor node h;
       find_unmapped_loop len next (rb_key (h node) + rb_value2 (h node)) h
     })"

text \<open>The lock is taken and given back; it must be free for the call to return.\<close>

definition mmap_find_unmapped :: "u64 \<Rightarrow> rbtree option \<Rightarrow> u32 \<Rightarrow> addr \<Rightarrow> u64 \<Rightarrow> nodes \<Rightarrow> addr option" where
  "mmap_find_unmapped hhdm tree lock start len h = do {
     let kern = (len \<ge> hhdm);
     let len = ((max len 0x1000) OR 0xFFF) + 1;
     l \<leftarrow> spinlock_acquire lock;
     case tree of None \<Rightarrow> Some 0
     | Some t \<Rightarrow>
         if rt_root t = NULL then Some 0
         else do {
           node \<leftarrow> rbt_minimum_loop (rt_root t) h;
           (early_return, ret) \<leftarrow> find_unmapped_loop len node start h;
           if early_return then Some ret
           else if ret \<ge> hhdm \<and> \<not> kern then Some 0
           else Some ret
         }
   }"

section \<open>Mapping for a process and for the kernel\<close>

definition proc_mmap :: "addr \<Rightarrow> u64 \<Rightarrow> addr \<Rightarrow> u64 \<Rightarrow> u64 \<Rightarrow> 'a page_state_scheme \<Rightarrow> (addr \<times> 'a page_state_scheme) option" where
  "proc_mmap p paddr vaddr len attr s = do {
     assert_opt (p \<noteq> NULL);
     vaddr \<leftarrow> (if vaddr + len \<ge> hhdm_start s
        then mmap_find_unmapped (hhdm_start s) (Some (p_page_map (procs s p))) (p_page_map_lock (procs s p)) 0 len (rbnodes s)
        else Some vaddr);
     n \<leftarrow> rbt_search (p_page_map (procs s p)) vaddr (rbnodes s);
     if n \<noteq> NULL then Some (NULL, s)
     else do {
       l \<leftarrow> spinlock_acquire (p_page_map_lock (procs s p));
       (t, s) \<leftarrow> mmap (p_cr3 (procs s p) OR hhdm_start s) (Some (p_page_map (procs s p))) paddr vaddr len attr s;
       let s = upd_proc p (\<lambda>q. q\<lparr>p_page_map := the t, p_page_map_lock := 0\<rparr>) s;
       Some (vaddr, s)
     }
   }"

definition kmap :: "u64 \<Rightarrow> addr \<Rightarrow> u64 \<Rightarrow> u64 \<Rightarrow> 'a page_state_scheme \<Rightarrow> 'a page_state_scheme option" where
  "kmap paddr vaddr len attr s = do {
     s \<leftarrow> (if pml4 s = NULL then do {
            (r, s) \<leftarrow> alloc_page s;
            assert_opt (r \<noteq> NULL);
            Some (s\<lparr>pml4 := r, ptes := zero_table r (ptes s)\<rparr>)
          } else Some s);
     l \<leftarrow> spinlock_acquire (kmap_lock s);
     (t, s) \<leftarrow> mmap (pml4 s) (kmap_tree s) paddr vaddr len attr (s\<lparr>kmap_lock := l\<rparr>);
     Some (s\<lparr>kmap_tree := t, kmap_lock := 0\<rparr>)
   }"

definition kmap_device :: "u64 \<Rightarrow> u64 \<Rightarrow> 'a page_state_scheme \<Rightarrow> (addr \<times> 'a page_state_scheme) option" where
  "kmap_device dev len s = do {
     let dev_page = dev AND NOT 0xFFF;
     vaddr \<leftarrow> mmap_find_unmapped (hhdm_start s) (kmap_tree s) (kmap_lock s) (hhdm_start s) len (rbnodes s);
     s \<leftarrow> kmap dev_page vaddr len (PAGE_PCD OR PAGE_PWT OR PAGE_RW OR PAGE_PRESENT) s;
     Some (vaddr OR (dev AND 0xFFF), s)
   }"

section \<open>Unmapping\<close>

primrec table_empty :: "nat \<Rightarrow> addr \<Rightarrow> (addr \<Rightarrow> u64) \<Rightarrow> bool" where
  "table_empty 0 table P = True"
| "table_empty (Suc i) table P \<longleftrightarrow> P (pte_addr table (of_nat i)) AND 1 = 0 \<and> table_empty i table P"

definition munmap_check_table :: "addr \<Rightarrow> addr \<Rightarrow> u64 \<Rightarrow> 'a page_state_scheme \<Rightarrow> (bool \<times> 'a page_state_scheme) option" where
  "munmap_check_table table parent n s =
    (if \<not> table_empty 512 table (ptes s) then Some (False, s)
     else do {
       s \<leftarrow> slab_free no_kmap (page_slab s) table s;
       Some (True, if parent \<noteq> NULL then s\<lparr>ptes := (ptes s)(pte_addr parent n := 0)\<rparr> else s)
     })"

text \<open>One page of \<open>munmap\<close>; the last check uses the kernel's top table, also for a process.\<close>

definition unmap_page :: "addr \<Rightarrow> addr \<Rightarrow> 'a page_state_scheme \<Rightarrow> 'a page_state_scheme option" where
  "unmap_page pml4_v vaddr s = do {
     (pdpt, s) \<leftarrow> pagemap_traverse pml4_v (pdpn vaddr) 0 s;
     (pdt, s) \<leftarrow> pagemap_traverse pdpt (pdn vaddr) 0 s;
     (pt, s) \<leftarrow> pagemap_traverse pdt (ptn vaddr) 0 s;
     assert_opt (pt \<noteq> NULL);
     let s = s\<lparr>ptes := (ptes s)(pte_addr pt (pn vaddr) := 0)\<rparr>;
     (gone, s) \<leftarrow> munmap_check_table pt pdt (ptn vaddr) s;
     if \<not> gone then Some s
     else do {
       (gone, s) \<leftarrow> munmap_check_table pdt pdpt (pdn vaddr) s;
       if \<not> gone then Some s
       else do {
         (gone, s) \<leftarrow> munmap_check_table pdpt (pml4 s) (pdpn vaddr) s;
         Some s
       }
     }
   }"

partial_function (option) munmap_loop :: "addr \<Rightarrow> addr \<Rightarrow> u64 \<Rightarrow> 'a page_state_scheme \<Rightarrow> 'a page_state_scheme option" where
  "munmap_loop pml4_v vaddr len s =
    (if len = 0 then Some s
     else do { s \<leftarrow> unmap_page pml4_v vaddr s; munmap_loop pml4_v (vaddr + 4096) (len - 4096) s })"

definition munmap :: "rbtree \<Rightarrow> addr \<Rightarrow> addr \<Rightarrow> 'a page_state_scheme \<Rightarrow> (rbtree \<times> 'a page_state_scheme) option" where
  "munmap mtree vaddr pml4_vaddr s =
    (if kmap_tree s = None then Some (mtree, s)
     else do {
       node \<leftarrow> rbt_search mtree vaddr (rbnodes s);
       if node = NULL then Some (mtree, s)
       else do {
         s \<leftarrow> munmap_loop pml4_vaddr vaddr (rb_value2 (rbnodes s node)) s;
         rbt_delete no_kmap node mtree s
       }
     })"

definition proc_munmap :: "addr \<Rightarrow> addr \<Rightarrow> 'a page_state_scheme \<Rightarrow> 'a page_state_scheme option" where
  "proc_munmap p vaddr s = do {
     assert_opt (p \<noteq> NULL);
     l \<leftarrow> spinlock_acquire (p_page_map_lock (procs s p));
     (t, s) \<leftarrow> munmap (p_page_map (procs s p)) vaddr (p_cr3 (procs s p) OR hhdm_start s) s;
     Some (upd_proc p (\<lambda>q. q\<lparr>p_page_map := t, p_page_map_lock := 0\<rparr>) s)
   }"

section \<open>Physical memory\<close>

definition virt_to_phys :: "addr \<Rightarrow> u64 \<Rightarrow> 'a page_state_scheme \<Rightarrow> u64" where
  "virt_to_phys vaddr page_base s =
    (let cur = page_base OR hhdm_start s;
         cur = (ptes s (pte_addr cur (pdpn vaddr)) AND - 4096) OR hhdm_start s;
         cur = (ptes s (pte_addr cur (pdn vaddr)) AND - 4096) OR hhdm_start s;
         cur = (ptes s (pte_addr cur (ptn vaddr)) AND - 4096) OR hhdm_start s;
         cur = ptes s (pte_addr cur (pn vaddr)) AND - 4096
     in cur AND NOT (hhdm_start s))"

text \<open>A copy of a block copies its bytes and its table entries.\<close>

definition phys_memcpy :: "addr \<Rightarrow> u64 \<Rightarrow> u64 \<Rightarrow> 'a page_state_scheme \<Rightarrow> 'a page_state_scheme option" where
  "phys_memcpy dest src num s =
    (if dest = NULL then None
     else let from = src OR hhdm_start s in
       Some (s\<lparr>ram := snd (memcpy dest from num (ram s)),
         ptes := (\<lambda>a. if a - dest < num then ptes s (from + (a - dest)) else ptes s a)\<rparr>))"

partial_function (option) clone_loop :: "addr \<Rightarrow> addr \<Rightarrow> 'a page_state_scheme \<Rightarrow> 'a page_state_scheme option" where
  "clone_loop node out s =
    (if node = NULL then Some s
     else do {
       let n = rbnodes s node;
       (p, s) \<leftarrow> buddy_alloc (rb_value2 n) s;
       s \<leftarrow> phys_memcpy p (rb_value n) (rb_value2 n) s;
       (v, s) \<leftarrow> proc_mmap out (virt_to_phys p (kcr3 s) s) (rb_key n) (rb_value2 n) (rb_value3 n) s;
       node \<leftarrow> rbt_successor node (rbnodes s);
       clone_loop node out s
     })"

definition proc_clone_mmap :: "addr \<Rightarrow> addr \<Rightarrow> 'a page_state_scheme \<Rightarrow> (u64 \<times> 'a page_state_scheme) option" where
  "proc_clone_mmap inp out s = do {
     (p, s) \<leftarrow> buddy_alloc 0x1000 s;
     s \<leftarrow> phys_memcpy p (kcr3 s) 0x1000 s;
     let s = upd_proc out (\<lambda>q. q\<lparr>p_cr3 := virt_to_phys p (kcr3 s) s\<rparr>) s;
     l \<leftarrow> spinlock_acquire (p_lock (procs s inp));
     let s = upd_proc inp (p_lock_update (\<lambda>_. l)) s;
     l \<leftarrow> spinlock_acquire (p_lock (procs s out));
     let s = upd_proc out (p_lock_update (\<lambda>_. l)) s;
     node \<leftarrow> rbt_minimum (rt_root (p_page_map (procs s inp))) (rbnodes s);
     s \<leftarrow> clone_loop node out s;
     let s = upd_proc inp (p_lock_update (\<lambda>_. 0)) s;
     let s = upd_proc out (p_lock_update (\<lambda>_. 0)) s;
     Some (p_cr3 (procs s out), s)
   }"

section \<open>Initialisation\<close>

primrec kmap_regions :: "mem_region list \<Rightarrow> u64 \<Rightarrow> 'a page_state_scheme \<Rightarrow> 'a page_state_scheme option" where
  "kmap_regions [] attr s = Some s"
| "kmap_regions (r # rs) attr s = do {
     s \<leftarrow> kmap (mr_base r) (mr_base r OR hhdm_start s) (mr_len r) attr s;
     kmap_regions rs attr s
   }"

definition page_init :: "u64 \<Rightarrow> u64 \<Rightarrow> u64 \<Rightarrow> mem_region list \<Rightarrow> 'a page_state_scheme \<Rightarrow> 'a page_state_scheme option" where
  "page_init kpaddr kvaddr kernel_size regions s = do {
     (p, s) \<leftarrow> slab_create kmap 0x1000 0x400000 SLAB_PAGE_ALIGN s;
     let s = s\<lparr>page_slab := p\<rparr>;
     s \<leftarrow> slabtypes_init kmap s;
     (t, s) \<leftarrow> kzalloc kmap 24 ALLOC_KERN s;
     let s = s\<lparr>kmap_tree := (if t = NULL then None else Some \<lparr>rt_root = 0, rt_lock = 0, rt_num_nodes = 0\<rparr>)\<rparr>;
     let s = s\<lparr>alloc_page_fn := Kmap_alloc_page, pml4 := NULL\<rparr>;
     let attrs = PAGE_PRESENT OR PAGE_RW;
     s \<leftarrow> kmap kpaddr kvaddr kernel_size attrs s;
     s \<leftarrow> kmap_regions regions (attrs OR PAGE_XD) s;
     let s = s\<lparr>kcr3 := pml4 s AND NOT (hhdm_start s)\<rparr>;
     Some (s\<lparr>cr3 := kcr3 s\<rparr>)
   }"

text \<open>
  The regions table moves to the first page the first usable region gives; its contents stay the same,
  so only the page that is taken shows in the model.
\<close>

primrec init_regions :: "mem_region list \<Rightarrow> bool \<Rightarrow> 'a page_state_scheme \<Rightarrow> 'a page_state_scheme option" where
  "init_regions [] page_found s = Some s"
| "init_regions (r # rs) page_found s =
    (if \<not> mr_usable r then init_regions rs page_found s
     else do {
       s \<leftarrow> buddy_init_region r s;
       if page_found then init_regions rs page_found s
       else do {
         let head = mr_base r OR hhdm_start s;
         (r_alloc, m) \<leftarrow> buddy_alloc_helper (headers s head) (head + header_size) 0x1000 (ram s);
         init_regions rs (r_alloc \<noteq> 0) (s\<lparr>ram := m\<rparr>)
       }
     })"

definition mem_early_init :: "addr \<Rightarrow> u64 \<Rightarrow> limine_memmap_entry list \<Rightarrow> u64 \<Rightarrow> u64 \<Rightarrow> 'a page_state_scheme \<Rightarrow> 'a page_state_scheme option" where
  "mem_early_init mem len entries physical_base virtual_base s = do {
     let s = s\<lparr>alloc_page_fn := Alloc_page_early, early := \<lparr>kmem = mem, kmem_len = len, hwm = hwm (early s)\<rparr>\<rparr>;
     (kernel_size, regions) \<leftarrow> limine_parse_memregions entries [];
     let s = s\<lparr>mem_regions := regions, kdefault_attrs := 3\<rparr>;
     s \<leftarrow> kmap physical_base virtual_base kernel_size 3 s;
     s \<leftarrow> kmap_regions regions 3 s;
     let s = s\<lparr>cr3 := push_bit 12 (drop_bit 12 (pml4 s AND NOT (hhdm_start s)))\<rparr>;
     s \<leftarrow> init_regions regions False s;
     page_init physical_base virtual_base kernel_size regions s
   }"

end
