(* ===== verification/Bytes.thy ===== *)
theory Bytes
  imports Kstring
begin

unbundle bit_operations_syntax

text \<open>
  Little-endian access to the byte memory, for the structures the code copies as bytes: the on-disk
  structures of the file system and of the partition table, and directory entries. A field of such a
  structure is a load or a store at the address of the structure plus the offset of the field.
\<close>

definition load16 :: "mem \<Rightarrow> addr \<Rightarrow> u16" where
  "load16 m p = ucast (m p) OR push_bit 8 (ucast (m (p + 1)))"

definition load32 :: "mem \<Rightarrow> addr \<Rightarrow> u32" where
  "load32 m p = ucast (load16 m p) OR push_bit 16 (ucast (load16 m (p + 2)))"

definition load64 :: "mem \<Rightarrow> addr \<Rightarrow> u64" where
  "load64 m p = ucast (load32 m p) OR push_bit 32 (ucast (load32 m (p + 4)))"

definition store16 :: "addr \<Rightarrow> u16 \<Rightarrow> mem \<Rightarrow> mem" where
  "store16 p v m = m(p := ucast v, p + 1 := ucast (drop_bit 8 v))"

definition store32 :: "addr \<Rightarrow> u32 \<Rightarrow> mem \<Rightarrow> mem" where
  "store32 p v m = store16 (p + 2) (ucast (drop_bit 16 v)) (store16 p (ucast v) m)"

lemma load16_store16: "load16 (store16 p v m) p = v"
proof (rule bit_eqI)
  fix i assume "possible_bit TYPE(u16) i"
  then show "bit (load16 (store16 p v m) p) i = bit v i"
    by (cases "i < 8") (auto simp: load16_def store16_def bit_simps)
qed

lemma load16_store16_other:
  assumes "p - q \<noteq> 0" "p + 1 - q \<noteq> 0" "p - q \<noteq> 1"
  shows "load16 (store16 q v m) p = load16 m p"
  using assms by (auto simp: load16_def store16_def algebra_simps)

lemma load32_store32: "load32 (store32 p v m) p = v"
proof (rule bit_eqI)
  fix i assume "possible_bit TYPE(u32) i"
  then have "i < 32" by simp
  have "load16 (store32 p v m) p = ucast v"
    unfolding store32_def by (subst load16_store16_other) (simp_all add: load16_store16)
  moreover have "load16 (store32 p v m) (p + 2) = ucast (drop_bit 16 v)"
    unfolding store32_def by (simp add: load16_store16)
  ultimately show "bit (load32 (store32 p v m) p) i = bit v i"
    using \<open>i < 32\<close> by (cases "i < 16") (auto simp: load32_def bit_simps)
qed

end
