(* ===== verification/Stdio.thy ===== *)
theory Stdio
  imports Bytes Locks
begin

unbundle bit_operations_syntax

text \<open>
  \<^verbatim>\<open>lib/stdio.c\<close>: formatted output into a buffer and to the serial line. The variable arguments are a list;
  fetching an argument of another type, which C leaves undefined, does not return. The bytes that reach
  the serial line are collected in a list. The local buffer of \<open>vsnprintf\<close> for the digits of a number is a list with the
  least significant digit first.
\<close>

datatype va_arg = Va_int u32 | Va_long u64 | Va_str addr

section \<open>Output\<close>

definition printf_out :: "u8 \<Rightarrow> u8 list" where
  "printf_out c = (if c = 10 then [13, c] else [c])"

partial_function (option) printf_write :: "addr \<Rightarrow> mem \<Rightarrow> (u32 \<times> u8 list) option" where
  "printf_write s m =
    (if m s = 0 then Some (0, [])
     else do {
       (ret, cs) \<leftarrow> printf_write (s + 1) m;
       Some (ret + 1, printf_out (m s) @ cs)
     })"

section \<open>Numbers\<close>

text \<open>The characters of \<open>convert\<close>, and the digit loops.\<close>

definition convert :: "nat \<Rightarrow> u8" where
  "convert d = (if d < 10 then of_nat (48 + d) else of_nat (55 + d))"

fun dec_digits :: "nat \<Rightarrow> u8 list" where
  "dec_digits i = convert (i mod 10) # (if i div 10 = 0 then [] else dec_digits (i div 10))"

fun hex_digits :: "nat \<Rightarrow> u8 list" where
  "hex_digits u = convert (u mod 16) # (if u div 16 = 0 then [] else hex_digits (u div 16))"

declare dec_digits.simps [simp del] hex_digits.simps [simp del]

definition long_digits :: "u64 \<Rightarrow> u8 list" where
  "long_digits l = map (\<lambda>j. convert (unat (drop_bit (4 * (15 - j)) l AND 0xF))) [0..<16]"

section \<open>vsnprintf\<close>

text \<open>
  \<open>put_chars\<close> is the loop that copies digits: it stops when the buffer is full, which the flag of the
  result reports.
\<close>

primrec put_chars :: "addr \<Rightarrow> u64 \<Rightarrow> u8 list \<Rightarrow> u32 \<Rightarrow> mem \<Rightarrow> bool \<times> u32 \<times> mem" where
  "put_chars str sz [] ret m = (False, ret, m)"
| "put_chars str sz (c # cs) ret m =
    (if scast ret \<ge> sz then (True, ret, m)
     else put_chars str sz cs (ret + 1) (m(str + scast ret := c)))"

partial_function (option) put_str :: "addr \<Rightarrow> u64 \<Rightarrow> addr \<Rightarrow> u32 \<Rightarrow> mem \<Rightarrow> (bool \<times> u32 \<times> mem) option" where
  "put_str str sz s ret m =
    (if m s = 0 then Some (False, ret, m)
     else if scast ret \<ge> sz then Some (True, ret, m)
     else put_str str sz (s + 1) (ret + 1) (m(str + scast ret := m s)))"

text \<open>
  One conversion, after the percent sign: whether the loop is left, the arguments that remain, the
  bytes for the serial line, the count and the memory. Negating the least integer overflows, which C leaves
  undefined.
\<close>

definition printf_conv :: "addr \<Rightarrow> u64 \<Rightarrow> u8 \<Rightarrow> va_arg list \<Rightarrow> u32 \<Rightarrow> mem \<Rightarrow> (bool \<times> va_arg list \<times> u8 list \<times> u32 \<times> mem) option" where
  "printf_conv str sz c args ret m =
    (if c = 0 then Some (True, args, [], ret + 1, m(str + scast ret := 0))
     else if c = 100 then
       (case args of Va_int i # args' \<Rightarrow>
          (if i = 0x80000000 then None
           else let (neg, v) = (if i <s 0 then (True, - i) else (False, i));
                    (ret, m) = (if neg then (ret + 1, m(str + scast ret := 45)) else (ret, m));
                    (full, ret, m) = put_chars str sz (rev (dec_digits (unat v))) ret m
                in Some (full, args', [], ret, m))
        | _ \<Rightarrow> None)
     else if c = 115 then
       (case args of Va_str p # args' \<Rightarrow> do {
            (full, ret, m) \<leftarrow> put_str str sz p ret m;
            Some (full, args', [], ret, m)
          }
        | _ \<Rightarrow> None)
     else if c = 99 then
       (case args of Va_int i # args' \<Rightarrow>
            Some (False, args', [], ret + 1, m(str + scast (ret + 1) := ucast i))
        | _ \<Rightarrow> None)
     else if c = 120 then
       (case args of Va_int u # args' \<Rightarrow>
            (let (full, ret, m) = put_chars str sz (rev (hex_digits (unat u))) ret m
             in Some (full, args', [], ret, m))
        | _ \<Rightarrow> None)
     else if c = 98 then
       (case args of Va_int u # args' \<Rightarrow>
            Some (False, args', [], ret + 2,
              m(str := convert (unat (drop_bit 4 u AND 0xF)), str + 1 := convert (unat (u AND 0xF))))
        | _ \<Rightarrow> None)
     else if c = 88 then
       (case args of Va_long l # args' \<Rightarrow>
            (let (full, ret, m) = put_chars str sz (long_digits l) ret m
             in Some (full, args', [], ret, m))
        | _ \<Rightarrow> None)
     else Some (False, args, printf_out c, ret + 1, m))"

partial_function (option) vsnprintf_loop :: "addr \<Rightarrow> addr \<Rightarrow> u64 \<Rightarrow> va_arg list \<Rightarrow> u32 \<Rightarrow> mem \<Rightarrow> (u32 \<times> u8 list \<times> mem) option" where
  "vsnprintf_loop str fmt sz args ret m =
    (let c = m fmt in
     if \<not> (c \<noteq> 0 \<and> scast ret < sz) then Some (ret, [], m)
     else if c = 37 then do {
       (stop, args, cs, ret, m) \<leftarrow> printf_conv str sz (m (fmt + 1)) args ret m;
       if stop then Some (ret, cs, m)
       else do {
         (ret, cs', m) \<leftarrow> vsnprintf_loop str (fmt + 2) sz args ret m;
         Some (ret, cs @ cs', m)
       }
     }
     else vsnprintf_loop str (fmt + 1) sz args (ret + 1) (m(str + scast ret := c)))"

definition vsnprintf :: "addr \<Rightarrow> addr \<Rightarrow> u64 \<Rightarrow> va_arg list \<Rightarrow> mem \<Rightarrow> (u32 \<times> u8 list \<times> mem) option" where
  "vsnprintf str fmt sz args m = vsnprintf_loop str fmt sz args 0 m"

definition snprintf :: "addr \<Rightarrow> addr \<Rightarrow> u64 \<Rightarrow> va_arg list \<Rightarrow> mem \<Rightarrow> (u32 \<times> u8 list \<times> mem) option" where
  "snprintf str fmt sz args m = vsnprintf str fmt sz args m"

text \<open>
  \<open>kprintf\<close> with its buffer on the kernel stack at \<open>buf\<close>. The lock is given back at the end, so only its
  being free matters.
\<close>

definition kprintf :: "addr \<Rightarrow> u32 \<Rightarrow> addr \<Rightarrow> va_arg list \<Rightarrow> mem \<Rightarrow> (u32 \<times> u8 list \<times> mem) option" where
  "kprintf buf printf_lock fmt args m = do {
     l \<leftarrow> spinlock_acquire printf_lock;
     let m = put_bytes m buf (replicate 2048 0);
     (ret, out, m) \<leftarrow> vsnprintf buf fmt 1024 args m;
     (w, cs) \<leftarrow> printf_write buf m;
     Some (ret, out @ cs, m)
   }"

end
