(* ===== verification/Block.thy ===== *)
theory Block
  imports Paging Stdio
begin

unbundle bit_operations_syntax

text \<open>
  \<^verbatim>\<open>dev/block.c\<close> and \<^verbatim>\<open>fs/gpt.c\<close>: the table of block devices and the partitions of a device.
  A block device carries the functions of its driver; they are the argument \<open>io\<close> of the operations here, and every
  device has the same driver (\<^verbatim>\<open>dev/ahci.c\<close> is the only one). The strings are in the byte memory, as are the
  structures of the partition table; the array of devices is a list whose length is \<open>block_devices_count\<close>.
\<close>

definition MAX_BLOCK_DEVICES :: nat where "MAX_BLOCK_DEVICES = 24"

record block_device =
  bd_name :: addr
  bd_data :: addr
  bd_size :: u64
  bd_block_count :: u64
  bd_block_size :: u64
  bd_lba_start :: u64
  bd_partition_count :: u64
  bd_fs :: addr
  bd_parent :: addr
  bd_next_part :: addr

record dev_state = page_state +
  bdevs :: "addr \<Rightarrow> block_device"
  block_devices :: "addr list"

type_synonym 's transfer = "addr \<Rightarrow> addr \<Rightarrow> u64 \<Rightarrow> u64 \<Rightarrow> 's \<Rightarrow> (int \<times> 's) option"

record 's block_device_ops =
  op_read :: "'s transfer"
  op_write :: "'s transfer"

definition upd_bdev :: "addr \<Rightarrow> (block_device \<Rightarrow> block_device) \<Rightarrow> 'a dev_state_scheme \<Rightarrow> 'a dev_state_scheme" where
  "upd_bdev p f s = s\<lparr>bdevs := (bdevs s)(p := f (bdevs s p))\<rparr>"

text \<open>\<open>sizeof(struct block_device)\<close> is 96. Registering a device when the array is full overwrites other data.\<close>

definition block_register :: "addr \<Rightarrow> addr \<Rightarrow> u64 \<Rightarrow> u64 \<Rightarrow> 'a dev_state_scheme \<Rightarrow> (addr \<times> 'a dev_state_scheme) option" where
  "block_register name data block_count block_size s = do {
     (bdev, s) \<leftarrow> kmalloc kmap 96 ALLOC_KERN s;
     if bdev = NULL then Some (NULL, s)
     else do {
       let s = upd_bdev bdev (\<lambda>b. b\<lparr>bd_name := name, bd_data := data, bd_block_count := block_count,
         bd_block_size := block_size, bd_lba_start := 0, bd_fs := NULL\<rparr>) s;
       assert_opt (length (block_devices s) < MAX_BLOCK_DEVICES);
       Some (bdev, s\<lparr>block_devices := block_devices s @ [bdev]\<rparr>)
     }
   }"

definition block_get_all_devices :: "'a dev_state_scheme \<Rightarrow> addr list" where
  "block_get_all_devices s = block_devices s"

primrec block_get_device_loop :: "addr list \<Rightarrow> addr \<Rightarrow> 'a dev_state_scheme \<Rightarrow> addr option" where
  "block_get_device_loop [] name s = Some NULL"
| "block_get_device_loop (b # bs) name s = do {
     r \<leftarrow> strcmp (bd_name (bdevs s b)) name (ram s);
     if r = 0 then Some b else block_get_device_loop bs name s
   }"

definition block_get_device :: "addr \<Rightarrow> 'a dev_state_scheme \<Rightarrow> addr option" where
  "block_get_device name s = block_get_device_loop (block_devices s) name s"

definition block_read :: "'a dev_state_scheme block_device_ops \<Rightarrow> 'a dev_state_scheme transfer" where
  "block_read io bdev buf offset sz s =
    (if bdev = NULL then None else op_read io bdev buf (offset + bd_lba_start (bdevs s bdev)) sz s)"

definition block_write :: "'a dev_state_scheme block_device_ops \<Rightarrow> 'a dev_state_scheme transfer" where
  "block_write io bdev buf offset sz s =
    (if bdev = NULL then None else op_write io bdev buf (offset + bd_lba_start (bdevs s bdev)) sz s)"

section \<open>Partitions\<close>

definition GPT_HEADER_SIGNATURE :: u64 where "GPT_HEADER_SIGNATURE = 0x5452415020494645"

text \<open>\<open>struct gpt_header\<close> and \<open>struct gpt_entry\<close> (128 bytes), as fields of a packed structure in memory.\<close>

record gpt_header =
  gh_signature :: u64
  gh_lba_table :: u64
  gh_entry_count :: u32
  gh_entry_size :: u32

definition read_gpt_header :: "mem \<Rightarrow> addr \<Rightarrow> gpt_header" where
  "read_gpt_header m p = \<lparr>gh_signature = load64 m p, gh_lba_table = load64 m (p + 72),
     gh_entry_count = load32 m (p + 80), gh_entry_size = load32 m (p + 84)\<rparr>"

record gpt_entry =
  ge_type_guid1 :: u64
  ge_lba_first :: u64
  ge_lba_last :: u64

definition read_gpt_entry :: "mem \<Rightarrow> addr \<Rightarrow> gpt_entry" where
  "read_gpt_entry m p = \<lparr>ge_type_guid1 = load64 m (p + 8), ge_lba_first = load64 m (p + 32),
     ge_lba_last = load64 m (p + 40)\<rparr>"

text \<open>
  The loop over the entries: \<open>cur\<close> is the device whose \<open>next_part\<close> the variable \<open>list\<close> points to,
  \<open>fmt\<close> the address of the format string \<^verbatim>\<open>%sp%d\<close>.
\<close>

primrec gpt_loop :: "nat \<Rightarrow> addr \<Rightarrow> addr \<Rightarrow> addr \<Rightarrow> addr \<Rightarrow> u64 \<Rightarrow> 'a dev_state_scheme \<Rightarrow> (u64 \<times> 'a dev_state_scheme) option" where
  "gpt_loop 0 fmt dev e cur used_count s = Some (used_count, s)"
| "gpt_loop (Suc k) fmt dev e cur used_count s = do {
     let en = read_gpt_entry (ram s) e;
     if ge_type_guid1 en = 0 then gpt_loop k fmt dev (e + 128) cur used_count s
     else do {
       let used_count = used_count + 1;
       if ge_lba_first en = 0 \<or> ge_lba_first en \<ge> bd_block_count (bdevs s dev)
       then gpt_loop k fmt dev (e + 128) cur used_count s
       else do {
         (buf, s) \<leftarrow> kzalloc kmap 64 ALLOC_KERN s;
         assert_opt (buf \<noteq> NULL);
         (n, out, m) \<leftarrow> snprintf buf fmt 63 [Va_str (bd_name (bdevs s dev)), Va_int (ucast (used_count - 1))] (ram s);
         let s = s\<lparr>ram := m\<rparr>;
         (bdev, s) \<leftarrow> block_register buf (bd_data (bdevs s dev)) (bd_block_count (bdevs s dev)) (bd_block_size (bdevs s dev)) s;
         if bdev = NULL then do {
           s \<leftarrow> kfree kmap buf s;
           gpt_loop k fmt dev (e + 128) cur used_count s
         }
         else do {
           let en = read_gpt_entry (ram s) e;
           let s = upd_bdev bdev (\<lambda>b. b\<lparr>bd_lba_start := ge_lba_first en,
             bd_block_count := ge_lba_last en - ge_lba_first en + 1, bd_parent := dev\<rparr>) s;
           let s = upd_bdev cur (bd_next_part_update (\<lambda>_. bdev)) s;
           gpt_loop k fmt dev (e + 128) bdev used_count s
         }
       }
     }
   }"

definition block_gpt_init :: "'a dev_state_scheme block_device_ops \<Rightarrow> addr \<Rightarrow> addr \<Rightarrow> 'a dev_state_scheme \<Rightarrow> 'a dev_state_scheme option" where
  "block_gpt_init io fmt dev s = do {
     let block_size = bd_block_size (bdevs s dev);
     (header, s) \<leftarrow> kmalloc kmap block_size ALLOC_DMA s;
     if header = NULL then Some s
     else do {
       (entries, s) \<leftarrow> kmalloc kmap block_size ALLOC_DMA s;
       if entries = NULL then kfree kmap header s
       else do {
         (r, s) \<leftarrow> block_read io dev header 1 1 s;
         s \<leftarrow> (if r \<noteq> 0 then Some s
           else do {
             let h = read_gpt_header (ram s) header;
             if gh_signature h \<noteq> GPT_HEADER_SIGNATURE \<or> gh_entry_size h \<noteq> 128 then Some s
             else do {
               (r, s) \<leftarrow> block_read io dev entries (gh_lba_table h) 1 s;
               if r \<noteq> 0 then Some s
               else do {
                 (used, s) \<leftarrow> gpt_loop (unat (gh_entry_count (read_gpt_header (ram s) header))) fmt dev entries dev 0 s;
                 Some (upd_bdev dev (bd_partition_count_update (\<lambda>_. used)) s)
               }
             }
           });
         s \<leftarrow> kfree kmap entries s;
         kfree kmap header s
       }
     }
   }"

end
