(* ===== verification/Ringbuf.thy ===== *)
theory Ringbuf
  imports Kernel_Prelude
begin

text \<open>
  \<^verbatim>\<open>lib/ringbuf.c\<close>: the byte ring buffer behind FIFOs and the serial line. The storage is the
  byte memory at \<open>buf\<close>; the copy loops are the C loops, one recursion step per iteration of
  \<open>while (count--)\<close>, with the divide fault of \<open>% 0\<close> as \<open>None\<close>.

  The contract is the locale \<open>bounded_fifo\<close>: a queue of bounded capacity with a put that fails
  when full and a get that fails when empty. Filling and draining any such queue is analysed
  once, in the locale; the ring buffer is an interpretation.
\<close>

section \<open>Bounded first-in first-out queues\<close>

primrec fill :: "('a \<Rightarrow> 'q \<Rightarrow> 'q option) \<Rightarrow> 'a list \<Rightarrow> 'q \<Rightarrow> nat \<times> 'q" where
  "fill put [] q = (0, q)"
| "fill put (x # xs) q =
     (case put x q of None \<Rightarrow> (0, q) | Some q' \<Rightarrow> apfst Suc (fill put xs q'))"

primrec drain :: "('q \<Rightarrow> ('a \<times> 'q) option) \<Rightarrow> nat \<Rightarrow> 'q \<Rightarrow> 'a list \<times> 'q" where
  "drain get 0 q = ([], q)"
| "drain get (Suc n) q =
     (case get q of None \<Rightarrow> ([], q) | Some (x, q') \<Rightarrow> apfst (Cons x) (drain get n q'))"

locale bounded_fifo =
  fixes inv :: "'q \<Rightarrow> bool"
    and contents :: "'q \<Rightarrow> 'a list"
    and cap :: "'q \<Rightarrow> nat"
    and put :: "'a \<Rightarrow> 'q \<Rightarrow> 'q option"
    and get :: "'q \<Rightarrow> ('a \<times> 'q) option"
  assumes len_cap: "inv q \<Longrightarrow> length (contents q) \<le> cap q"
    and put_full: "inv q \<Longrightarrow> length (contents q) = cap q \<Longrightarrow> put x q = None"
    and put_room: "inv q \<Longrightarrow> length (contents q) < cap q \<Longrightarrow>
          \<exists>q'. put x q = Some q' \<and> inv q' \<and> contents q' = contents q @ [x] \<and> cap q' = cap q"
    and get_empty: "inv q \<Longrightarrow> contents q = [] \<Longrightarrow> get q = None"
    and get_some: "inv q \<Longrightarrow> contents q = x # xs \<Longrightarrow>
          \<exists>q'. get q = Some (x, q') \<and> inv q' \<and> contents q' = xs \<and> cap q' = cap q"
begin

lemma fill_spec:
  "inv q \<Longrightarrow> fill put xs q = (n, q') \<Longrightarrow>
     n = min (length xs) (cap q - length (contents q)) \<and> inv q' \<and> cap q' = cap q
     \<and> contents q' = contents q @ take n xs"
proof (induction xs arbitrary: q n q')
  case Nil
  then show ?case by simp
next
  case (Cons x xs)
  show ?case
  proof (cases "length (contents q) < cap q")
    case True
    then obtain q1 where q1: "put x q = Some q1" "inv q1" "contents q1 = contents q @ [x]"
      "cap q1 = cap q"
      using put_room Cons.prems(1) by blast
    obtain n1 where n1: "fill put xs q1 = (n1, q')" "n = Suc n1"
      using Cons.prems(2) q1(1) by (auto simp: apfst_def map_prod_def split: prod.splits)
    show ?thesis using Cons.IH [OF q1(2) n1(1)] q1 n1(2) True by auto
  next
    case False
    then have "length (contents q) = cap q" using len_cap Cons.prems(1) by force
    with Cons.prems put_full show ?thesis by simp
  qed
qed

lemma drain_spec:
  "inv q \<Longrightarrow> drain get n q = (ys, q') \<Longrightarrow>
     ys = take n (contents q) \<and> inv q' \<and> cap q' = cap q \<and> contents q' = drop n (contents q)"
proof (induction n arbitrary: q ys q')
  case 0
  then show ?case by simp
next
  case (Suc n)
  show ?case
  proof (cases "contents q")
    case Nil
    with Suc.prems get_empty show ?thesis by simp
  next
    case (Cons x xs)
    then obtain q1 where q1: "get q = Some (x, q1)" "inv q1" "contents q1 = xs" "cap q1 = cap q"
      using get_some Suc.prems(1) by blast
    obtain zs where zs: "drain get n q1 = (zs, q')" "ys = x # zs"
      using Suc.prems(2) q1(1) by (auto simp: apfst_def map_prod_def split: prod.splits)
    show ?thesis using Suc.IH [OF q1(2) zs(1)] q1 zs(2) Cons by simp
  qed
qed

end

section \<open>The ring buffer\<close>

record ringbuf =
  rb_buf :: addr
  rb_size :: u64
  rb_head :: u64
  rb_tail :: u64

definition ringbuf_put :: "u8 \<Rightarrow> ringbuf \<times> mem \<Rightarrow> (ringbuf \<times> mem) option" where
  "ringbuf_put c = (\<lambda>(rb, m).
     if (rb_head rb + 1) mod rb_size rb = rb_tail rb then None
     else Some (rb\<lparr>rb_head := (rb_head rb + 1) mod rb_size rb\<rparr>, m(rb_buf rb + rb_head rb := c)))"

definition ringbuf_get :: "ringbuf \<times> mem \<Rightarrow> (u8 \<times> ringbuf \<times> mem) option" where
  "ringbuf_get = (\<lambda>(rb, m).
     if rb_head rb = rb_tail rb then None
     else Some (m (rb_buf rb + rb_tail rb), rb\<lparr>rb_tail := (rb_tail rb + 1) mod rb_size rb\<rparr>, m))"

primrec ringbuf_write_loop ::
  "nat \<Rightarrow> ringbuf \<Rightarrow> addr \<Rightarrow> u64 \<Rightarrow> mem \<Rightarrow> (u64 \<times> ringbuf \<times> mem) option" where
  "ringbuf_write_loop 0 rb src written m = Some (written, rb, m)"
| "ringbuf_write_loop (Suc count) rb src written m =
     (if rb_size rb = 0 then None
      else if (rb_head rb + 1) mod rb_size rb = rb_tail rb then Some (written, rb, m)
      else ringbuf_write_loop count (rb\<lparr>rb_head := (rb_head rb + 1) mod rb_size rb\<rparr>) (src + 1)
             (written + 1) (m(rb_buf rb + rb_head rb := m src)))"

definition ringbuf_write :: "ringbuf \<Rightarrow> addr \<Rightarrow> u64 \<Rightarrow> mem \<Rightarrow> (u64 \<times> ringbuf \<times> mem) option" where
  "ringbuf_write rb src count m = ringbuf_write_loop (unat count) rb src 0 m"

primrec ringbuf_read_loop ::
  "nat \<Rightarrow> ringbuf \<Rightarrow> addr \<Rightarrow> u64 \<Rightarrow> mem \<Rightarrow> (u64 \<times> ringbuf \<times> mem) option" where
  "ringbuf_read_loop 0 rb dst n m = Some (n, rb, m)"
| "ringbuf_read_loop (Suc count) rb dst n m =
     (if rb_head rb = rb_tail rb then Some (n, rb, m)
      else if rb_size rb = 0 then None
      else ringbuf_read_loop count (rb\<lparr>rb_tail := (rb_tail rb + 1) mod rb_size rb\<rparr>) (dst + 1)
             (n + 1) (m(dst := m (rb_buf rb + rb_tail rb))))"

definition ringbuf_read :: "ringbuf \<Rightarrow> addr \<Rightarrow> u64 \<Rightarrow> mem \<Rightarrow> (u64 \<times> ringbuf \<times> mem) option" where
  "ringbuf_read rb dst count m = ringbuf_read_loop (unat count) rb dst 0 m"

section \<open>Abstraction to a list of bytes\<close>

definition ring_len :: "ringbuf \<Rightarrow> nat" where
  "ring_len rb = (if unat (rb_tail rb) \<le> unat (rb_head rb) then unat (rb_head rb) - unat (rb_tail rb)
                  else unat (rb_head rb) + unat (rb_size rb) - unat (rb_tail rb))"

definition ring_slot :: "ringbuf \<Rightarrow> nat \<Rightarrow> nat" where
  "ring_slot rb i = (if unat (rb_tail rb) + i < unat (rb_size rb) then unat (rb_tail rb) + i
                     else unat (rb_tail rb) + i - unat (rb_size rb))"

definition ring_contents :: "ringbuf \<times> mem \<Rightarrow> u8 list" where
  "ring_contents = (\<lambda>(rb, m). map (\<lambda>i. m (rb_buf rb + of_nat (ring_slot rb i))) [0..<ring_len rb])"

definition ring_wf :: "ringbuf \<Rightarrow> bool" where
  "ring_wf rb \<longleftrightarrow> rb_head rb < rb_size rb \<and> rb_tail rb < rb_size rb"

definition ring_cap :: "ringbuf \<Rightarrow> nat" where
  "ring_cap rb = unat (rb_size rb) - 1"

lemma next_index: "i < n \<Longrightarrow> unat ((i + 1) mod n :: u64) = (if unat i + 1 < unat n then unat i + 1 else 0)"
proof -
  assume lt: "i < n"
  then have "unat i + 1 \<le> unat n" by (simp add: word_less_nat_alt Suc_leI)
  moreover have "unat n < 2 ^ 64" using unsigned_less [of n, where ?'a = nat] by simp
  ultimately have "unat (i + 1) = unat i + 1"
    by (subst unat_plus_if') auto
  then show ?thesis using \<open>unat i + 1 \<le> unat n\<close> by (simp add: unat_mod)
qed

lemma ring_len_le: "ring_wf rb \<Longrightarrow> ring_len rb \<le> ring_cap rb"
  by (auto simp: ring_wf_def ring_len_def ring_cap_def word_less_nat_alt)

lemma ring_full_iff:
  "ring_wf rb \<Longrightarrow> ((rb_head rb + 1) mod rb_size rb = rb_tail rb) = (ring_len rb = ring_cap rb)"
proof -
  assume wf: "ring_wf rb"
  have "((rb_head rb + 1) mod rb_size rb = rb_tail rb) = (unat ((rb_head rb + 1) mod rb_size rb) = unat (rb_tail rb))"
    by (metis unsigned_word_eqI)
  then show ?thesis using wf
    by (auto simp: next_index ring_wf_def ring_len_def ring_cap_def word_less_nat_alt split: if_splits)
qed

lemma ring_slot_inj:
  "ring_wf rb \<Longrightarrow> i < ring_len rb \<Longrightarrow> unat (rb_head rb) \<noteq> ring_slot rb i"
  by (auto simp: ring_wf_def ring_len_def ring_slot_def word_less_nat_alt split: if_splits)

lemma ring_slot_lt: "ring_wf rb \<Longrightarrow> i < ring_len rb \<Longrightarrow> ring_slot rb i < unat (rb_size rb)"
  by (auto simp: ring_wf_def ring_len_def ring_slot_def word_less_nat_alt split: if_splits)

lemma slot_addr_inj:
  "i < unat (n :: u64) \<Longrightarrow> j < unat n \<Longrightarrow> (of_nat i = (of_nat j :: u64)) = (i = j)"
proof -
  assume "i < unat n" "j < unat n"
  moreover have "unat n < 2 ^ 64" using unsigned_less [of n, where ?'a = nat] by simp
  ultimately have "unat (of_nat i :: u64) = i" "unat (of_nat j :: u64) = j"
    by (auto simp: unat_of_nat)
  then show ?thesis by metis
qed

lemma ring_put_contents:
  assumes "ring_wf rb" and "ring_len rb < ring_cap rb"
  defines "rb' \<equiv> rb\<lparr>rb_head := (rb_head rb + 1) mod rb_size rb\<rparr>"
  shows "ring_wf rb' \<and> ring_contents (rb', m(rb_buf rb + rb_head rb := c)) = ring_contents (rb, m) @ [c]"
proof -
  have ne: "(rb_head rb + 1) mod rb_size rb \<noteq> rb_tail rb"
    using assms(1,2) ring_full_iff by fastforce
  then have ne': "unat ((rb_head rb + 1) mod rb_size rb) \<noteq> unat (rb_tail rb)"
    by (metis unsigned_word_eqI)
  have lt: "rb_head rb < rb_size rb" "rb_tail rb < rb_size rb"
    using assms(1) by (auto simp: ring_wf_def)
  note nat_lt = lt [unfolded word_less_nat_alt]
  have len: "ring_len rb' = Suc (ring_len rb)"
    using ne' nat_lt unfolding rb'_def ring_len_def
    by (auto simp: next_index [OF lt(1)] split: if_splits)
  have slot: "ring_slot rb' i = ring_slot rb i" for i by (simp add: rb'_def ring_slot_def)
  have last: "ring_slot rb (ring_len rb) = unat (rb_head rb)"
    using nat_lt by (auto simp: ring_slot_def ring_len_def)
  have other: "of_nat (ring_slot rb i) \<noteq> rb_head rb" if "i < ring_len rb" for i
    using slot_addr_inj [OF ring_slot_lt [OF assms(1) that], of "unat (rb_head rb)"]
      ring_slot_inj [OF assms(1) that] nat_lt by auto
  have "ring_wf rb'"
    using lt nat_lt by (auto simp: rb'_def ring_wf_def next_index word_less_nat_alt)
  moreover have "ring_contents (rb', m(rb_buf rb + rb_head rb := c)) = ring_contents (rb, m) @ [c]"
    using other by (simp add: ring_contents_def len slot last) (auto simp: rb'_def)
  ultimately show ?thesis ..
qed

lemma ring_get_contents:
  assumes "ring_wf rb" and "rb_head rb \<noteq> rb_tail rb"
  defines "rb' \<equiv> rb\<lparr>rb_tail := (rb_tail rb + 1) mod rb_size rb\<rparr>"
  shows "ring_wf rb' \<and> ring_contents (rb, m) = m (rb_buf rb + rb_tail rb) # ring_contents (rb', m)"
proof -
  have ne: "unat (rb_head rb) \<noteq> unat (rb_tail rb)" using assms(2) by (metis unsigned_word_eqI)
  have lt: "rb_head rb < rb_size rb" "rb_tail rb < rb_size rb"
    using assms(1) by (auto simp: ring_wf_def)
  note nat_lt = lt [unfolded word_less_nat_alt]
  have len: "ring_len rb = Suc (ring_len rb')"
    using ne nat_lt unfolding rb'_def ring_len_def
    by (auto simp: next_index [OF lt(2)] split: if_splits)
  have slot: "ring_slot rb (Suc i) = ring_slot rb' i" if "i < ring_len rb'" for i
    using that nat_lt unfolding rb'_def ring_slot_def ring_len_def
    by (auto simp: next_index [OF lt(2)] split: if_splits)
  have first: "ring_slot rb 0 = unat (rb_tail rb)" using nat_lt by (simp add: ring_slot_def)
  have "ring_wf rb'"
    using lt nat_lt by (auto simp: rb'_def ring_wf_def next_index word_less_nat_alt)
  moreover have "[0..<ring_len rb] = 0 # map Suc [0..<ring_len rb']"
    by (simp add: len map_Suc_upt upt_conv_Cons del: upt_Suc)
  then have "ring_contents (rb, m) = m (rb_buf rb + rb_tail rb) # ring_contents (rb', m)"
    using slot by (simp add: ring_contents_def first) (simp add: rb'_def)
  ultimately show ?thesis ..
qed

lemma ring_empty_iff: "ring_wf rb \<Longrightarrow> (ring_contents (rb, m) = []) = (rb_head rb = rb_tail rb)"
proof
  assume wf: "ring_wf rb" and "ring_contents (rb, m) = []"
  then show "rb_head rb = rb_tail rb" using ring_get_contents [OF wf] by fastforce
next
  assume "rb_head rb = rb_tail rb"
  then show "ring_contents (rb, m) = []" by (simp add: ring_contents_def ring_len_def)
qed

lemma length_ring_contents [simp]: "length (ring_contents (rb, m)) = ring_len rb"
  by (simp add: ring_contents_def)

interpretation ring: bounded_fifo
  "\<lambda>(rb, m). ring_wf rb" ring_contents "\<lambda>(rb, m). ring_cap rb" ringbuf_put ringbuf_get
proof (unfold_locales, goal_cases)
  case (1 q)
  then show ?case by (auto simp: ring_len_le)
next
  case (2 q x)
  then show ?case by (auto simp: ringbuf_put_def ring_full_iff)
next
  case (3 q x)
  obtain rb m where q: "q = (rb, m)" by (cases q)
  with 3 have wf: "ring_wf rb" and room: "ring_len rb < ring_cap rb" by auto
  from ring_put_contents [OF wf room, of m x] ring_full_iff [OF wf] room q show ?case
    by (simp add: ringbuf_put_def) (simp add: ring_cap_def)
next
  case (4 q)
  then show ?case by (auto simp: ringbuf_get_def ring_empty_iff)
next
  case (5 q x xs)
  obtain rb m where q: "q = (rb, m)" by (cases q)
  with 5 have wf: "ring_wf rb" and ne: "rb_head rb \<noteq> rb_tail rb"
    using ring_empty_iff [of rb m] by auto
  from ring_get_contents [OF wf ne, of m] 5(2) q ne show ?case
    by (simp add: ringbuf_get_def) (simp add: ring_cap_def)
qed

section \<open>The copy loops\<close>

lemma ring_head_addr: "ring_wf rb \<Longrightarrow> \<exists>j < unat (rb_size rb). rb_buf rb + rb_head rb = rb_buf rb + of_nat j"
  by (rule exI [of _ "unat (rb_head rb)"]) (simp add: ring_wf_def word_less_nat_alt)

lemma ring_tail_addr: "ring_wf rb \<Longrightarrow> \<exists>j < unat (rb_size rb). rb_buf rb + rb_tail rb = rb_buf rb + of_nat j"
  by (rule exI [of _ "unat (rb_tail rb)"]) (simp add: ring_wf_def word_less_nat_alt)

lemma ring_wf_size: "ring_wf rb \<Longrightarrow> rb_size rb \<noteq> 0"
  by (auto simp: ring_wf_def)

lemma ringbuf_write_loop_fill:
  "ring_wf rb \<Longrightarrow> apart src count (rb_buf rb) (unat (rb_size rb)) \<Longrightarrow>
   ringbuf_write_loop count rb src w m =
     (case fill ringbuf_put (bytes_at m src count) (rb, m) of
        (n, rb', m') \<Rightarrow> Some (w + of_nat n, rb', m'))"
proof (induction count arbitrary: rb src w m)
  case 0
  then show ?case by (simp add: bytes_at_def)
next
  case (Suc count)
  let ?rb = "rb\<lparr>rb_head := (rb_head rb + 1) mod rb_size rb\<rparr>"
  let ?m = "m(rb_buf rb + rb_head rb := m src)"
  show ?case
  proof (cases "(rb_head rb + 1) mod rb_size rb = rb_tail rb")
    case True
    with ring_wf_size [OF Suc.prems(1)] show ?thesis
      by (simp add: bytes_at_Suc ringbuf_put_def)
  next
    case False
    then have "ring_len rb < ring_cap rb"
      using ring_full_iff ring_len_le Suc.prems(1) le_neq_implies_less by blast
    then have wf: "ring_wf ?rb" using ring_put_contents Suc.prems(1) by blast
    have ap: "apart (src + 1) count (rb_buf ?rb) (unat (rb_size ?rb))"
      using apart_Suc [OF Suc.prems(2)] by simp
    have "bytes_at ?m (src + 1) count = bytes_at m (src + 1) count"
      using ap ring_head_addr [OF Suc.prems(1)] by (force simp: bytes_at_def apart_def)
    moreover have "ringbuf_put (m src) (rb, m) = Some (?rb, ?m)"
      using False by (simp add: ringbuf_put_def)
    moreover obtain n r where "fill ringbuf_put (bytes_at m (src + 1) count) (?rb, ?m) = (n, r)"
      by (cases "fill ringbuf_put (bytes_at m (src + 1) count) (?rb, ?m)") auto
    moreover have "ringbuf_write_loop count ?rb (src + 1) (w + 1) ?m =
        (case fill ringbuf_put (bytes_at ?m (src + 1) count) (?rb, ?m) of
           (n, rb', m') \<Rightarrow> Some (w + 1 + of_nat n, rb', m'))"
      by (rule Suc.IH [OF wf ap])
    ultimately show ?thesis
      using False ring_wf_size [OF Suc.prems(1)] by (simp add: bytes_at_Suc split_beta)
  qed
qed

lemma drain_ring_agree:
  "ring_wf rb \<Longrightarrow> (\<And>j. j < unat (rb_size rb) \<Longrightarrow> m (rb_buf rb + of_nat j) = m1 (rb_buf rb + of_nat j)) \<Longrightarrow>
   drain ringbuf_get n (rb, m1) =
     (case drain ringbuf_get n (rb, m) of (ys, rb', _) \<Rightarrow> (ys, rb', m1))"
proof (induction n arbitrary: rb)
  case 0
  then show ?case by simp
next
  case (Suc n)
  let ?rb = "rb\<lparr>rb_tail := (rb_tail rb + 1) mod rb_size rb\<rparr>"
  show ?case
  proof (cases "rb_head rb = rb_tail rb")
    case True
    then show ?thesis by (simp add: ringbuf_get_def)
  next
    case False
    then have wf: "ring_wf ?rb" using ring_get_contents Suc.prems(1) by blast
    have eq: "m (rb_buf rb + rb_tail rb) = m1 (rb_buf rb + rb_tail rb)"
      using ring_tail_addr [OF Suc.prems(1)] Suc.prems(2) by metis
    show ?thesis using False Suc.IH [OF wf] Suc.prems(2) eq
      by (simp add: ringbuf_get_def apfst_def map_prod_def split: prod.splits)
  qed
qed

lemma drain_ring_mem: "drain ringbuf_get n (rb, m) = (ys, rb', m') \<Longrightarrow> m' = m"
  by (induction n arbitrary: rb ys)
     (auto simp: ringbuf_get_def apfst_def map_prod_def split: prod.splits if_splits)

lemma ringbuf_read_loop_drain:
  "ring_wf rb \<Longrightarrow> apart dst count (rb_buf rb) (unat (rb_size rb)) \<Longrightarrow>
   ringbuf_read_loop count rb dst w m =
     (case drain ringbuf_get count (rb, m) of
        (ys, rb', _) \<Rightarrow> Some (w + of_nat (length ys), rb', put_bytes m dst ys))"
proof (induction count arbitrary: rb dst w m)
  case 0
  then show ?case by simp
next
  case (Suc count)
  let ?rb = "rb\<lparr>rb_tail := (rb_tail rb + 1) mod rb_size rb\<rparr>"
  let ?m = "m(dst := m (rb_buf rb + rb_tail rb))"
  show ?case
  proof (cases "rb_head rb = rb_tail rb")
    case True
    then show ?thesis by (simp add: ringbuf_get_def)
  next
    case False
    then have wf: "ring_wf ?rb" using ring_get_contents Suc.prems(1) by blast
    have ap: "apart (dst + 1) count (rb_buf ?rb) (unat (rb_size ?rb))"
      and ne: "\<forall>j < unat (rb_size rb). dst \<noteq> rb_buf rb + of_nat j"
      using apart_Suc [OF Suc.prems(2)] by auto
    have "drain ringbuf_get count (?rb, ?m) =
        (case drain ringbuf_get count (?rb, m) of (ys, rb', _) \<Rightarrow> (ys, rb', ?m))"
      using ne by (intro drain_ring_agree [OF wf]) auto
    moreover have "ringbuf_get (rb, m) = Some (m (rb_buf rb + rb_tail rb), ?rb, m)"
      using False by (simp add: ringbuf_get_def)
    moreover obtain ys r m1 where "drain ringbuf_get count (?rb, m) = (ys, r, m1)"
      by (metis prod_cases3)
    moreover have "ringbuf_read_loop count ?rb (dst + 1) (w + 1) ?m =
        (case drain ringbuf_get count (?rb, ?m) of
           (ys, rb', _) \<Rightarrow> Some (w + 1 + of_nat (length ys), rb', put_bytes ?m (dst + 1) ys))"
      by (rule Suc.IH [OF wf ap])
    ultimately show ?thesis
      using False ring_wf_size [OF Suc.prems(1)] by (simp add: add.assoc)
  qed
qed

text \<open>
  C15. \<open>ringbuf_write\<close> appends to the queue: from a well-formed ring whose storage does not overlap
  the source buffer it returns, it accepts exactly as many bytes as there is room for (the
  capacity is one less than the size), in order, and reports that number; the ring stays well
  formed.
\<close>

theorem ringbuf_write_appends:
  assumes "ring_wf rb" and "apart src (unat count) (rb_buf rb) (unat (rb_size rb))"
  shows "\<exists>n rb' m'. ringbuf_write rb src count m = Some (n, rb', m')
     \<and> unat n = min (unat count) (ring_cap rb - ring_len rb) \<and> ring_wf rb'
     \<and> ring_contents (rb', m') = ring_contents (rb, m) @ take (unat n) (bytes_at m src (unat count))"
proof -
  obtain n rb' m' where f: "fill ringbuf_put (bytes_at m src (unat count)) (rb, m) = (n, rb', m')"
    by (metis prod_cases3)
  have spec: "n = min (unat count) (ring_cap rb - ring_len rb) \<and> ring_wf rb'
     \<and> ring_contents (rb', m') = ring_contents (rb, m) @ take n (bytes_at m src (unat count))"
    using ring.fill_spec [OF _ f] assms(1) by simp
  then have "unat (of_nat n :: u64) = n"
    using unsigned_less [of count, where ?'a = nat] by (auto simp: unat_of_nat)
  then show ?thesis
    using ringbuf_write_loop_fill [OF assms, of 0 m] f spec by (simp add: ringbuf_write_def)
qed

theorem ringbuf_write_appends_witness:
  "ring_wf \<lparr>rb_buf = 100, rb_size = 4, rb_head = 3, rb_tail = 2\<rparr> \<and> apart 200 (unat (3 :: u64)) 100 4 \<and>
   (\<exists>n rb' m'. ringbuf_write \<lparr>rb_buf = 100, rb_size = 4, rb_head = 3, rb_tail = 2\<rparr> 200 3 (\<lambda>a. ucast a)
      = Some (n, rb', m') \<and> unat n = 2 \<and> ring_wf rb')"
proof -
  let ?rb = "\<lparr>rb_buf = 100, rb_size = 4, rb_head = 3, rb_tail = 2\<rparr>"
  have h: "ring_wf ?rb" "apart 200 (unat (3 :: u64)) (rb_buf ?rb) (unat (rb_size ?rb))"
    by (simp_all add: ring_wf_def apartI)
  have "min (unat (3 :: u64)) (ring_cap ?rb - ring_len ?rb) = 2"
    by (simp add: ring_cap_def ring_len_def)
  with ringbuf_write_appends [OF h, of "\<lambda>a. ucast a"] h show ?thesis by auto
qed

text \<open>
  C16. \<open>ringbuf_read\<close> removes from the front of the queue: it returns the number of bytes taken,
  stores exactly that prefix of the queue at the destination, and leaves the rest queued.
\<close>

theorem ringbuf_read_removes:
  assumes "ring_wf rb" and "apart dst (unat count) (rb_buf rb) (unat (rb_size rb))"
  shows "\<exists>n rb'. ringbuf_read rb dst count m =
       Some (n, rb', put_bytes m dst (take (unat count) (ring_contents (rb, m))))
     \<and> unat n = min (unat count) (ring_len rb) \<and> ring_wf rb'
     \<and> ring_contents (rb', m) = drop (unat count) (ring_contents (rb, m))"
proof -
  obtain ys rb' m' where d: "drain ringbuf_get (unat count) (rb, m) = (ys, rb', m')"
    by (metis prod_cases3)
  have m': "m' = m" using drain_ring_mem [OF d] .
  have spec: "ys = take (unat count) (ring_contents (rb, m)) \<and> ring_wf rb'
     \<and> ring_contents (rb', m) = drop (unat count) (ring_contents (rb, m))"
    using ring.drain_spec [OF _ d] assms(1) by (simp add: m')
  then have "unat (of_nat (length ys) :: u64) = length ys"
    using unsigned_less [of count, where ?'a = nat] by (auto simp: unat_of_nat)
  then show ?thesis
    using ringbuf_read_loop_drain [OF assms, of 0 m] d spec by (auto simp: ringbuf_read_def)
qed

theorem ringbuf_read_removes_witness:
  "ring_wf \<lparr>rb_buf = 100, rb_size = 4, rb_head = 1, rb_tail = 2\<rparr> \<and> apart 200 (unat (2 :: u64)) 100 4 \<and>
   (\<exists>n rb'. ringbuf_read \<lparr>rb_buf = 100, rb_size = 4, rb_head = 1, rb_tail = 2\<rparr> 200 2 (\<lambda>a. ucast a)
      = Some (n, rb', put_bytes (\<lambda>a. ucast a) 200 [102, 103]) \<and> unat n = 2)"
proof -
  let ?rb = "\<lparr>rb_buf = 100, rb_size = 4, rb_head = 1, rb_tail = 2\<rparr>"
  have h: "ring_wf ?rb" "apart 200 (unat (2 :: u64)) (rb_buf ?rb) (unat (rb_size ?rb))"
    by (simp_all add: ring_wf_def apartI)
  have "take (unat (2 :: u64)) (ring_contents (?rb, \<lambda>a. ucast a)) = [102, 103 :: u8]"
    by (simp add: ring_contents_def ring_len_def ring_slot_def upt_rec)
  moreover have "min (unat (2 :: u64)) (ring_len ?rb) = 2" by (simp add: ring_len_def)
  ultimately show ?thesis using ringbuf_read_removes [OF h, of "\<lambda>a. ucast a"] h by auto
qed

section \<open>Round trip\<close>

lemma ringbuf_write_loop_frame:
  "ringbuf_write_loop k rb src w m = Some (n, rb', m') \<Longrightarrow>
     rb_buf rb' = rb_buf rb \<and> rb_size rb' = rb_size rb"
proof (induction k arbitrary: rb src w m)
  case 0
  then show ?case by simp
next
  case (Suc k)
  then show ?case by (fastforce split: if_splits)
qed

text \<open>
  C11. What goes in comes out: writing at most capacity many bytes to an empty ring and reading the
  same number back stores the same bytes, in order, at the destination, and leaves the ring
  empty.
\<close>

theorem ringbuf_roundtrip:
  assumes "ring_wf rb" and "rb_head rb = rb_tail rb" and "unat count \<le> ring_cap rb"
    and "apart src (unat count) (rb_buf rb) (unat (rb_size rb))"
    and "apart dst (unat count) (rb_buf rb) (unat (rb_size rb))"
  shows "\<exists>rb1 m1 rb2. ringbuf_write rb src count m = Some (count, rb1, m1)
     \<and> ringbuf_read rb1 dst count m1 = Some (count, rb2, put_bytes m1 dst (bytes_at m src (unat count)))
     \<and> ring_contents (rb2, m1) = []"
proof -
  have len0: "ring_len rb = 0" by (simp add: ring_len_def assms(2))
  have c0: "ring_contents (rb, m) = []" using ring_empty_iff assms(1,2) by blast
  from ringbuf_write_appends [OF assms(1,4), of m] len0 c0 assms(3) obtain n rb1 m1 where
    w: "ringbuf_write rb src count m = Some (n, rb1, m1)" "unat n = unat count" "ring_wf rb1"
      "ring_contents (rb1, m1) = bytes_at m src (unat count)"
    by (auto simp: min_def)
  have n: "n = count" using w(2) by (metis unsigned_word_eqI)
  have "apart dst (unat count) (rb_buf rb1) (unat (rb_size rb1))"
    using ringbuf_write_loop_frame w(1) assms(5) unfolding ringbuf_write_def by metis
  from ringbuf_read_removes [OF w(3) this, of m1] w(4) obtain k rb2 where
    r: "ringbuf_read rb1 dst count m1 = Some (k, rb2, put_bytes m1 dst (bytes_at m src (unat count)))"
      "unat k = min (unat count) (ring_len rb1)" "ring_contents (rb2, m1) = []"
    by auto
  have "ring_len rb1 = unat count" using w(4) by (metis length_bytes_at length_ring_contents)
  then have "k = count" using r(2) by (metis min.idem unsigned_word_eqI)
  then show ?thesis using w(1) r n by blast
qed

theorem ringbuf_roundtrip_witness:
  "ring_wf \<lparr>rb_buf = 100, rb_size = 4, rb_head = 3, rb_tail = 3\<rparr> \<and>
   (\<exists>rb1 m1 rb2. ringbuf_write \<lparr>rb_buf = 100, rb_size = 4, rb_head = 3, rb_tail = 3\<rparr> 200 2 (\<lambda>a. ucast a)
       = Some (2, rb1, m1)
     \<and> ringbuf_read rb1 300 2 m1 = Some (2, rb2, put_bytes m1 300 (bytes_at (\<lambda>a. ucast a) 200 (unat (2 :: u64)))))"
proof -
  let ?rb = "\<lparr>rb_buf = 100, rb_size = 4, rb_head = 3, rb_tail = 3\<rparr>"
  have h: "ring_wf ?rb" "rb_head ?rb = rb_tail ?rb" "unat (2 :: u64) \<le> ring_cap ?rb"
    by (simp_all add: ring_wf_def ring_cap_def)
  have a: "apart 200 (unat (2 :: u64)) (rb_buf ?rb) (unat (rb_size ?rb))"
    "apart 300 (unat (2 :: u64)) (rb_buf ?rb) (unat (rb_size ?rb))" by (simp_all add: apartI)
  show ?thesis using ringbuf_roundtrip [OF h a, of "\<lambda>a. ucast a"] h(1) by blast
qed

end
