(* ===== verification/Vfs_Node.thy ===== *)
theory Vfs_Node
  imports Block Ringbuf
begin

unbundle bit_operations_syntax

text \<open>
  The structures of the virtual file system (\<^verbatim>\<open>include/fs/vfs.h\<close>) and the functions of \<^verbatim>\<open>fs/vfs.c\<close> that the file
  systems themselves call. Vnodes, open files, file systems and their operation tables are typed stores; a
  directory's array of entries is in the byte memory, since \<open>krealloc\<close> moves it as bytes. An entry of an operation table names
  the file system whose function it holds.
\<close>

abbreviation (input) VFS_VNO_FIFO :: u32 where "VFS_VNO_FIFO \<equiv> 0x1000"
abbreviation (input) VFS_VNO_CHARDEV :: u32 where "VFS_VNO_CHARDEV \<equiv> 0x2000"
abbreviation (input) VFS_VNO_DIR :: u32 where "VFS_VNO_DIR \<equiv> 0x4000"
abbreviation (input) VFS_VNO_BLKDEV :: u32 where "VFS_VNO_BLKDEV \<equiv> 0x6000"
abbreviation (input) VFS_VNO_REG :: u32 where "VFS_VNO_REG \<equiv> 0x8000"
abbreviation (input) VFS_VTYPE_MASK :: u32 where "VFS_VTYPE_MASK \<equiv> 0xF000"
abbreviation (input) FS_TYPE_EXT2 :: u32 where "FS_TYPE_EXT2 \<equiv> 1"

record vnode =
  v_name :: "u8 list"
  v_flags :: u32
  v_gid :: u32
  v_uid :: u32
  v_size :: u32
  v_ino_num :: u32
  v_fs :: addr
  v_ptr :: addr
  v_next :: addr
  v_parent :: addr
  v_dirents :: addr
  v_num_dirents :: u64
  v_mount_ptr :: bool
  v_no_free :: bool
  v_priv_data :: addr
  v_refcount :: u64
  v_lock :: u32

record file_t =
  f_vnode :: addr
  f_ref_lock :: u32
  f_refcount :: u64
  f_ino_num :: u32
  f_type :: u32
  f_size :: u64

datatype fs_impl = No_impl | Ext2_impl | Devfs_impl

record fs_ops =
  fo_read :: fs_impl
  fo_write :: fs_impl
  fo_unlink :: fs_impl
  fo_creat :: fs_impl
  fo_open_vno :: fs_impl

record fs =
  fs_root :: addr
  fs_fs :: addr
  fs_type :: u32
  fs_ops_ptr :: addr
  fs_mount_point :: addr

datatype dev_impl = Block_impl | Serial_impl

record devfs_dev_info =
  di_dev :: addr
  di_impl :: dev_impl

record vfs_state = dev_state +
  vnodes :: "addr \<Rightarrow> vnode"
  files :: "addr \<Rightarrow> file_t"
  fss :: "addr \<Rightarrow> fs"
  fs_opss :: "addr \<Rightarrow> fs_ops"
  ringbufs :: "addr \<Rightarrow> ringbuf"
  dev_infos :: "addr \<Rightarrow> devfs_dev_info"
  rootfs :: addr
  devfs :: addr
  ext2_ops :: addr
  file_slab :: addr
  vnode_slab :: addr

definition zero_vnode :: vnode where
  "zero_vnode = \<lparr>v_name = replicate 256 0, v_flags = 0, v_gid = 0, v_uid = 0, v_size = 0, v_ino_num = 0,
     v_fs = 0, v_ptr = 0, v_next = 0, v_parent = 0, v_dirents = 0, v_num_dirents = 0,
     v_mount_ptr = False, v_no_free = False, v_priv_data = 0, v_refcount = 0, v_lock = 0\<rparr>"

definition zero_file :: file_t where
  "zero_file = \<lparr>f_vnode = 0, f_ref_lock = 0, f_refcount = 0, f_ino_num = 0, f_type = 0, f_size = 0\<rparr>"

definition zero_fs :: fs where
  "zero_fs = \<lparr>fs_root = 0, fs_fs = 0, fs_type = 0, fs_ops_ptr = 0, fs_mount_point = 0\<rparr>"

definition zero_fs_ops :: fs_ops where
  "zero_fs_ops = \<lparr>fo_read = No_impl, fo_write = No_impl, fo_unlink = No_impl, fo_creat = No_impl, fo_open_vno = No_impl\<rparr>"

definition upd_vnode :: "addr \<Rightarrow> (vnode \<Rightarrow> vnode) \<Rightarrow> 'a vfs_state_scheme \<Rightarrow> 'a vfs_state_scheme" where
  "upd_vnode p f s = s\<lparr>vnodes := (vnodes s)(p := f (vnodes s p))\<rparr>"

definition upd_fs :: "addr \<Rightarrow> (fs \<Rightarrow> fs) \<Rightarrow> 'a vfs_state_scheme \<Rightarrow> 'a vfs_state_scheme" where
  "upd_fs p f s = s\<lparr>fss := (fss s)(p := f (fss s p))\<rparr>"

section \<open>Directory entries\<close>

text \<open>
  \<open>struct dirent\<close>: inode at 0, reclen at 8, type at 10, name (256 bytes) at 11 and vnode at 272, 280 bytes in all.
\<close>

definition dirent_size :: u64 where "dirent_size = 280"

definition dirent_at :: "addr \<Rightarrow> u64 \<Rightarrow> addr" where
  "dirent_at ents i = ents + i * dirent_size"

definition d_inode :: "mem \<Rightarrow> addr \<Rightarrow> u64" where
  "d_inode m d = load64 m d"

definition d_name :: "addr \<Rightarrow> addr" where
  "d_name d = d + 11"

definition d_vnode :: "mem \<Rightarrow> addr \<Rightarrow> addr" where
  "d_vnode m d = load64 m (d + 272)"

definition set_d_vnode :: "addr \<Rightarrow> addr \<Rightarrow> mem \<Rightarrow> mem" where
  "set_d_vnode d v m = store64 (d + 272) v m"

section \<open>Creation\<close>

definition vfs_create_vno :: "'a vfs_state_scheme \<Rightarrow> (addr \<times> 'a vfs_state_scheme) option" where
  "vfs_create_vno s = do {
     (v, s) \<leftarrow> slab_alloc kmap (vnode_slab s) s;
     if v = NULL then Some (NULL, s)
     else Some (v, upd_vnode v (\<lambda>_. zero_vnode) s)
   }"

definition vfs_create :: "'a vfs_state_scheme \<Rightarrow> (addr \<times> 'a vfs_state_scheme) option" where
  "vfs_create s = do {
     (f, s) \<leftarrow> kzalloc kmap 40 ALLOC_KERN s;
     if f = NULL then Some (NULL, s)
     else do {
       let s = upd_fs f (\<lambda>_. zero_fs) s;
       (root, s) \<leftarrow> vfs_create_vno s;
       let s = upd_fs f (fs_root_update (\<lambda>_. root)) s;
       if root = NULL then do { s \<leftarrow> kfree kmap f s; Some (NULL, s) }
       else do {
         (p, s) \<leftarrow> kzalloc kmap 40 ALLOC_KERN s;
         let s = upd_fs f (fs_ops_ptr_update (\<lambda>_. p)) s;
         if p = NULL then do {
           s \<leftarrow> kfree kmap (fs_root (fss s f)) s;
           s \<leftarrow> kfree kmap f s;
           Some (NULL, s)
         }
         else do {
           let s = s\<lparr>fs_opss := (fs_opss s)(p := zero_fs_ops)\<rparr>;
           Some (f, upd_vnode root (\<lambda>v. v\<lparr>v_no_free := True, v_refcount := 1\<rparr>) s)
         }
       }
     }
   }"

definition attempt_free :: "addr \<Rightarrow> 'a vfs_state_scheme \<Rightarrow> 'a vfs_state_scheme option" where
  "attempt_free p s = (if p \<noteq> NULL then kfree kmap p s else Some s)"

definition vfs_dealloc :: "addr \<Rightarrow> 'a vfs_state_scheme \<Rightarrow> 'a vfs_state_scheme option" where
  "vfs_dealloc f s = do {
     s \<leftarrow> attempt_free (fs_ops_ptr (fss s f)) s;
     let s = upd_fs f (fs_ops_ptr_update (\<lambda>_. NULL)) s;
     let root = fs_root (fss s f);
     s \<leftarrow> (if root \<noteq> NULL then do {
            s \<leftarrow> attempt_free (v_dirents (vnodes s root)) s;
            Some (upd_vnode root (v_dirents_update (\<lambda>_. NULL)) s)
          } else Some s);
     s \<leftarrow> slab_free kmap (vnode_slab s) root s;
     s \<leftarrow> attempt_free (fs_mount_point (fss s f)) s;
     let s = upd_fs f (fs_mount_point_update (\<lambda>_. NULL)) s;
     attempt_free f s
   }"

section \<open>FIFO buffers\<close>

definition ringbuf_create :: "u64 \<Rightarrow> 'a vfs_state_scheme \<Rightarrow> (addr \<times> 'a vfs_state_scheme) option" where
  "ringbuf_create n s = do {
     (r, s) \<leftarrow> kzalloc kmap 32 ALLOC_KERN s;
     assert_opt (r \<noteq> NULL);
     (b, s) \<leftarrow> kmalloc kmap n ALLOC_KERN s;
     Some (r, s\<lparr>ringbufs := (ringbufs s)(r := \<lparr>rb_buf = b, rb_size = n, rb_head = 0, rb_tail = 0\<rparr>)\<rparr>)
   }"

definition ringbuf_destroy :: "addr \<Rightarrow> 'a vfs_state_scheme \<Rightarrow> 'a vfs_state_scheme option" where
  "ringbuf_destroy r s = do {
     s \<leftarrow> attempt_free (rb_buf (ringbufs s r)) s;
     let s = s\<lparr>ringbufs := (ringbufs s)(r := (ringbufs s r)\<lparr>rb_buf := NULL\<rparr>)\<rparr>;
     attempt_free r s
   }"

end
