(* ===== verification/Ext2_Disk.thy ===== *)
theory Ext2_Disk
  imports Vfs_Node
begin

unbundle bit_operations_syntax

text \<open>
  The on-disk structures of ext2 (\<^verbatim>\<open>include/fs/ext2.h\<close>) and the block and inode layer of \<^verbatim>\<open>fs/ext2.c\<close>.
  The superblock and the group descriptors are kept as bytes, as the code writes them back to the disk
  from where they are; reading a field is a load at its offset in the packed structure. An inode is a record
  that is decoded from a block and encoded into one; functions that take a pointer to an inode take and return its value.
  A result of type \<open>long\<close> or \<open>int\<close> is an \<open>int\<close>, negative for an error. \<open>io\<close> is the driver of the device.
\<close>

abbreviation (input) EXT2_SUPER_MAGIC :: u16 where "EXT2_SUPER_MAGIC \<equiv> 0xEF53"
abbreviation (input) EXT2_ROOT_INO :: u32 where "EXT2_ROOT_INO \<equiv> 2"

abbreviation (input) EXT2_DE_FILE :: int where "EXT2_DE_FILE \<equiv> 1"
abbreviation (input) EXT2_DE_DIR :: int where "EXT2_DE_DIR \<equiv> 2"
abbreviation (input) EXT2_DE_CHRDEV :: int where "EXT2_DE_CHRDEV \<equiv> 3"
abbreviation (input) EXT2_DE_BLKDEV :: int where "EXT2_DE_BLKDEV \<equiv> 4"
abbreviation (input) EXT2_DE_FIFO :: int where "EXT2_DE_FIFO \<equiv> 5"
abbreviation (input) EXT2_DE_SOCK :: int where "EXT2_DE_SOCK \<equiv> 6"
abbreviation (input) EXT2_DE_SYMLINK :: int where "EXT2_DE_SYMLINK \<equiv> 7"

abbreviation (input) EXT2_INO_FIFO :: u32 where "EXT2_INO_FIFO \<equiv> 0x1000"
abbreviation (input) EXT2_INO_CHARDEV :: u32 where "EXT2_INO_CHARDEV \<equiv> 0x2000"
abbreviation (input) EXT2_INO_DIR :: u32 where "EXT2_INO_DIR \<equiv> 0x4000"
abbreviation (input) EXT2_INO_BLKDEV :: u32 where "EXT2_INO_BLKDEV \<equiv> 0x6000"
abbreviation (input) EXT2_INO_REG :: u32 where "EXT2_INO_REG \<equiv> 0x8000"
abbreviation (input) EXT2_INO_SYMLINK :: u32 where "EXT2_INO_SYMLINK \<equiv> 0xA000"
abbreviation (input) EXT2_INO_SOCK :: u32 where "EXT2_INO_SOCK \<equiv> 0xC000"

section \<open>Superblock, group descriptors and file system structure\<close>

text \<open>
  \<open>struct ext2_superblock\<close> is packed and 236 bytes long; the fields the code uses are these.
  In \<open>struct ext2fs\<close> it comes first, \<open>bdev\<close> is at 240, and the structure has 280 bytes.
\<close>

definition sb_blocks_count :: "mem \<Rightarrow> addr \<Rightarrow> u32" where "sb_blocks_count m p = load32 m (p + 4)"
definition sb_free_blocks_count :: "mem \<Rightarrow> addr \<Rightarrow> u32" where "sb_free_blocks_count m p = load32 m (p + 12)"
definition sb_free_inodes_count :: "mem \<Rightarrow> addr \<Rightarrow> u32" where "sb_free_inodes_count m p = load32 m (p + 16)"
definition sb_first_data_block :: "mem \<Rightarrow> addr \<Rightarrow> u32" where "sb_first_data_block m p = load32 m (p + 20)"
definition sb_log_block_size :: "mem \<Rightarrow> addr \<Rightarrow> u32" where "sb_log_block_size m p = load32 m (p + 24)"
definition sb_blocks_per_group :: "mem \<Rightarrow> addr \<Rightarrow> u32" where "sb_blocks_per_group m p = load32 m (p + 32)"
definition sb_inodes_per_group :: "mem \<Rightarrow> addr \<Rightarrow> u32" where "sb_inodes_per_group m p = load32 m (p + 40)"
definition sb_magic :: "mem \<Rightarrow> addr \<Rightarrow> u16" where "sb_magic m p = load16 m (p + 56)"

definition e_bdev :: "mem \<Rightarrow> addr \<Rightarrow> addr" where "e_bdev m fs = load64 m (fs + 240)"
definition e_bgdt_blockno :: "mem \<Rightarrow> addr \<Rightarrow> u32" where "e_bgdt_blockno m fs = load32 m (fs + 248)"
definition e_bgdt_num_blocks :: "mem \<Rightarrow> addr \<Rightarrow> u32" where "e_bgdt_num_blocks m fs = load32 m (fs + 252)"
definition e_bgdt :: "mem \<Rightarrow> addr \<Rightarrow> addr" where "e_bgdt m fs = load64 m (fs + 256)"
definition e_lock :: "mem \<Rightarrow> addr \<Rightarrow> u32" where "e_lock m fs = load32 m (fs + 264)"
definition e_block_size :: "mem \<Rightarrow> addr \<Rightarrow> u32" where "e_block_size m fs = load32 m (fs + 272)"

text \<open>A group descriptor has 32 bytes.\<close>

definition group_desc :: "mem \<Rightarrow> addr \<Rightarrow> u64 \<Rightarrow> addr" where "group_desc m fs i = e_bgdt m fs + 32 * i"
definition bg_block_bitmap :: "mem \<Rightarrow> addr \<Rightarrow> u32" where "bg_block_bitmap m bg = load32 m bg"
definition bg_inode_bitmap :: "mem \<Rightarrow> addr \<Rightarrow> u32" where "bg_inode_bitmap m bg = load32 m (bg + 4)"
definition bg_inode_table :: "mem \<Rightarrow> addr \<Rightarrow> u32" where "bg_inode_table m bg = load32 m (bg + 8)"
definition bg_free_blocks_count :: "mem \<Rightarrow> addr \<Rightarrow> u16" where "bg_free_blocks_count m bg = load16 m (bg + 12)"
definition bg_free_inodes_count :: "mem \<Rightarrow> addr \<Rightarrow> u16" where "bg_free_inodes_count m bg = load16 m (bg + 14)"

definition add_free_blocks :: "addr \<Rightarrow> addr \<Rightarrow> int \<Rightarrow> mem \<Rightarrow> mem" where
  "add_free_blocks fs bg d m =
    (let m = store16 (bg + 12) (bg_free_blocks_count m bg + of_int d) m
     in store32 (fs + 12) (sb_free_blocks_count m fs + of_int d) m)"

definition add_free_inodes :: "addr \<Rightarrow> addr \<Rightarrow> int \<Rightarrow> mem \<Rightarrow> mem" where
  "add_free_inodes fs bg d m =
    (let m = store16 (bg + 14) (bg_free_inodes_count m bg + of_int d) m
     in store32 (fs + 16) (sb_free_inodes_count m fs + of_int d) m)"

definition lock_fs :: "addr \<Rightarrow> 'a vfs_state_scheme \<Rightarrow> 'a vfs_state_scheme option" where
  "lock_fs fs s = do { l \<leftarrow> spinlock_acquire (e_lock (ram s) fs); Some (s\<lparr>ram := store32 (fs + 264) l (ram s)\<rparr>) }"

definition unlock_fs :: "addr \<Rightarrow> 'a vfs_state_scheme \<Rightarrow> 'a vfs_state_scheme" where
  "unlock_fs fs s = s\<lparr>ram := store32 (fs + 264) (spinlock_release (e_lock (ram s) fs)) (ram s)\<rparr>"

section \<open>Inodes\<close>

record ext2_inode =
  i_mode :: u16
  i_uid :: u16
  i_size :: u32
  i_atime :: u32
  i_ctime :: u32
  i_mtime :: u32
  i_dtime :: u32
  i_gid :: u16
  i_links_count :: u16
  i_blocks :: u32
  i_flags :: u32
  i_osd1 :: u32
  i_block :: "u32 list"
  i_generation :: u32
  i_file_acl :: u32
  i_dir_acl :: u32
  i_faddr :: u32
  i_frag_number :: u8
  i_frag_size :: u8
  i_padding1 :: u16
  i_user_high :: u16
  i_group_high :: u16
  i_padding2 :: u32

definition zero_inode :: ext2_inode where
  "zero_inode = \<lparr>i_mode = 0, i_uid = 0, i_size = 0, i_atime = 0, i_ctime = 0, i_mtime = 0, i_dtime = 0,
     i_gid = 0, i_links_count = 0, i_blocks = 0, i_flags = 0, i_osd1 = 0, i_block = replicate 15 0,
     i_generation = 0, i_file_acl = 0, i_dir_acl = 0, i_faddr = 0, i_frag_number = 0, i_frag_size = 0,
     i_padding1 = 0, i_user_high = 0, i_group_high = 0, i_padding2 = 0\<rparr>"

definition decode_inode :: "mem \<Rightarrow> addr \<Rightarrow> ext2_inode" where
  "decode_inode m p = \<lparr>i_mode = load16 m p, i_uid = load16 m (p + 2), i_size = load32 m (p + 4),
     i_atime = load32 m (p + 8), i_ctime = load32 m (p + 12), i_mtime = load32 m (p + 16), i_dtime = load32 m (p + 20),
     i_gid = load16 m (p + 24), i_links_count = load16 m (p + 26), i_blocks = load32 m (p + 28),
     i_flags = load32 m (p + 32), i_osd1 = load32 m (p + 36),
     i_block = map (\<lambda>i. load32 m (p + 40 + 4 * of_nat i)) [0..<15],
     i_generation = load32 m (p + 100), i_file_acl = load32 m (p + 104), i_dir_acl = load32 m (p + 108),
     i_faddr = load32 m (p + 112), i_frag_number = m (p + 116), i_frag_size = m (p + 117),
     i_padding1 = load16 m (p + 118), i_user_high = load16 m (p + 120), i_group_high = load16 m (p + 122),
     i_padding2 = load32 m (p + 124)\<rparr>"

definition bytes16 :: "u16 \<Rightarrow> u8 list" where
  "bytes16 v = [ucast v, ucast (drop_bit 8 v)]"

definition bytes32 :: "u32 \<Rightarrow> u8 list" where
  "bytes32 v = bytes16 (ucast v) @ bytes16 (ucast (drop_bit 16 v))"

definition encode_inode :: "ext2_inode \<Rightarrow> u8 list" where
  "encode_inode i = bytes16 (i_mode i) @ bytes16 (i_uid i) @ bytes32 (i_size i)
     @ bytes32 (i_atime i) @ bytes32 (i_ctime i) @ bytes32 (i_mtime i) @ bytes32 (i_dtime i)
     @ bytes16 (i_gid i) @ bytes16 (i_links_count i) @ bytes32 (i_blocks i) @ bytes32 (i_flags i) @ bytes32 (i_osd1 i)
     @ concat (map bytes32 (i_block i))
     @ bytes32 (i_generation i) @ bytes32 (i_file_acl i) @ bytes32 (i_dir_acl i) @ bytes32 (i_faddr i)
     @ [i_frag_number i, i_frag_size i] @ bytes16 (i_padding1 i)
     @ bytes16 (i_user_high i) @ bytes16 (i_group_high i) @ bytes32 (i_padding2 i)"

section \<open>Blocks\<close>

definition ext2_read_super :: "'a vfs_state_scheme block_device_ops \<Rightarrow> addr \<Rightarrow> addr \<Rightarrow> 'a vfs_state_scheme \<Rightarrow> (int \<times> 'a vfs_state_scheme) option" where
  "ext2_read_super io bdev sb_struct s = do {
     (buf, s) \<leftarrow> kmalloc kmap 1024 ALLOC_DMA s;
     if buf = NULL then Some (- ENOMEM, s)
     else do {
       (ret, s) \<leftarrow> block_read io bdev buf 2 2 s;
       if ret < 0 then do { s \<leftarrow> kfree kmap buf s; Some (ret, s) }
       else if sb_magic (ram s) buf \<noteq> EXT2_SUPER_MAGIC then do { s \<leftarrow> kfree kmap buf s; Some (- EINVAL, s) }
       else do {
         let s = s\<lparr>ram := snd (memcpy sb_struct buf 236 (ram s))\<rparr>;
         s \<leftarrow> kfree kmap buf s;
         Some (ret, s)
       }
     }
   }"

text \<open>The first device block and the number of device blocks of a block; a device with blocks of size 0 faults.\<close>

definition device_blocks :: "addr \<Rightarrow> u64 \<Rightarrow> 'a vfs_state_scheme \<Rightarrow> (u64 \<times> u64) option" where
  "device_blocks fs block s = do {
     let bdev_block_size = (ucast (bd_block_size (bdevs s (e_bdev (ram s) fs))) :: u32);
     assert_opt (bdev_block_size \<noteq> 0);
     let n = e_block_size (ram s) fs div bdev_block_size;
     let bdev_block = (ucast (block * ucast n) :: u32);
     Some (ucast bdev_block, ucast n)
   }"

definition ext2_read_block :: "'a vfs_state_scheme block_device_ops \<Rightarrow> addr \<Rightarrow> addr \<Rightarrow> u64 \<Rightarrow> 'a vfs_state_scheme \<Rightarrow> (int \<times> 'a vfs_state_scheme) option" where
  "ext2_read_block io fs buf block s = do {
     (b, n) \<leftarrow> device_blocks fs block s;
     block_read io (e_bdev (ram s) fs) buf b n s
   }"

definition ext2_write_block :: "'a vfs_state_scheme block_device_ops \<Rightarrow> addr \<Rightarrow> addr \<Rightarrow> u64 \<Rightarrow> 'a vfs_state_scheme \<Rightarrow> (int \<times> 'a vfs_state_scheme) option" where
  "ext2_write_block io fs buf block s = do {
     (b, n) \<leftarrow> device_blocks fs block s;
     block_write io (e_bdev (ram s) fs) buf b n s
   }"

definition ext2_write_super :: "'a vfs_state_scheme block_device_ops \<Rightarrow> addr \<Rightarrow> 'a vfs_state_scheme \<Rightarrow> (int \<times> 'a vfs_state_scheme) option" where
  "ext2_write_super io fs s = ext2_write_block io fs fs 1 s"

primrec write_bgdt_loop :: "'a vfs_state_scheme block_device_ops \<Rightarrow> nat \<Rightarrow> addr \<Rightarrow> u64 \<Rightarrow> 'a vfs_state_scheme \<Rightarrow> (int \<times> 'a vfs_state_scheme) option" where
  "write_bgdt_loop io 0 fs i s = Some (0, s)"
| "write_bgdt_loop io (Suc k) fs i s = do {
     let buf = e_bgdt (ram s) fs + ucast (e_block_size (ram s) fs) * i;
     (ret, s) \<leftarrow> ext2_write_block io fs buf (ucast (e_bgdt_blockno (ram s) fs) + i) s;
     if ret < 0 then Some (ret, s) else write_bgdt_loop io k fs (i + 1) s
   }"

definition ext2_write_bgdt :: "'a vfs_state_scheme block_device_ops \<Rightarrow> addr \<Rightarrow> 'a vfs_state_scheme \<Rightarrow> (int \<times> 'a vfs_state_scheme) option" where
  "ext2_write_bgdt io fs s = write_bgdt_loop io (unat (e_bgdt_num_blocks (ram s) fs)) fs 0 s"

text \<open>
  The search of a bitmap block: the byte that is inspected, stepping 8 bytes past a full one, and the
  first clear bit of that byte, 8 when there is none. With an empty block the byte is never set.
\<close>

partial_function (option) scan_bitmap :: "mem \<Rightarrow> addr \<Rightarrow> u32 \<Rightarrow> u32 \<Rightarrow> addr option \<Rightarrow> (u32 \<times> addr option) option" where
  "scan_bitmap m buf block_size block_offset byte =
    (if block_offset < block_size then
       (let byte = buf + ucast block_offset in
        if m byte = 0xFF then scan_bitmap m buf block_size (block_offset + 8) (Some byte)
        else Some (block_offset, Some byte))
     else Some (block_offset, byte))"

definition clear_bit :: "u8 \<Rightarrow> nat" where
  "clear_bit b = length (takeWhile (bit b) [0..<8])"

definition take_free_bit :: "addr \<Rightarrow> u32 \<Rightarrow> mem \<Rightarrow> (u32 \<times> nat \<times> mem) option" where
  "take_free_bit buf block_size m = do {
     (block_offset, byte) \<leftarrow> scan_bitmap m buf block_size 0 None;
     b \<leftarrow> byte;
     let j = clear_bit (m b);
     Some (block_offset, j, m(b := m b OR push_bit j 1))
   }"

definition ext2_find_free_block :: "'a vfs_state_scheme block_device_ops \<Rightarrow> addr \<Rightarrow> u64 \<Rightarrow> 'a vfs_state_scheme \<Rightarrow> (int \<times> 'a vfs_state_scheme) option" where
  "ext2_find_free_block io fs block_group s = do {
     let bg = group_desc (ram s) fs block_group;
     let bs = e_block_size (ram s) fs;
     if bg_free_blocks_count (ram s) bg = 0 then Some (- ENOSPC, s)
     else do {
       let block = bg_block_bitmap (ram s) bg;
       (buf, s) \<leftarrow> kmalloc kmap (ucast bs) ALLOC_DMA s;
       if buf = NULL then Some (- ENOMEM, s)
       else do {
         (r, s) \<leftarrow> ext2_read_block io fs buf (ucast block) s;
         (block_offset, j, m) \<leftarrow> take_free_bit buf bs (ram s);
         let s = s\<lparr>ram := add_free_blocks fs bg (- 1) m\<rparr>;
         (r, s) \<leftarrow> ext2_write_block io fs buf (ucast block) s;
         (r, s) \<leftarrow> ext2_write_super io fs s;
         (r, s) \<leftarrow> ext2_write_bgdt io fs s;
         s \<leftarrow> kfree kmap buf s;
         let block_ret_no = (ucast (block_group * ucast (sb_blocks_per_group (ram s) fs)
           + ucast (block_offset * 8) + of_nat j + 1) :: u32);
         (block_buf, s) \<leftarrow> kmalloc kmap (ucast bs) ALLOC_DMA s;
         if block_buf = NULL then Some (- ENOMEM, s)
         else do {
           let s = s\<lparr>ram := snd (memset block_buf 0 (ucast bs) (ram s))\<rparr>;
           (r, s) \<leftarrow> ext2_write_block io fs block_buf (ucast block_ret_no) s;
           s \<leftarrow> kfree kmap block_buf s;
           Some (uint block_ret_no, s)
         }
       }
     }
   }"

definition num_groups :: "mem \<Rightarrow> addr \<Rightarrow> u32 option" where
  "num_groups m fs = do {
     assert_opt (sb_blocks_per_group m fs \<noteq> 0);
     let n = sb_blocks_count m fs div sb_blocks_per_group m fs;
     Some (if sb_blocks_count m fs mod sb_blocks_per_group m fs \<noteq> 0 then n + 1 else n)
   }"

text \<open>The early return of the loop leaves the lock taken.\<close>

primrec alloc_block_loop :: "'a vfs_state_scheme block_device_ops \<Rightarrow> nat \<Rightarrow> addr \<Rightarrow> u64 \<Rightarrow> 'a vfs_state_scheme \<Rightarrow> (int \<times> 'a vfs_state_scheme) option" where
  "alloc_block_loop io 0 fs i s = Some (- ENOSPC, unlock_fs fs s)"
| "alloc_block_loop io (Suc k) fs i s = do {
     (ret, s) \<leftarrow> ext2_find_free_block io fs i s;
     if ret \<ge> 0 then Some (ret, s) else alloc_block_loop io k fs (i + 1) s
   }"

definition ext2_alloc_block :: "'a vfs_state_scheme block_device_ops \<Rightarrow> addr \<Rightarrow> 'a vfs_state_scheme \<Rightarrow> (int \<times> 'a vfs_state_scheme) option" where
  "ext2_alloc_block io fs s = do {
     n \<leftarrow> num_groups (ram s) fs;
     s \<leftarrow> lock_fs fs s;
     alloc_block_loop io (unat n) fs 0 s
   }"

definition ext2_free_block :: "'a vfs_state_scheme block_device_ops \<Rightarrow> addr \<Rightarrow> u32 \<Rightarrow> 'a vfs_state_scheme \<Rightarrow> (int \<times> 'a vfs_state_scheme) option" where
  "ext2_free_block io fs block s = do {
     assert_opt (sb_blocks_per_group (ram s) fs \<noteq> 0);
     let block_group = (block - 1) div sb_blocks_per_group (ram s) fs;
     let block_offset = (block - 1) mod sb_blocks_per_group (ram s) fs;
     let bg = group_desc (ram s) fs (ucast block_group);
     let bitmap = bg_block_bitmap (ram s) bg;
     (buf, s) \<leftarrow> kmalloc kmap (ucast (e_block_size (ram s) fs)) ALLOC_DMA s;
     if buf = NULL then Some (- ENOMEM, s)
     else do {
       s \<leftarrow> lock_fs fs s;
       (r, s) \<leftarrow> ext2_read_block io fs buf (ucast bitmap) s;
       let byte = buf + ucast (drop_bit 3 block_offset);
       let s = s\<lparr>ram := add_free_blocks fs bg 1
         ((ram s)(byte := ram s byte AND NOT (push_bit (unat (block_offset AND 7)) 1)))\<rparr>;
       (r, s) \<leftarrow> ext2_write_block io fs buf (ucast bitmap) s;
       (r, s) \<leftarrow> ext2_write_super io fs s;
       (r, s) \<leftarrow> ext2_write_bgdt io fs s;
       let s = unlock_fs fs s;
       s \<leftarrow> kfree kmap buf s;
       Some (0, s)
     }
   }"

section \<open>Allocating, reading and writing inodes\<close>

primrec alloc_inode_loop :: "'a vfs_state_scheme block_device_ops \<Rightarrow> nat \<Rightarrow> addr \<Rightarrow> u64 \<Rightarrow> 'a vfs_state_scheme \<Rightarrow> (int \<times> 'a vfs_state_scheme) option" where
  "alloc_inode_loop io 0 fs i s = Some (- ENOSPC, s)"
| "alloc_inode_loop io (Suc k) fs i s = do {
     let bg = group_desc (ram s) fs i;
     let bs = e_block_size (ram s) fs;
     if bg_free_inodes_count (ram s) bg = 0 then alloc_inode_loop io k fs (i + 1) s
     else do {
       let block = bg_inode_bitmap (ram s) bg;
       (buf, s) \<leftarrow> kmalloc kmap (ucast bs) ALLOC_DMA s;
       if buf = NULL then Some (- ENOMEM, s)
       else do {
         (r, s) \<leftarrow> ext2_read_block io fs buf (ucast block) s;
         s \<leftarrow> lock_fs fs s;
         (block_offset, j, m) \<leftarrow> take_free_bit buf bs (ram s);
         let s = s\<lparr>ram := add_free_inodes fs bg (- 1) m\<rparr>;
         (r, s) \<leftarrow> ext2_write_block io fs buf (ucast block) s;
         (r, s) \<leftarrow> ext2_write_super io fs s;
         (r, s) \<leftarrow> ext2_write_bgdt io fs s;
         s \<leftarrow> kfree kmap buf s;
         let s = unlock_fs fs s;
         let inode_no = (ucast (i * ucast (sb_inodes_per_group (ram s) fs)
           + ucast (push_bit 3 block_offset) + of_nat j + 1) :: u32);
         Some (uint inode_no, s)
       }
     }
   }"

definition ext2_alloc_inode :: "'a vfs_state_scheme block_device_ops \<Rightarrow> addr \<Rightarrow> 'a vfs_state_scheme \<Rightarrow> (int \<times> 'a vfs_state_scheme) option" where
  "ext2_alloc_inode io fs s = do {
     n \<leftarrow> num_groups (ram s) fs;
     alloc_inode_loop io (unat n) fs 0 s
   }"

definition ext2_free_inode :: "'a vfs_state_scheme block_device_ops \<Rightarrow> addr \<Rightarrow> u32 \<Rightarrow> 'a vfs_state_scheme \<Rightarrow> (int \<times> 'a vfs_state_scheme) option" where
  "ext2_free_inode io fs inode s = do {
     assert_opt (sb_inodes_per_group (ram s) fs \<noteq> 0);
     let group = (inode - 1) div sb_inodes_per_group (ram s) fs;
     let index = (inode - 1) mod sb_inodes_per_group (ram s) fs;
     let bg = group_desc (ram s) fs (ucast group);
     let block = bg_inode_bitmap (ram s) bg;
     (buf, s) \<leftarrow> kmalloc kmap (ucast (e_block_size (ram s) fs)) ALLOC_DMA s;
     if buf = NULL then Some (- ENOMEM, s)
     else do {
       (r, s) \<leftarrow> ext2_read_block io fs buf (ucast block) s;
       s \<leftarrow> lock_fs fs s;
       let byte = buf + ucast (drop_bit 3 index);
       let s = s\<lparr>ram := add_free_inodes fs bg 1
         ((ram s)(byte := ram s byte AND NOT (push_bit (unat (index AND 7)) 1)))\<rparr>;
       (r, s) \<leftarrow> ext2_write_block io fs buf (ucast block) s;
       (r, s) \<leftarrow> ext2_write_super io fs s;
       (r, s) \<leftarrow> ext2_write_bgdt io fs s;
       let s = unlock_fs fs s;
       s \<leftarrow> kfree kmap buf s;
       Some (0, s)
     }
   }"

text \<open>The block that holds an inode and the offset of the inode there; an inode has 128 bytes.\<close>

definition inode_place :: "mem \<Rightarrow> addr \<Rightarrow> u32 \<Rightarrow> (u32 \<times> u32) option" where
  "inode_place m fs inode = do {
     assert_opt (sb_inodes_per_group m fs \<noteq> 0);
     let group = (inode - 1) div sb_inodes_per_group m fs;
     let index = (inode - 1) mod sb_inodes_per_group m fs;
     let bg = group_desc m fs (ucast group);
     let bs = (ucast (e_block_size m fs) :: u64);
     assert_opt (bs \<noteq> 0);
     Some (bg_inode_table m bg + ucast (ucast index * 128 div bs), ucast (ucast index * 128 mod bs))
   }"

definition ext2_read_inode :: "'a vfs_state_scheme block_device_ops \<Rightarrow> addr \<Rightarrow> ext2_inode \<Rightarrow> u32 \<Rightarrow> 'a vfs_state_scheme \<Rightarrow> (int \<times> ext2_inode \<times> 'a vfs_state_scheme) option" where
  "ext2_read_inode io fs out inode s = do {
     (block, offset) \<leftarrow> inode_place (ram s) fs inode;
     (buf, s) \<leftarrow> kmalloc kmap (ucast (e_block_size (ram s) fs)) ALLOC_DMA s;
     if buf = NULL then Some (- ENOMEM, out, s)
     else do {
       (ret, s) \<leftarrow> ext2_read_block io fs buf (ucast block) s;
       if ret < 0 then do { s \<leftarrow> kfree kmap buf s; Some (ret, out, s) }
       else do {
         let ino = decode_inode (ram s) (buf + ucast offset);
         s \<leftarrow> kfree kmap buf s;
         Some (0, ino, s)
       }
     }
   }"

definition ext2_write_inode :: "'a vfs_state_scheme block_device_ops \<Rightarrow> addr \<Rightarrow> ext2_inode \<Rightarrow> u32 \<Rightarrow> 'a vfs_state_scheme \<Rightarrow> (int \<times> 'a vfs_state_scheme) option" where
  "ext2_write_inode io fs inp inode s = do {
     (block, offset) \<leftarrow> inode_place (ram s) fs inode;
     (buf, s) \<leftarrow> kmalloc kmap (ucast (e_block_size (ram s) fs)) ALLOC_DMA s;
     if buf = NULL then Some (- ENOMEM, s)
     else do {
       (ret, s) \<leftarrow> ext2_read_block io fs buf (ucast block) s;
       if ret < 0 then do { s \<leftarrow> kfree kmap buf s; Some (ret, s) }
       else do {
         let s = s\<lparr>ram := put_bytes (ram s) (buf + ucast offset) (encode_inode inp)\<rparr>;
         (ret, s) \<leftarrow> ext2_write_block io fs buf (ucast block) s;
         if ret < 0 then do { s \<leftarrow> kfree kmap buf s; Some (ret, s) }
         else do { s \<leftarrow> kfree kmap buf s; Some (0, s) }
       }
     }
   }"

section \<open>The blocks of a file\<close>

abbreviation (input) N_DIRECT :: u64 where "N_DIRECT \<equiv> 12"
definition N_INDIR :: "u32 \<Rightarrow> u64" where "N_INDIR bs = ucast bs div 4"
definition N_DINDIR :: "u32 \<Rightarrow> u64" where "N_DINDIR bs = N_INDIR bs * N_INDIR bs"
definition N_TINDIR :: "u32 \<Rightarrow> u64" where "N_TINDIR bs = N_DINDIR bs * N_INDIR bs + N_DINDIR bs + N_INDIR bs"
definition N_PER_INDIRECT :: "u32 \<Rightarrow> u64" where "N_PER_INDIRECT bs = ucast bs div 4"

text \<open>\<open>struct ext2_block_index\<close>: the number of indirections (all ones when the block number is too large) and the indices.\<close>

record ext2_block_index =
  n_indirs :: u32
  indices :: "u32 list"

definition ext2_get_block_idx :: "u32 \<Rightarrow> u32 \<Rightarrow> ext2_block_index" where
  "ext2_get_block_idx bs block =
    (let limit_indirect = ucast (N_DIRECT + N_INDIR bs) :: u32;
         limit_dindirect = ucast (ucast limit_indirect + N_DINDIR bs) :: u32;
         limit = ucast (ucast limit_dindirect + N_TINDIR bs) :: u32;
         b = ucast block :: u64
     in if b < N_DIRECT then \<lparr>n_indirs = 0, indices = [block]\<rparr>
        else if block < limit_indirect then \<lparr>n_indirs = 1, indices = [ucast N_DIRECT, ucast (b - N_DIRECT)]\<rparr>
        else if block < limit_dindirect then
          \<lparr>n_indirs = 2, indices = [ucast (N_DIRECT + 1),
            ucast ((b - N_DIRECT) div N_PER_INDIRECT bs), ucast ((b - N_DIRECT) mod N_PER_INDIRECT bs)]\<rparr>
        else if block < limit then
          \<lparr>n_indirs = 3, indices = [ucast (N_DIRECT + 2),
            ucast ((b - (N_DIRECT + N_DINDIR bs)) div N_PER_INDIRECT bs div N_PER_INDIRECT bs),
            ucast ((b - (N_DIRECT + N_DINDIR bs)) div N_PER_INDIRECT bs mod N_PER_INDIRECT bs),
            ucast ((b - (N_DIRECT + N_DINDIR bs)) mod N_PER_INDIRECT bs)]\<rparr>
        else \<lparr>n_indirs = - 1, indices = []\<rparr>)"

text \<open>The walk through the indirect blocks; the buffer is only released when a block was added.\<close>

primrec blocknum_loop :: "'a vfs_state_scheme block_device_ops \<Rightarrow> u32 list \<Rightarrow> addr \<Rightarrow> bool \<Rightarrow> int \<Rightarrow> 'a vfs_state_scheme \<Rightarrow> (int \<times> 'a vfs_state_scheme) option" where
  "blocknum_loop io [] fs alloc ret s = Some (ret, s)"
| "blocknum_loop io (i # is) fs alloc prev s = do {
     (buf, s) \<leftarrow> kmalloc kmap (ucast (e_block_size (ram s) fs)) ALLOC_DMA s;
     if buf = NULL then Some (- ENOMEM, s)
     else do {
       (r, s) \<leftarrow> ext2_read_block io fs buf (of_int prev) s;
       let ret = uint (load32 (ram s) (buf + 4 * ucast i));
       if ret \<noteq> 0 then blocknum_loop io is fs alloc ret s
       else if \<not> alloc then do { s \<leftarrow> kfree kmap buf s; Some (- ENOENT, s) }
       else do {
         (ret, s) \<leftarrow> ext2_alloc_block io fs s;
         if ret < 0 then do { s \<leftarrow> kfree kmap buf s; Some (ret, s) }
         else do {
           let s = s\<lparr>ram := store32 (buf + 4 * ucast i) (of_int ret) (ram s)\<rparr>;
           (r, s) \<leftarrow> ext2_write_block io fs buf (of_int prev) s;
           s \<leftarrow> kfree kmap buf s;
           blocknum_loop io is fs alloc ret s
         }
       }
     }
   }"

definition ext2_ino_get_blocknum :: "'a vfs_state_scheme block_device_ops \<Rightarrow> addr \<Rightarrow> ext2_inode \<Rightarrow> u32 \<Rightarrow> bool \<Rightarrow> 'a vfs_state_scheme \<Rightarrow> (int \<times> ext2_inode \<times> 'a vfs_state_scheme) option" where
  "ext2_ino_get_blocknum io fs ino ino_blocknum alloc s = do {
     let idx = ext2_get_block_idx (e_block_size (ram s) fs) ino_blocknum;
     if n_indirs idx = - 1 then Some (- EINVAL, ino, s)
     else do {
       let i0 = unat (hd (indices idx));
       let ret = uint (i_block ino ! i0);
       (ret, ino, s) \<leftarrow>
         (if ret \<noteq> 0 then Some (ret, ino, s)
          else if \<not> alloc then Some (- ENOENT, ino, s)
          else do {
            (ret, s) \<leftarrow> ext2_alloc_block io fs s;
            if ret < 0 then Some (ret, ino, s)
            else Some (ret, ino\<lparr>i_block := (i_block ino)[i0 := of_int ret]\<rparr>, s)
          });
       if ret < 0 then Some (ret, ino, s)
       else do {
         (ret, s) \<leftarrow> blocknum_loop io (tl (indices idx)) fs alloc ret s;
         Some (ret, ino, s)
       }
     }
   }"

definition ext2_ino_read_block :: "'a vfs_state_scheme block_device_ops \<Rightarrow> addr \<Rightarrow> ext2_inode \<Rightarrow> addr \<Rightarrow> u32 \<Rightarrow> 'a vfs_state_scheme \<Rightarrow> (int \<times> ext2_inode \<times> 'a vfs_state_scheme) option" where
  "ext2_ino_read_block io fs ino buf ino_blocknum s = do {
     (ret, ino, s) \<leftarrow> ext2_ino_get_blocknum io fs ino ino_blocknum False s;
     if ret < 0 then Some (ret, ino, s)
     else do { (r, s) \<leftarrow> ext2_read_block io fs buf (of_int ret) s; Some (0, ino, s) }
   }"

definition ext2_ino_write_block :: "'a vfs_state_scheme block_device_ops \<Rightarrow> addr \<Rightarrow> ext2_inode \<Rightarrow> addr \<Rightarrow> u32 \<Rightarrow> 'a vfs_state_scheme \<Rightarrow> (int \<times> ext2_inode \<times> 'a vfs_state_scheme) option" where
  "ext2_ino_write_block io fs ino buf ino_blocknum s = do {
     (ret, ino, s) \<leftarrow> ext2_ino_get_blocknum io fs ino ino_blocknum True s;
     if ret < 0 then Some (ret, ino, s)
     else do { (r, s) \<leftarrow> ext2_write_block io fs buf (of_int ret) s; Some (0, ino, s) }
   }"

end
