(* ===== verification/Ext2.thy ===== *)
theory Ext2
  imports Ext2_Disk
begin

unbundle bit_operations_syntax

text \<open>
  Directories, files and the operations ext2 offers to the virtual file system (\<^verbatim>\<open>fs/ext2.c\<close> from line 487).
  A directory entry on disk (\<open>struct ext2_dir_entry\<close>) is inode at 0, rec_len at 4, name_len at 6, file_type at 7 and the name from 8.
  A pointer to this structure moves by 8 bytes per unit, also where the code adds a byte offset to it.
  C leaves an access to released memory undefined; such an access does not return here.
\<close>

definition de_inode :: "mem \<Rightarrow> addr \<Rightarrow> u32" where "de_inode m p = load32 m p"
definition de_rec_len :: "mem \<Rightarrow> addr \<Rightarrow> u16" where "de_rec_len m p = load16 m (p + 4)"
definition de_name_len :: "mem \<Rightarrow> addr \<Rightarrow> u8" where "de_name_len m p = m (p + 6)"
definition de_file_type :: "mem \<Rightarrow> addr \<Rightarrow> u8" where "de_file_type m p = m (p + 7)"

text \<open>The number of blocks that hold a size: the remainder adds a whole block before the division.\<close>

definition dir_blocks :: "u32 \<Rightarrow> u32 \<Rightarrow> u64 option" where
  "dir_blocks sz bs = do {
     assert_opt (bs \<noteq> 0);
     let n = (ucast sz :: u64);
     let n = (if n mod ucast bs \<noteq> 0 then n + ucast bs else n);
     Some (n div ucast bs)
   }"

text \<open>
  Reading \<open>k\<close> consecutive blocks of an inode into memory at \<open>buf\<close>, which moves on by \<open>step\<close> bytes per block. On an error the buffer \<open>rel\<close> is released.
\<close>

primrec read_blocks :: "'a vfs_state_scheme block_device_ops \<Rightarrow> nat \<Rightarrow> addr \<Rightarrow> ext2_inode \<Rightarrow> addr \<Rightarrow> addr \<Rightarrow> u64 \<Rightarrow> u32 \<Rightarrow> 'a vfs_state_scheme \<Rightarrow> (int \<times> 'a vfs_state_scheme) option" where
  "read_blocks io 0 fs ino rel buf stp i s = Some (0, s)"
| "read_blocks io (Suc k) fs ino rel buf stp i s = do {
     (ret, ino, s) \<leftarrow> ext2_ino_read_block io fs ino buf i s;
     if ret < 0 then do { s \<leftarrow> kfree kmap rel s; Some (ret, s) }
     else read_blocks io k fs ino rel (buf + stp) stp (i + 1) s
   }"

primrec write_blocks :: "'a vfs_state_scheme block_device_ops \<Rightarrow> nat \<Rightarrow> addr \<Rightarrow> ext2_inode \<Rightarrow> addr \<Rightarrow> u64 \<Rightarrow> u32 \<Rightarrow> 'a vfs_state_scheme \<Rightarrow> (ext2_inode \<times> 'a vfs_state_scheme) option" where
  "write_blocks io 0 fs ino buf stp i s = Some (ino, s)"
| "write_blocks io (Suc k) fs ino buf stp i s = do {
     (ret, ino, s) \<leftarrow> ext2_ino_write_block io fs ino buf i s;
     write_blocks io k fs ino (buf + stp) stp (i + 1) s
   }"

section \<open>Directories\<close>

text \<open>
  The search loop of \<open>ext2_dno_find\<close> looks at the first entry only: nothing in it moves on. A match is
  read after its release.
\<close>

partial_function (option) dno_find_loop :: "addr \<Rightarrow> addr \<Rightarrow> u64 \<Rightarrow> mem \<Rightarrow> bool option" where
  "dno_find_loop ent name limit m =
    (if \<not> (de_inode m ent \<noteq> 0 \<and> 0 < limit) then Some False
     else do {
       name_len \<leftarrow> strlen name m;
       let res = strncmp (ent + 8) name (min (ucast (de_name_len m ent)) name_len) m;
       if res = 0 \<and> (name_len = ucast (de_name_len m ent) \<or> name_len = 0) then Some True
       else dno_find_loop ent name limit m
     })"

definition ext2_dno_find :: "'a vfs_state_scheme block_device_ops \<Rightarrow> addr \<Rightarrow> ext2_inode \<Rightarrow> addr \<Rightarrow> 'a vfs_state_scheme \<Rightarrow> (int \<times> 'a vfs_state_scheme) option" where
  "ext2_dno_find io fs ino name s = do {
     let bs = e_block_size (ram s) fs;
     n_blocks \<leftarrow> dir_blocks (i_size ino) bs;
     (ent, s) \<leftarrow> kmalloc kmap (ucast bs * n_blocks) ALLOC_DMA s;
     if ent = NULL then Some (- ENOMEM, s)
     else do {
       let ino_num_blocks = (ucast (i_blocks ino) * bd_block_size (bdevs s (e_bdev (ram s) fs))) div ucast bs;
       (ret, s) \<leftarrow> read_blocks io (unat ino_num_blocks) fs ino ent ent (ucast bs) 0 s;
       if ret < 0 then Some (ret, s)
       else do {
         hit \<leftarrow> dno_find_loop ent name (ucast bs * n_blocks) (ram s);
         s \<leftarrow> kfree kmap ent s;
         if hit then None else Some (- ENOENT, s)
       }
     }
   }"

partial_function (option) find_by_name_loop :: "'a vfs_state_scheme block_device_ops \<Rightarrow> addr \<Rightarrow> ext2_inode \<Rightarrow> int \<Rightarrow> addr \<Rightarrow> addr \<Rightarrow> addr \<Rightarrow> 'a vfs_state_scheme \<Rightarrow> (int \<times> 'a vfs_state_scheme) option" where
  "find_by_name_loop io fs inode ret token delim llast s =
    (if token = NULL then Some (ret, s)
     else do {
       (ret, s) \<leftarrow> ext2_dno_find io fs inode token s;
       if ret < 0 then Some (ret, s)
       else do {
         (r, inode, s) \<leftarrow> ext2_read_inode io fs inode (of_int ret) s;
         (token, llast, m) \<leftarrow> strtok NULL delim llast (ram s);
         find_by_name_loop io fs inode ret token delim llast (s\<lparr>ram := m\<rparr>)
       }
     })"

text \<open>\<open>delim\<close> is the address of the string \<^verbatim>\<open>/\<close>.\<close>

definition ext2_ino_find_by_name :: "'a vfs_state_scheme block_device_ops \<Rightarrow> addr \<Rightarrow> addr \<Rightarrow> addr \<Rightarrow> 'a vfs_state_scheme \<Rightarrow> (int \<times> 'a vfs_state_scheme) option" where
  "ext2_ino_find_by_name io delim fs pathname s = do {
     (inode, s) \<leftarrow> kmalloc kmap 128 ALLOC_DMA s;
     assert_opt (inode \<noteq> NULL);
     (ret, ino, s) \<leftarrow> ext2_read_inode io fs (decode_inode (ram s) inode) 2 s;
     if ret < 0 then do { s \<leftarrow> kfree kmap inode s; Some (ret, s) }
     else do {
       n \<leftarrow> strlen pathname (ram s);
       (path_copy, s) \<leftarrow> kzalloc kmap (n + 1) ALLOC_KERN s;
       if path_copy = NULL then do { s \<leftarrow> kfree kmap inode s; Some (- ENOMEM, s) }
       else do {
         (d, m) \<leftarrow> strcpy path_copy pathname (ram s);
         (token, llast, m) \<leftarrow> strtok path_copy delim NULL m;
         (ret, s) \<leftarrow> find_by_name_loop io fs ino ret token delim llast (s\<lparr>ram := m\<rparr>);
         s \<leftarrow> kfree kmap path_copy s;
         s \<leftarrow> kfree kmap inode s;
         Some (ret, s)
       }
     }
   }"

partial_function (option) add_dirent_scan :: "mem \<Rightarrow> addr \<Rightarrow> u64 \<Rightarrow> u64 \<Rightarrow> addr \<Rightarrow> u64 \<Rightarrow> (addr \<times> u64) option" where
  "add_dirent_scan m ent limit this_len cur offset =
    (if \<not> (de_inode m cur \<noteq> 0 \<and> offset < limit) then Some (cur, offset)
     else let cur = ent + offset in
       if de_inode m cur = 0 \<and> ucast (de_rec_len m cur) \<le> this_len then Some (cur, offset)
       else add_dirent_scan m ent limit this_len cur (offset + ucast (de_rec_len m cur)))"

definition ext2_ino_add_dirent :: "'a vfs_state_scheme block_device_ops \<Rightarrow> addr \<Rightarrow> ext2_inode \<Rightarrow> addr \<Rightarrow> u32 \<Rightarrow> u8 \<Rightarrow> 'a vfs_state_scheme \<Rightarrow> (int \<times> ext2_inode \<times> 'a vfs_state_scheme) option" where
  "ext2_ino_add_dirent io fs ino name ino_num type s = do {
     let bs = (ucast (e_block_size (ram s) fs) :: u64);
     n_blocks \<leftarrow> dir_blocks (i_size ino) (e_block_size (ram s) fs);
     (ent, s) \<leftarrow> kzalloc kmap (bs * n_blocks) ALLOC_DMA s;
     if ent = NULL then Some (- ENOMEM, ino, s)
     else do {
       len \<leftarrow> strlen name (ram s);
       let this_len = 8 + len;
       (ret, s) \<leftarrow> read_blocks io (unat n_blocks) fs ino ent ent (8 * bs) 0 s;
       if ret < 0 then Some (ret, ino, s)
       else do {
         (cur, offset) \<leftarrow> add_dirent_scan (ram s) ent (bs * n_blocks) this_len ent 0;
         (n_blocks, ino, s) \<leftarrow>
           (if offset + len + 8 \<ge> bs * n_blocks then do {
              (moved, s) \<leftarrow> krealloc kmap ent ((n_blocks + 1) * bs) ALLOC_DMA s;
              assert_opt (moved = ent);
              let s = s\<lparr>ram := snd (memset (ent + 8 * (n_blocks * bs)) 0 bs (ram s))\<rparr>;
              (r, ino, s) \<leftarrow> ext2_ino_write_block io fs ino (ent + n_blocks) (ucast n_blocks) s;
              Some (n_blocks + 1, ino\<lparr>i_size := i_size ino + ucast bs\<rparr>, s)
            } else Some (n_blocks, ino, s));
         let m = store32 cur ino_num (ram s);
         let m = m(cur + 6 := ucast len);
         let m = store16 (cur + 4) (ucast (bs - offset)) m;
         let m = m(cur + 7 := type);
         let m = snd (memcpy (cur + 8) name (ucast (m (cur + 6))) m);
         let s = s\<lparr>ram := m\<rparr>;
         let starting_block = offset div bs;
         (ino, s) \<leftarrow> write_blocks io (unat n_blocks - unat starting_block) fs ino (ent + starting_block * bs) bs (ucast starting_block) s;
         s \<leftarrow> kfree kmap ent s;
         Some (0, ino, s)
       }
     }
   }"

text \<open>
  The loop of \<open>ext2_ino_del_dirent\<close> is entered with \<open>cur = NULL\<close>. Its body is modelled as it stands;
  a match ends it with 0, and the lock is then given back.
\<close>

definition del_dirent_unlink :: "addr \<Rightarrow> addr \<Rightarrow> addr \<Rightarrow> u64 \<Rightarrow> u64 \<Rightarrow> mem \<Rightarrow> mem" where
  "del_dirent_unlink ent cur prev limit offset m =
    (let m = store32 cur 0 m;
         m = m(cur + 6 := 0, cur + 7 := 0)
     in if prev \<noteq> NULL then
          (let m = store16 (prev + 4) (de_rec_len m prev + de_rec_len m cur) m in store16 (cur + 4) 0 m)
        else
          (let next = cur + ucast (de_rec_len m cur);
               m = store16 (next + 4) (de_rec_len m next + de_rec_len m cur) m
           in if de_inode m next = 0 then store16 (cur + 4) (ucast (limit - offset)) m else m))"

partial_function (option) del_dirent_loop :: "'a vfs_state_scheme block_device_ops \<Rightarrow> addr \<Rightarrow> ext2_inode \<Rightarrow> addr \<Rightarrow> addr \<Rightarrow> u64 \<Rightarrow> u64 \<Rightarrow> addr \<Rightarrow> addr \<Rightarrow> u64 \<Rightarrow> 'a vfs_state_scheme \<Rightarrow> (int \<times> ext2_inode \<times> 'a vfs_state_scheme) option" where
  "del_dirent_loop io fs ino name ent bs n_blocks cur prev offset s =
    (if \<not> (cur \<noteq> NULL \<and> offset < bs * n_blocks \<and> de_inode (ram s) cur \<noteq> 0) then Some (- ENOENT, ino, s)
     else let cur = ent + offset in
       if strncmp (cur + 8) name (ucast (de_name_len (ram s) cur)) (ram s) = 0 then do {
         let s = s\<lparr>ram := del_dirent_unlink ent cur prev (bs * n_blocks) offset (ram s)\<rparr>;
         let starting_block = offset div bs;
         (ino, s) \<leftarrow> write_blocks io (unat n_blocks - unat starting_block) fs ino (ent + starting_block * bs) bs (ucast starting_block) s;
         Some (0, ino, s)
       }
       else del_dirent_loop io fs ino name ent bs n_blocks cur cur (offset + ucast (de_rec_len (ram s) cur)) s)"

definition ext2_ino_del_dirent :: "'a vfs_state_scheme block_device_ops \<Rightarrow> addr \<Rightarrow> ext2_inode \<Rightarrow> addr \<Rightarrow> 'a vfs_state_scheme \<Rightarrow> (int \<times> ext2_inode \<times> 'a vfs_state_scheme) option" where
  "ext2_ino_del_dirent io fs ino name s = do {
     let bs = (ucast (e_block_size (ram s) fs) :: u64);
     n_blocks \<leftarrow> dir_blocks (i_size ino) (e_block_size (ram s) fs);
     (ent, s) \<leftarrow> kmalloc kmap (bs * n_blocks) ALLOC_DMA s;
     if ent = NULL then Some (- ENOMEM, ino, s)
     else do {
       (ret, s) \<leftarrow> read_blocks io (unat n_blocks) fs ino ent ent (8 * bs) 0 s;
       if ret < 0 then Some (ret, ino, s)
       else do {
         s \<leftarrow> lock_fs fs s;
         (ret, ino, s) \<leftarrow> del_dirent_loop io fs ino name ent bs n_blocks NULL NULL 0 s;
         Some (ret, ino, unlock_fs fs s)
       }
     }
   }"

definition ino_type_to_dent :: "u32 \<Rightarrow> int" where
  "ino_type_to_dent ino_flags =
    (let t = ino_flags AND 0xF000 in
     if t = EXT2_INO_REG then EXT2_DE_FILE
     else if t = EXT2_INO_DIR then EXT2_DE_DIR
     else if t = EXT2_INO_CHARDEV then EXT2_DE_CHRDEV
     else if t = EXT2_INO_BLKDEV then EXT2_DE_BLKDEV
     else if t = EXT2_INO_FIFO then EXT2_DE_FIFO
     else if t = EXT2_INO_SOCK then EXT2_DE_SOCK
     else if t = EXT2_INO_SYMLINK then EXT2_DE_SYMLINK
     else - 1)"

section \<open>Opening a vnode\<close>

text \<open>The bytes of the \<open>struct dirent\<close> made from a directory entry on disk.\<close>

definition dentry_bytes :: "mem \<Rightarrow> addr \<Rightarrow> u8 list" where
  "dentry_bytes m e =
    (let n = unat (de_name_len m e) in
     bytes32 (de_inode m e) @ replicate 6 0 @ [de_file_type m e]
       @ bytes_at m (e + 8) n @ replicate (256 - n) 0 @ replicate 13 0)"

partial_function (option) read_dirs_loop :: "addr \<Rightarrow> addr \<Rightarrow> u64 \<Rightarrow> u64 \<Rightarrow> 'a vfs_state_scheme \<Rightarrow> (int \<times> 'a vfs_state_scheme) option" where
  "read_dirs_loop vno entry_buf limit offset s =
    (if \<not> offset < limit then Some (0, s)
     else do {
       let e = entry_buf + offset;
       if de_inode (ram s) e = 0 \<or> de_name_len (ram s) e = 0 then Some (0, s)
       else do {
         let dentry = dentry_bytes (ram s) e;
         let n = v_num_dirents (vnodes s vno);
         (ents, s) \<leftarrow> krealloc kmap (v_dirents (vnodes s vno)) ((n + 1) * dirent_size) ALLOC_KERN s;
         let s = upd_vnode vno (v_dirents_update (\<lambda>_. ents)) s;
         if ents = NULL then Some (- ENOMEM, s)
         else do {
           let s = s\<lparr>ram := put_bytes (ram s) (dirent_at ents n) dentry\<rparr>;
           let s = upd_vnode vno (v_num_dirents_update (\<lambda>n. n + 1)) s;
           read_dirs_loop vno entry_buf limit (offset + ucast (de_rec_len (ram s) e)) s
         }
       }
     })"

definition ext2_vno_read_dirs :: "'a vfs_state_scheme block_device_ops \<Rightarrow> addr \<Rightarrow> ext2_inode \<Rightarrow> addr \<Rightarrow> 'a vfs_state_scheme \<Rightarrow> (int \<times> 'a vfs_state_scheme) option" where
  "ext2_vno_read_dirs io fs inode vno s = do {
     let bs = (ucast (e_block_size (ram s) fs) :: u64);
     n_blocks \<leftarrow> dir_blocks (i_size inode) (e_block_size (ram s) fs);
     (entry_buf, s) \<leftarrow> kmalloc kmap (bs * n_blocks) ALLOC_DMA s;
     if entry_buf = NULL then Some (- ENOMEM, s)
     else do {
       (ret, s) \<leftarrow> read_blocks io (unat n_blocks) fs inode entry_buf entry_buf bs 0 s;
       if ret < 0 then Some (ret, s)
       else do {
         (ret, s) \<leftarrow> read_dirs_loop vno entry_buf (bs * n_blocks) 0 s;
         s \<leftarrow> kfree kmap entry_buf s;
         Some (ret, s)
       }
     }
   }"

definition ext2_open_vno :: "'a vfs_state_scheme block_device_ops \<Rightarrow> addr \<Rightarrow> addr \<Rightarrow> u32 \<Rightarrow> 'a vfs_state_scheme \<Rightarrow> (int \<times> 'a vfs_state_scheme) option" where
  "ext2_open_vno io vfs vno ino_num s = do {
     let fs = fs_fs (fss s vfs);
     (res, inode, s) \<leftarrow> ext2_read_inode io fs zero_inode ino_num s;
     if res < 0 then Some (res, s)
     else do {
       let s = upd_vnode vno (\<lambda>v. v\<lparr>v_flags := ucast (i_mode inode), v_uid := ucast (i_uid inode),
         v_gid := ucast (i_gid inode), v_size := i_size inode, v_ino_num := ino_num, v_fs := vfs,
         v_ptr := NULL, v_next := NULL\<rparr>) s;
       if ucast (i_mode inode) AND EXT2_INO_DIR \<noteq> 0 then do {
         (res, s) \<leftarrow> ext2_vno_read_dirs io fs inode vno s;
         if res < 0 then Some (res, s) else Some (0, s)
       }
       else Some (0, s)
     }
   }"

section \<open>Reading and writing files\<close>

text \<open>A \<open>size_t\<close> count returned as \<open>int\<close>.\<close>

definition as_int :: "u64 \<Rightarrow> int" where
  "as_int n = sint (ucast n :: u32)"

definition ext2_read_file :: "'a vfs_state_scheme block_device_ops \<Rightarrow> addr \<Rightarrow> addr \<Rightarrow> u64 \<Rightarrow> u64 \<Rightarrow> 'a vfs_state_scheme \<Rightarrow> (int \<times> 'a vfs_state_scheme) option" where
  "ext2_read_file io vno buf offset sz s = do {
     let extfs = fs_fs (fss s (v_fs (vnodes s vno)));
     (res, inode, s) \<leftarrow> ext2_read_inode io extfs zero_inode (v_ino_num (vnodes s vno)) s;
     if res < 0 then Some (res, s)
     else if offset > ucast (i_size inode) then Some (- EINVAL, s)
     else do {
       let sz = (if offset + sz > ucast (i_size inode) then ucast (i_size inode) - offset else sz);
       let bs = (ucast (e_block_size (ram s) extfs) :: u64);
       assert_opt (bs \<noteq> 0);
       let first_block = offset div bs;
       let last_block = (offset + sz) div bs;
       let n_blocks_read = last_block - first_block + 1;
       (block_buf, s) \<leftarrow> kmalloc kmap (n_blocks_read * bs) ALLOC_DMA s;
       if block_buf = NULL then Some (- ENOMEM, s)
       else do {
         (ret, s) \<leftarrow> read_blocks io (Suc (unat last_block) - unat first_block) extfs inode block_buf
           (block_buf + first_block * bs) bs (ucast first_block) s;
         if ret < 0 then Some (as_int (of_int ret), s)
         else do {
           let s = s\<lparr>ram := snd (memcpy buf (block_buf + offset mod bs) sz (ram s))\<rparr>;
           s \<leftarrow> kfree kmap block_buf s;
           Some (as_int sz, s)
         }
       }
     }
   }"

primrec read_blocks_new :: "'a vfs_state_scheme block_device_ops \<Rightarrow> nat \<Rightarrow> addr \<Rightarrow> ext2_inode \<Rightarrow> addr \<Rightarrow> u64 \<Rightarrow> u32 \<Rightarrow> 'a vfs_state_scheme \<Rightarrow> (int \<times> 'a vfs_state_scheme) option" where
  "read_blocks_new io 0 fs ino buf bs i s = Some (0, s)"
| "read_blocks_new io (Suc k) fs ino buf bs i s = do {
     (ret, ino, s) \<leftarrow> ext2_ino_read_block io fs ino buf i s;
     if ret < 0 \<and> ret \<noteq> - ENOENT then Some (ret, s)
     else read_blocks_new io k fs ino (buf + bs) bs (i + 1) s
   }"

primrec write_blocks_all :: "'a vfs_state_scheme block_device_ops \<Rightarrow> nat \<Rightarrow> addr \<Rightarrow> ext2_inode \<Rightarrow> addr \<Rightarrow> u64 \<Rightarrow> u32 \<Rightarrow> 'a vfs_state_scheme \<Rightarrow> (int \<times> 'a vfs_state_scheme) option" where
  "write_blocks_all io 0 fs ino buf bs i s = Some (0, s)"
| "write_blocks_all io (Suc k) fs ino buf bs i s = do {
     (ret, ino, s) \<leftarrow> ext2_ino_write_block io fs ino buf i s;
     if ret < 0 then Some (ret, s)
     else write_blocks_all io k fs ino (buf + bs) bs (i + 1) s
   }"

definition ext2_write_file :: "'a vfs_state_scheme block_device_ops \<Rightarrow> addr \<Rightarrow> addr \<Rightarrow> u64 \<Rightarrow> u64 \<Rightarrow> 'a vfs_state_scheme \<Rightarrow> (int \<times> 'a vfs_state_scheme) option" where
  "ext2_write_file io vno buf offset sz s = do {
     let extfs = fs_fs (fss s (v_fs (vnodes s vno)));
     (res, inode, s) \<leftarrow> ext2_read_inode io extfs zero_inode (v_ino_num (vnodes s vno)) s;
     if res < 0 then Some (res, s)
     else do {
       let inode = (if offset + sz > ucast (i_size inode) then inode\<lparr>i_size := ucast (offset + sz)\<rparr> else inode);
       let bs = (ucast (e_block_size (ram s) extfs) :: u64);
       assert_opt (bs \<noteq> 0);
       let first_block = offset div bs;
       let last_block = (offset + sz) div bs;
       let n_blocks_read = last_block - first_block + 1;
       let k = Suc (unat last_block) - unat first_block;
       (block_buf, s) \<leftarrow> kzalloc kmap (n_blocks_read * bs) ALLOC_DMA s;
       if block_buf = NULL then Some (- ENOMEM, s)
       else do {
         (ret, s) \<leftarrow> read_blocks_new io k extfs inode (block_buf + first_block * bs) bs (ucast first_block) s;
         if ret < 0 then do { s \<leftarrow> kfree kmap block_buf s; Some (as_int (of_int ret), s) }
         else do {
           let s = s\<lparr>ram := snd (memcpy (block_buf + offset mod bs) buf sz (ram s))\<rparr>;
           (ret, s) \<leftarrow> write_blocks_all io k extfs inode (block_buf + first_block * bs) bs (ucast first_block) s;
           s \<leftarrow> kfree kmap block_buf s;
           Some (if ret < 0 then as_int (of_int ret) else as_int sz, s)
         }
       }
     }
   }"

section \<open>Removing and creating files\<close>

definition ext2_unlink_file :: "'a vfs_state_scheme block_device_ops \<Rightarrow> addr \<Rightarrow> addr \<Rightarrow> 'a vfs_state_scheme \<Rightarrow> (int \<times> 'a vfs_state_scheme) option" where
  "ext2_unlink_file io parent name s = do {
     let extfs = fs_fs (fss s (v_fs (vnodes s parent)));
     n \<leftarrow> strlen name (ram s);
     (name_cpy, s) \<leftarrow> kzalloc kmap (n + 1) ALLOC_KERN s;
     if name_cpy = NULL then Some (- ENOMEM, s)
     else do {
       (d, m) \<leftarrow> strcpy name_cpy name (ram s);
       (res, inode, s) \<leftarrow> ext2_read_inode io extfs zero_inode (v_ino_num (vnodes s parent)) (s\<lparr>ram := m\<rparr>);
       if res < 0 then Some (res, s)
       else do {
         (res, inode, s) \<leftarrow> ext2_ino_del_dirent io extfs inode name_cpy s;
         if res < 0 then Some (res, s) else Some (0, s)
       }
     }
   }"

definition ext2_create_file :: "'a vfs_state_scheme block_device_ops \<Rightarrow> addr \<Rightarrow> addr \<Rightarrow> u32 \<Rightarrow> 'a vfs_state_scheme \<Rightarrow> (int \<times> 'a vfs_state_scheme) option" where
  "ext2_create_file io parent name mode s = do {
     let extfs = fs_fs (fss s (v_fs (vnodes s parent)));
     n \<leftarrow> strlen name (ram s);
     (name_cpy, s) \<leftarrow> kzalloc kmap (n + 1) ALLOC_KERN s;
     if name_cpy = NULL then Some (- ENOMEM, s)
     else do {
       (d, m) \<leftarrow> strcpy name_cpy name (ram s);
       (res, inode, s) \<leftarrow> ext2_read_inode io extfs zero_inode (v_ino_num (vnodes s parent)) (s\<lparr>ram := m\<rparr>);
       if res < 0 then Some (res, s)
       else do {
         (ret, s) \<leftarrow> ext2_dno_find io extfs inode name_cpy s;
         if ret \<ge> 0 then Some (- EEXIST, s)
         else do {
           (ret, s) \<leftarrow> ext2_alloc_inode io extfs s;
           if ret < 0 then Some (ret, s)
           else do {
             (res, s) \<leftarrow> ext2_write_inode io extfs (zero_inode\<lparr>i_mode := ucast mode\<rparr>) (of_int ret) s;
             if res < 0 then Some (res, s)
             else do {
               (res, inode, s) \<leftarrow> ext2_ino_add_dirent io extfs inode name_cpy (of_int ret) (of_int (ino_type_to_dent mode)) s;
               if res < 0 then Some (res, s) else Some (0, s)
             }
           }
         }
       }
     }
   }"

section \<open>Mounting\<close>

definition ext2_init_fs :: "'a vfs_state_scheme block_device_ops \<Rightarrow> addr \<Rightarrow> 'a vfs_state_scheme \<Rightarrow> (addr \<times> 'a vfs_state_scheme) option" where
  "ext2_init_fs io bdev s = do {
     (extfs, s) \<leftarrow> kmalloc kmap 280 ALLOC_KERN s;
     if extfs = NULL then Some (NULL, s)
     else do {
       (r, s) \<leftarrow> ext2_read_super io bdev extfs s;
       if r < 0 then do { s \<leftarrow> kfree kmap extfs s; Some (NULL, s) }
       else do {
         let m = store64 (extfs + 240) bdev (ram s);
         let bs = push_bit (unat (sb_log_block_size m extfs)) 1024;
         let m = store32 (extfs + 272) bs m;
         let m = store32 (extfs + 268) (bs div 4) m;
         let s = upd_bdev bdev (bd_fs_update (\<lambda>_. extfs)) (s\<lparr>ram := m\<rparr>);
         n \<leftarrow> num_groups (ram s) extfs;
         let bgdt_block = 2 + sb_first_data_block (ram s) extfs div sb_blocks_per_group (ram s) extfs;
         let bgdt_size = n * 32;
         (buf, s) \<leftarrow> kmalloc kmap (ucast bgdt_size) ALLOC_DMA s;
         (r, s) \<leftarrow> ext2_read_block io (bd_fs (bdevs s bdev)) buf (ucast bgdt_block) s;
         (bgdt, s) \<leftarrow> kmalloc kmap (ucast bgdt_size) ALLOC_KERN s;
         assert_opt (buf \<noteq> NULL \<and> bgdt \<noteq> NULL \<and> bs \<noteq> 0);
         let m = store64 (extfs + 256) bgdt (ram s);
         let m = store32 (extfs + 248) bgdt_block m;
         let m = store32 (extfs + 252) (ucast (npow2 (ucast bgdt_size) div ucast bs)) m;
         let s = s\<lparr>ram := snd (memcpy bgdt buf (ucast bgdt_size) m)\<rparr>;
         s \<leftarrow> kfree kmap buf s;
         (ret, s) \<leftarrow> vfs_create s;
         assert_opt (ret \<noteq> NULL);
         let s = upd_fs ret (\<lambda>f. f\<lparr>fs_fs := extfs, fs_type := FS_TYPE_EXT2\<rparr>) s;
         (tbl, s) \<leftarrow> kmalloc kmap 40 ALLOC_KERN s;
         let s = s\<lparr>ext2_ops := tbl\<rparr>;
         if tbl = NULL then do {
           s \<leftarrow> kfree kmap (e_bgdt (ram s) extfs) s;
           s \<leftarrow> kfree kmap extfs s;
           Some (NULL, s)
         }
         else do {
           let s = s\<lparr>fs_opss := (fs_opss s)(tbl := \<lparr>fo_read = Ext2_impl, fo_write = Ext2_impl,
             fo_unlink = Ext2_impl, fo_creat = Ext2_impl, fo_open_vno = Ext2_impl\<rparr>)\<rparr>;
           let s = upd_fs ret (fs_ops_ptr_update (\<lambda>_. tbl)) s;
           (root_inode, s) \<leftarrow> kmalloc kmap 128 ALLOC_DMA s;
           if root_inode = NULL then do {
             s \<leftarrow> kfree kmap (ext2_ops s) s;
             s \<leftarrow> kfree kmap (e_bgdt (ram s) extfs) s;
             s \<leftarrow> kfree kmap extfs s;
             Some (NULL, s)
           }
           else do {
             (r, ino, s) \<leftarrow> ext2_read_inode io (fs_fs (fss s ret)) (decode_inode (ram s) root_inode) EXT2_ROOT_INO s;
             (root, s) \<leftarrow> vfs_create_vno s;
             let s = upd_fs ret (fs_root_update (\<lambda>_. root)) s;
             if root = NULL then do {
               s \<leftarrow> kfree kmap ret s;
               s \<leftarrow> kfree kmap root_inode s;
               s \<leftarrow> kfree kmap (ext2_ops s) s;
               s \<leftarrow> kfree kmap (e_bgdt (ram s) extfs) s;
               s \<leftarrow> kfree kmap extfs s;
               Some (NULL, s)
             }
             else do {
               let s = upd_vnode root (\<lambda>v. v\<lparr>v_name := (v_name v)[0 := 47], v_fs := ret, v_size := i_size ino,
                 v_uid := ucast (i_uid ino), v_gid := ucast (i_gid ino), v_flags := ucast (i_mode ino),
                 v_ino_num := EXT2_ROOT_INO, v_no_free := True\<rparr>) s;
               (r, s) \<leftarrow> ext2_vno_read_dirs io extfs ino root s;
               Some (ret, s)
             }
           }
         }
       }
     }
   }"

end
