(* ===== verification/Vfs.thy ===== *)
theory Vfs
  imports Ext2
begin

unbundle bit_operations_syntax

text \<open>
  \<^verbatim>\<open>fs/vfs.c\<close>: path lookup, open files, reading and writing, device nodes and mounting. A call through the operation table of a file
  system is a case distinction over the file systems that exist. The drivers behind block devices and
  the serial line are the argument \<open>dr\<close>. The pointer through which a function reports an error is an \<open>int option\<close> in the
  result: \<open>None\<close> if nothing is written. String constants of the code are addresses given as arguments (\<open>delim\<close> is \<^verbatim>\<open>/\<close>).
\<close>

record 's drivers =
  d_disk :: "'s block_device_ops"
  d_tty :: "'s block_device_ops"

section \<open>Operation tables\<close>

definition ops_of :: "addr \<Rightarrow> 'a vfs_state_scheme \<Rightarrow> fs_ops" where
  "ops_of f s = fs_opss s (fs_ops_ptr (fss s f))"

text \<open>
  \<open>devfs_read\<close> and \<open>devfs_write\<close>. For a block device the functions stored are \<open>block_read\<close> and \<open>block_write\<close>, but they are given
  the \<open>devfs_dev_info\<close> in place of a block device; its second word, taken as the driver's function, is
  that same function again, so the call never ends.
\<close>

definition devfs_read :: "'a vfs_state_scheme drivers \<Rightarrow> addr \<Rightarrow> addr \<Rightarrow> u64 \<Rightarrow> u64 \<Rightarrow> 'a vfs_state_scheme \<Rightarrow> (int \<times> 'a vfs_state_scheme) option" where
  "devfs_read dr vno buf offset sz s =
    (let p = v_priv_data (vnodes s vno) in
     if p = NULL then Some (- EINVAL, s)
     else case di_impl (dev_infos s p) of
         Block_impl \<Rightarrow> None
       | Serial_impl \<Rightarrow> op_read (d_tty dr) p buf offset sz s)"

definition devfs_write :: "'a vfs_state_scheme drivers \<Rightarrow> addr \<Rightarrow> addr \<Rightarrow> u64 \<Rightarrow> u64 \<Rightarrow> 'a vfs_state_scheme \<Rightarrow> (int \<times> 'a vfs_state_scheme) option" where
  "devfs_write dr vno buf offset sz s =
    (let p = v_priv_data (vnodes s vno) in
     if p = NULL then Some (- EINVAL, s)
     else case di_impl (dev_infos s p) of
         Block_impl \<Rightarrow> None
       | Serial_impl \<Rightarrow> op_write (d_tty dr) p buf offset sz s)"

definition devfs_unlink :: "addr \<Rightarrow> addr \<Rightarrow> int" where
  "devfs_unlink parent name = - EINVAL"

definition devfs_open_vno :: "addr \<Rightarrow> addr \<Rightarrow> u32 \<Rightarrow> int" where
  "devfs_open_vno f vno ino_num = - EINVAL"

definition call_open_vno :: "'a vfs_state_scheme drivers \<Rightarrow> addr \<Rightarrow> addr \<Rightarrow> u32 \<Rightarrow> 'a vfs_state_scheme \<Rightarrow> (int \<times> 'a vfs_state_scheme) option" where
  "call_open_vno dr f vno ino_num s = (case fo_open_vno (ops_of f s) of
     No_impl \<Rightarrow> None
   | Ext2_impl \<Rightarrow> ext2_open_vno (d_disk dr) f vno ino_num s
   | Devfs_impl \<Rightarrow> Some (devfs_open_vno f vno ino_num, s))"

definition call_read :: "'a vfs_state_scheme drivers \<Rightarrow> addr \<Rightarrow> addr \<Rightarrow> u64 \<Rightarrow> u64 \<Rightarrow> 'a vfs_state_scheme \<Rightarrow> (int \<times> 'a vfs_state_scheme) option" where
  "call_read dr vno buf offset sz s = (case fo_read (ops_of (v_fs (vnodes s vno)) s) of
     No_impl \<Rightarrow> None
   | Ext2_impl \<Rightarrow> ext2_read_file (d_disk dr) vno buf offset sz s
   | Devfs_impl \<Rightarrow> devfs_read dr vno buf offset sz s)"

definition call_write :: "'a vfs_state_scheme drivers \<Rightarrow> addr \<Rightarrow> addr \<Rightarrow> u64 \<Rightarrow> u64 \<Rightarrow> 'a vfs_state_scheme \<Rightarrow> (int \<times> 'a vfs_state_scheme) option" where
  "call_write dr vno buf offset sz s = (case fo_write (ops_of (v_fs (vnodes s vno)) s) of
     No_impl \<Rightarrow> None
   | Ext2_impl \<Rightarrow> ext2_write_file (d_disk dr) vno buf offset sz s
   | Devfs_impl \<Rightarrow> devfs_write dr vno buf offset sz s)"

definition call_creat :: "'a vfs_state_scheme drivers \<Rightarrow> addr \<Rightarrow> addr \<Rightarrow> u32 \<Rightarrow> 'a vfs_state_scheme \<Rightarrow> (int \<times> 'a vfs_state_scheme) option" where
  "call_creat dr parent name mode s = (case fo_creat (ops_of (v_fs (vnodes s parent)) s) of
     Ext2_impl \<Rightarrow> ext2_create_file (d_disk dr) parent name mode s
   | _ \<Rightarrow> None)"

section \<open>Reference counts\<close>

text \<open>The entry of the parent that points to a vnode is cleared when the vnode goes.\<close>

primrec clear_dirent_vnode :: "nat \<Rightarrow> addr \<Rightarrow> addr \<Rightarrow> mem \<Rightarrow> mem" where
  "clear_dirent_vnode 0 d vno m = m"
| "clear_dirent_vnode (Suc k) d vno m =
    (if d_vnode m d = vno then set_d_vnode d NULL m else clear_dirent_vnode k (d + dirent_size) vno m)"

text \<open>
  \<open>vfs_vnode_dec_ref\<close> and \<open>vfs_vnode_dealloc\<close> call each other up the tree; the first is defined with the body of the second in place.
  A lock that is taken and given back leaves the state as it was; it must be free.
\<close>

partial_function (option) vfs_vnode_dec_ref :: "addr \<Rightarrow> 'a vfs_state_scheme \<Rightarrow> 'a vfs_state_scheme option" where
  "vfs_vnode_dec_ref vno s =
    (if vno = NULL \<or> v_no_free (vnodes s vno) then Some s
     else do {
       l \<leftarrow> spinlock_acquire (v_lock (vnodes s vno));
       let s = upd_vnode vno (v_refcount_update (\<lambda>n. n - 1)) s;
       if v_refcount (vnodes s vno) \<noteq> 0 then Some s
       else do {
         let parent = v_parent (vnodes s vno);
         s \<leftarrow> (if parent \<noteq> NULL then do {
                l \<leftarrow> spinlock_acquire (v_lock (vnodes s parent));
                let s = s\<lparr>ram := clear_dirent_vnode (unat (v_num_dirents (vnodes s parent))) (v_dirents (vnodes s parent)) vno (ram s)\<rparr>;
                vfs_vnode_dec_ref parent s
              } else Some s);
         s \<leftarrow> attempt_free (v_dirents (vnodes s vno)) s;
         let s = upd_vnode vno (v_dirents_update (\<lambda>_. NULL)) s;
         slab_free kmap (vnode_slab s) vno s
       }
     })"

definition vfs_vnode_dealloc :: "addr \<Rightarrow> 'a vfs_state_scheme \<Rightarrow> 'a vfs_state_scheme option" where
  "vfs_vnode_dealloc vno s =
    (if vno = NULL \<or> v_no_free (vnodes s vno) then Some s
     else do {
       let parent = v_parent (vnodes s vno);
       s \<leftarrow> (if parent \<noteq> NULL then do {
              l \<leftarrow> spinlock_acquire (v_lock (vnodes s parent));
              let s = s\<lparr>ram := clear_dirent_vnode (unat (v_num_dirents (vnodes s parent))) (v_dirents (vnodes s parent)) vno (ram s)\<rparr>;
              vfs_vnode_dec_ref parent s
            } else Some s);
       s \<leftarrow> attempt_free (v_dirents (vnodes s vno)) s;
       let s = upd_vnode vno (v_dirents_update (\<lambda>_. NULL)) s;
       slab_free kmap (vnode_slab s) vno s
     })"

section \<open>Lookup\<close>

primrec find_dirent :: "nat \<Rightarrow> addr \<Rightarrow> addr \<Rightarrow> mem \<Rightarrow> addr option" where
  "find_dirent 0 d tok m = Some NULL"
| "find_dirent (Suc k) d tok m = do {
     r \<leftarrow> strcmp (d_name d) tok m;
     if r = 0 then Some d else find_dirent k (d + dirent_size) tok m
   }"

text \<open>
  One component: the entry \<open>d\<close> was found in \<open>cur\<close>. The result is an error or the next vnode with its file system.
\<close>

definition lookup_enter :: "'a vfs_state_scheme drivers \<Rightarrow> addr \<Rightarrow> addr \<Rightarrow> addr \<Rightarrow> 'a vfs_state_scheme \<Rightarrow> ((int + addr \<times> addr) \<times> 'a vfs_state_scheme) option" where
  "lookup_enter dr f cur d s =
    (if d_vnode (ram s) d \<noteq> NULL then do {
       let v = d_vnode (ram s) d;
       let (f, v) = (if v_mount_ptr (vnodes s v) then (v_fs (vnodes s (v_ptr (vnodes s v))), v_ptr (vnodes s v)) else (f, v));
       l \<leftarrow> spinlock_acquire (v_lock (vnodes s v));
       Some (Inr (v, f), upd_vnode v (v_refcount_update (\<lambda>n. n + 1)) s)
     }
     else do {
       (v, s) \<leftarrow> slab_alloc kmap (vnode_slab s) s;
       if v = NULL then Some (Inl (- ENOMEM), s)
       else do {
         let s = upd_vnode v (\<lambda>_. zero_vnode\<lparr>v_refcount := 1, v_parent := cur\<rparr>) s;
         (res, s) \<leftarrow> call_open_vno dr f v (ucast (d_inode (ram s) d)) s;
         if res < 0 then do { s \<leftarrow> slab_free kmap (vnode_slab s) v s; Some (Inl res, s) }
         else Some (Inr (v, f), s\<lparr>ram := set_d_vnode d v (ram s)\<rparr>)
       }
     })"

partial_function (option) vfs_lookup_loop :: "'a vfs_state_scheme drivers \<Rightarrow> addr \<Rightarrow> addr \<Rightarrow> addr \<Rightarrow> addr \<Rightarrow> addr \<Rightarrow> 'a vfs_state_scheme \<Rightarrow> (addr \<times> int option \<times> 'a vfs_state_scheme) option" where
  "vfs_lookup_loop dr delim f cur tok tok_last s = do {
     fin \<leftarrow> strempty tok (ram s);
     if fin then Some (cur, None, s)
     else do {
       d \<leftarrow> find_dirent (unat (v_num_dirents (vnodes s cur))) (v_dirents (vnodes s cur)) tok (ram s);
       if d = NULL then do {
         s \<leftarrow> vfs_vnode_dec_ref cur s;
         Some (NULL, Some (- ENOENT), s)
       }
       else do {
         (r, s) \<leftarrow> lookup_enter dr f cur d s;
         case r of
           Inl e \<Rightarrow> Some (NULL, Some e, s)
         | Inr (v, f) \<Rightarrow> do {
             (tok, tok_last, m) \<leftarrow> strtok NULL delim tok_last (ram s);
             vfs_lookup_loop dr delim f v tok tok_last (s\<lparr>ram := m\<rparr>)
           }
       }
     }
   }"

definition vfs_lookup :: "'a vfs_state_scheme drivers \<Rightarrow> addr \<Rightarrow> addr \<Rightarrow> 'a vfs_state_scheme \<Rightarrow> (addr \<times> int option \<times> 'a vfs_state_scheme) option" where
  "vfs_lookup dr delim name s = do {
     n \<leftarrow> strlen name (ram s);
     (path_copy, s) \<leftarrow> kzalloc kmap (n + 1) ALLOC_KERN s;
     assert_opt (path_copy \<noteq> NULL);
     (x, m) \<leftarrow> strcpy path_copy name (ram s);
     (tok, tok_last, m) \<leftarrow> strtok path_copy delim NULL m;
     (v, err, s) \<leftarrow> vfs_lookup_loop dr delim (rootfs s) (fs_root (fss s (rootfs s))) tok tok_last (s\<lparr>ram := m\<rparr>);
     s \<leftarrow> kfree kmap path_copy s;
     Some (v, err, s)
   }"

section \<open>Open files\<close>

primrec leading_slashes :: "nat \<Rightarrow> addr \<Rightarrow> mem \<Rightarrow> nat" where
  "leading_slashes 0 p m = 0"
| "leading_slashes (Suc k) p m = (if m p = 47 then Suc (leading_slashes k (p + 1) m) else 0)"

definition vfs_open :: "'a vfs_state_scheme drivers \<Rightarrow> addr \<Rightarrow> addr \<Rightarrow> 'a vfs_state_scheme \<Rightarrow> (addr \<times> int option \<times> 'a vfs_state_scheme) option" where
  "vfs_open dr delim pathname s = do {
     (file, s) \<leftarrow> slab_alloc kmap (file_slab s) s;
     if file = NULL then Some (NULL, None, s)
     else do {
       let s = s\<lparr>files := (files s)(file := zero_file)\<rparr>;
       assert_opt (pathname \<noteq> NULL);
       n \<leftarrow> strlen pathname (ram s);
       let len = nat (sint (ucast n :: u32));
       let inc = leading_slashes len pathname (ram s);
       let pathname = (if inc < len then pathname + of_nat inc else pathname);
       (vno, err, s) \<leftarrow> vfs_lookup dr delim pathname s;
       if vno = NULL then do {
         s \<leftarrow> slab_free kmap (file_slab s) file s;
         Some (NULL, err, s)
       }
       else
         let v = vnodes s vno in
         Some (file, err, s\<lparr>files := (files s)(file := (files s file)\<lparr>f_vnode := vno,
           f_type := v_flags v AND VFS_VTYPE_MASK, f_size := ucast (v_size v), f_ino_num := v_ino_num v\<rparr>)\<rparr>)
     }
   }"

definition vfs_close :: "addr \<Rightarrow> 'a vfs_state_scheme \<Rightarrow> (int \<times> 'a vfs_state_scheme) option" where
  "vfs_close file s =
    (if file = NULL then Some (- EBADF, s)
     else do {
       s \<leftarrow> vfs_vnode_dec_ref (f_vnode (files s file)) s;
       s \<leftarrow> slab_free kmap (file_slab s) file s;
       Some (0, s)
     })"

definition vfs_write :: "'a vfs_state_scheme drivers \<Rightarrow> addr \<Rightarrow> addr \<Rightarrow> u64 \<Rightarrow> u64 \<Rightarrow> 'a vfs_state_scheme \<Rightarrow> (int \<times> 'a vfs_state_scheme) option" where
  "vfs_write dr file buf off count s =
    (let vno = f_vnode (files s file); v = vnodes s vno in
     if v_flags v AND VFS_VTYPE_MASK = VFS_VNO_DIR then Some (- EISDIR, s)
     else if v_flags v AND VFS_VNO_FIFO \<noteq> 0 then do {
       let p = v_priv_data v;
       (n, rb, m) \<leftarrow> ringbuf_write (ringbufs s p) buf count (ram s);
       Some (sint n, s\<lparr>ram := m, ringbufs := (ringbufs s)(p := rb)\<rparr>)
     }
     else call_write dr vno buf off count s)"

definition vfs_read :: "'a vfs_state_scheme drivers \<Rightarrow> addr \<Rightarrow> addr \<Rightarrow> u64 \<Rightarrow> u64 \<Rightarrow> 'a vfs_state_scheme \<Rightarrow> (int \<times> 'a vfs_state_scheme) option" where
  "vfs_read dr file buf off count s =
    (let vno = f_vnode (files s file); v = vnodes s vno; size_v = ucast (v_size v) :: u64 in
     if v_flags v AND VFS_VTYPE_MASK = VFS_VNO_DIR then Some (- EISDIR, s)
     else if off \<ge> size_v \<and> f_type (files s file) = VFS_VNO_REG then Some (0, s)
     else if v_flags v AND VFS_VNO_FIFO \<noteq> 0 then do {
       let p = v_priv_data v;
       (n, rb, m) \<leftarrow> ringbuf_read (ringbufs s p) buf count (ram s);
       Some (sint n, s\<lparr>ram := m, ringbufs := (ringbufs s)(p := rb)\<rparr>)
     }
     else call_read dr vno buf off (if off + count > size_v then size_v - off else count) s)"

definition vfs_create_file :: "'a vfs_state_scheme drivers \<Rightarrow> addr \<Rightarrow> addr \<Rightarrow> u32 \<Rightarrow> 'a vfs_state_scheme \<Rightarrow> (addr \<times> 'a vfs_state_scheme) option" where
  "vfs_create_file dr parent name mode s = do {
     (res, s) \<leftarrow> call_creat dr parent name mode s;
     if res < 0 then Some (NULL, s)
     else do {
       d \<leftarrow> find_dirent (unat (v_num_dirents (vnodes s parent))) (v_dirents (vnodes s parent)) name (ram s);
       Some (if d = NULL then NULL else d_vnode (ram s) d, s)
     }
   }"

definition vfs_statf :: "addr \<Rightarrow> 'a vfs_state_scheme \<Rightarrow> int \<times> u64" where
  "vfs_statf file s = (0, ucast (v_size (vnodes s (f_vnode (files s file)))))"

definition vfs_file_type :: "addr \<Rightarrow> 'a vfs_state_scheme \<Rightarrow> u64" where
  "vfs_file_type file s = ucast (v_flags (vnodes s (f_vnode (files s file))) AND VFS_VTYPE_MASK)"

definition vfs_file_dev :: "addr \<Rightarrow> 'a vfs_state_scheme \<Rightarrow> addr" where
  "vfs_file_dev file s = di_dev (dev_infos s (v_priv_data (vnodes s (f_vnode (files s file)))))"

section \<open>Paths\<close>

partial_function (option) basename_loop :: "addr \<Rightarrow> addr \<Rightarrow> mem \<Rightarrow> addr option" where
  "basename_loop p ret m =
    (if m p = 0 then Some ret else basename_loop (p + 1) (if m p = 47 then p + 1 else ret) m)"

definition basename :: "addr \<Rightarrow> mem \<Rightarrow> addr option" where
  "basename p m = basename_loop p p m"

partial_function (option) dirname_loop :: "addr \<Rightarrow> addr \<Rightarrow> mem \<Rightarrow> addr option" where
  "dirname_loop p ret m =
    (if m p = 0 then Some ret else dirname_loop (p + 1) (if m p = 47 then p else ret) m)"

definition dirname :: "addr \<Rightarrow> mem \<Rightarrow> (addr \<times> mem) option" where
  "dirname p m = do {
     ret \<leftarrow> dirname_loop p p m;
     Some (if ret = p then (NULL, m) else (p, m(ret := 0)))
   }"

section \<open>Device nodes\<close>

definition vfs_mknod :: "'a vfs_state_scheme drivers \<Rightarrow> addr \<Rightarrow> addr \<Rightarrow> u32 \<Rightarrow> 'a vfs_state_scheme \<Rightarrow> (addr \<times> 'a vfs_state_scheme) option" where
  "vfs_mknod dr delim pathname mode s = do {
     n \<leftarrow> strlen pathname (ram s);
     (pathcpy, s) \<leftarrow> kzalloc kmap (n + 1) ALLOC_KERN s;
     assert_opt (pathcpy \<noteq> NULL);
     (x, m) \<leftarrow> strcpy pathcpy pathname (ram s);
     name \<leftarrow> basename pathcpy m;
     (dir, m) \<leftarrow> dirname pathcpy m;
     (dir_file, err, s) \<leftarrow> vfs_open dr delim dir (s\<lparr>ram := m\<rparr>);
     if dir_file = NULL then Some (NULL, s)
     else do {
       let dir_vnode = f_vnode (files s dir_file);
       (vno, s) \<leftarrow> vfs_create_vno s;
       if vno = NULL then do { (r, s) \<leftarrow> vfs_close dir_file s; Some (NULL, s) }
       else if mode AND VFS_VTYPE_MASK \<notin> {VFS_VNO_FIFO, VFS_VNO_BLKDEV, VFS_VNO_CHARDEV} then Some (NULL, s)
       else do {
         let s = upd_vnode vno (\<lambda>v. v\<lparr>v_refcount := 1, v_fs := v_fs (vnodes s dir_vnode), v_flags := mode\<rparr>) s;
         (rb, s) \<leftarrow> ringbuf_create 0x4000 s;
         let s = upd_vnode vno (v_priv_data_update (\<lambda>_. rb)) s;
         let ents = v_dirents (vnodes s dir_vnode);
         let num = (ucast (v_num_dirents (vnodes s dir_vnode)) :: u32);
         d \<leftarrow> find_dirent (nat (sint num)) ents name (ram s);
         if d \<noteq> NULL then do {
           (r, s) \<leftarrow> vfs_close dir_file s;
           s \<leftarrow> slab_free kmap (vnode_slab s) vno s;
           Some (NULL, s)
         }
         else do {
           l \<leftarrow> spinlock_acquire (v_lock (vnodes s dir_vnode));
           let s = upd_vnode dir_vnode (v_lock_update (\<lambda>_. l)) s;
           (ents, s) \<leftarrow> krealloc kmap ents (scast (num + 1) * dirent_size) ALLOC_KERN s;
           if ents = NULL then do {
             (r, s) \<leftarrow> vfs_close dir_file s;
             s \<leftarrow> slab_free kmap (vnode_slab s) vno s;
             Some (NULL, s)
           }
           else do {
             let s = upd_vnode dir_vnode (v_dirents_update (\<lambda>_. ents)) s;
             let d = dirent_at ents (scast num);
             let m = snd (memset d 0 dirent_size (ram s));
             let m = store16 (d + 8) (ucast dirent_size) (set_d_vnode d vno m);
             (x, m) \<leftarrow> strcpy (d_name d) name m;
             let s = upd_vnode dir_vnode (\<lambda>v. v\<lparr>v_num_dirents := v_num_dirents v + 1, v_lock := 0\<rparr>) (s\<lparr>ram := m\<rparr>);
             (r, s) \<leftarrow> vfs_close dir_file s;
             Some (vno, s)
           }
         }
       }
     }
   }"

section \<open>Mounting\<close>

partial_function (option) vfs_no_free_r :: "addr \<Rightarrow> 'a vfs_state_scheme \<Rightarrow> 'a vfs_state_scheme option" where
  "vfs_no_free_r vno s =
    (if vno \<noteq> NULL \<and> \<not> v_no_free (vnodes s vno)
     then vfs_no_free_r (v_parent (vnodes s vno)) (upd_vnode vno (v_no_free_update (\<lambda>_. True)) s)
     else Some s)"

text \<open>The loop over the entries of the mount point only prints them. An error that was never written is returned uninitialised.\<close>

definition vfs_mount :: "'a vfs_state_scheme drivers \<Rightarrow> addr \<Rightarrow> addr \<Rightarrow> addr \<Rightarrow> 'a vfs_state_scheme \<Rightarrow> (int \<times> 'a vfs_state_scheme) option" where
  "vfs_mount dr delim f mount_point s = do {
     let vno = fs_root (fss s f);
     (file, err, s) \<leftarrow> vfs_open dr delim mount_point s;
     if file = NULL then do { e \<leftarrow> err; Some (e, s) }
     else do {
       let mp_vnode = f_vnode (files s file);
       if v_flags (vnodes s mp_vnode) AND VFS_VTYPE_MASK \<noteq> VFS_VNO_DIR then do {
         (r, s) \<leftarrow> vfs_close file s;
         Some (- ENOTDIR, s)
       }
       else do {
         l \<leftarrow> spinlock_acquire (v_lock (vnodes s mp_vnode));
         let s = upd_vnode mp_vnode (v_lock_update (\<lambda>_. l)) s;
         l \<leftarrow> spinlock_acquire (v_lock (vnodes s vno));
         let s = upd_vnode vno (v_lock_update (\<lambda>_. l)) s;
         let s = upd_vnode mp_vnode (\<lambda>v. v\<lparr>v_ptr := vno, v_mount_ptr := True\<rparr>) s;
         let s = upd_vnode vno (v_parent_update (\<lambda>_. mp_vnode)) s;
         s \<leftarrow> vfs_no_free_r vno s;
         let s = upd_vnode vno (v_lock_update (\<lambda>_. 0)) s;
         Some (0, upd_vnode mp_vnode (v_lock_update (\<lambda>_. 0)) s)
       }
     }
   }"

definition vfs_mount_root :: "'a vfs_state_scheme drivers \<Rightarrow> addr \<Rightarrow> addr \<Rightarrow> 'a vfs_state_scheme \<Rightarrow> (addr \<times> 'a vfs_state_scheme) option" where
  "vfs_mount_root dr dev mount_point s = do {
     bdev \<leftarrow> block_get_device dev s;
     if dev = NULL then None
     else do {
       (f, s) \<leftarrow> ext2_init_fs (d_disk dr) bdev s;
       if f = NULL then Some (NULL, s)
       else do {
         let s = upd_fs f (fs_type_update (\<lambda>_. FS_TYPE_EXT2)) s;
         n \<leftarrow> strlen mount_point (ram s);
         (p, s) \<leftarrow> kmalloc kmap (n + 1) ALLOC_KERN s;
         let s = upd_fs f (fs_mount_point_update (\<lambda>_. p)) s;
         if p = NULL then do { s \<leftarrow> vfs_dealloc f s; Some (NULL, s) }
         else do {
           (x, m) \<leftarrow> strcpy p mount_point (ram s);
           let s = s\<lparr>ram := m\<rparr>;
           Some (f, upd_vnode (fs_root (fss s f)) (v_no_free_update (\<lambda>_. True)) s)
         }
       }
     }
   }"

text \<open>\<open>mount_point\<close> is the address of the string \<^verbatim>\<open>/\<close>; a failed mount panics.\<close>

definition vfs_init :: "'a vfs_state_scheme drivers \<Rightarrow> addr \<Rightarrow> addr \<Rightarrow> 'a vfs_state_scheme \<Rightarrow> 'a vfs_state_scheme option" where
  "vfs_init dr rootdev_name mount_point s = do {
     (p, s) \<leftarrow> slab_create kmap 40 0x4000 0 s;
     let s = s\<lparr>file_slab := p\<rparr>;
     (p, s) \<leftarrow> slab_create kmap 360 0x4000 0 s;
     let s = s\<lparr>vnode_slab := p\<rparr>;
     (f, s) \<leftarrow> vfs_mount_root dr rootdev_name mount_point s;
     assert_opt (f \<noteq> NULL);
     Some (s\<lparr>rootfs := f\<rparr>)
   }"

section \<open>The device file system\<close>

definition devfs_insert :: "addr \<Rightarrow> addr \<Rightarrow> u32 \<Rightarrow> addr \<Rightarrow> 'a vfs_state_scheme \<Rightarrow> (int \<times> 'a vfs_state_scheme) option" where
  "devfs_insert dir name flags info s =
    (if name = NULL \<or> info = NULL then Some (- EINVAL, s)
     else do {
       let dir = (if dir = NULL then fs_root (fss s (devfs s)) else dir);
       (vno, s) \<leftarrow> vfs_create_vno s;
       if vno = NULL then Some (- ENOMEM, s)
       else do {
         let s = upd_vnode vno (\<lambda>v. v\<lparr>v_fs := v_fs (vnodes s dir), v_flags := flags, v_no_free := True, v_priv_data := info\<rparr>) s;
         l \<leftarrow> spinlock_acquire (v_lock (vnodes s dir));
         let s = upd_vnode dir (\<lambda>v. v\<lparr>v_lock := l, v_num_dirents := v_num_dirents v + 1\<rparr>) s;
         let num = v_num_dirents (vnodes s dir);
         (ents, s) \<leftarrow> krealloc kmap (v_dirents (vnodes s dir)) (num * dirent_size) ALLOC_KERN s;
         let s = upd_vnode dir (v_dirents_update (\<lambda>_. ents)) s;
         assert_opt (ents \<noteq> NULL);
         let d = dirent_at ents (num - 1);
         len \<leftarrow> strlen name (ram s);
         let m = snd (memcpy (d_name d) name (min 255 (len + 1)) (ram s));
         let m = m(d_name d + min 255 len := 0);
         let m = store16 (d + 8) (ucast dirent_size) (set_d_vnode d vno m);
         let m = store64 d 0 m;
         Some (0, upd_vnode dir (v_lock_update (\<lambda>_. 0)) (s\<lparr>ram := m\<rparr>))
       }
     })"

text \<open>\<open>table\<close> is the address of the array \<open>block_devices\<close>, \<open>dev_name\<close> that of the string \<^verbatim>\<open>dev\<close>.\<close>

primrec devfs_add_bdevs :: "addr list \<Rightarrow> addr \<Rightarrow> 'a vfs_state_scheme \<Rightarrow> 'a vfs_state_scheme option" where
  "devfs_add_bdevs [] slt s = Some s"
| "devfs_add_bdevs (b # bs) slt s = do {
     (info, s) \<leftarrow> kmalloc kmap 24 ALLOC_KERN s;
     assert_opt (info \<noteq> NULL);
     let s = s\<lparr>dev_infos := (dev_infos s)(info := \<lparr>di_dev = slt, di_impl = Block_impl\<rparr>)\<rparr>;
     (r, s) \<leftarrow> devfs_insert (fs_root (fss s (devfs s))) (bd_name (bdevs s b)) VFS_VNO_BLKDEV info s;
     devfs_add_bdevs bs (slt + 8) s
   }"

definition devfs_init :: "'a vfs_state_scheme drivers \<Rightarrow> addr \<Rightarrow> addr \<Rightarrow> addr \<Rightarrow> 'a vfs_state_scheme \<Rightarrow> (addr \<times> 'a vfs_state_scheme) option" where
  "devfs_init dr delim dev_name table s = do {
     (f, s) \<leftarrow> vfs_create s;
     assert_opt (f \<noteq> NULL);
     let s = s\<lparr>devfs := f, fs_opss := (fs_opss s)(fs_ops_ptr (fss s f) := \<lparr>fo_read = Devfs_impl, fo_write = Devfs_impl,
       fo_unlink = Devfs_impl, fo_creat = No_impl, fo_open_vno = Devfs_impl\<rparr>)\<rparr>;
     let s = upd_vnode (fs_root (fss s f)) (\<lambda>v. v\<lparr>v_flags := VFS_VNO_DIR, v_fs := f\<rparr>) s;
     (res, s) \<leftarrow> vfs_mount dr delim f dev_name s;
     assert_opt (res \<ge> 0);
     s \<leftarrow> devfs_add_bdevs (block_get_all_devices s) table s;
     Some (f, s)
   }"

end
