(* ===== verification/Umalloc.thy ===== *)
theory Umalloc
  imports Vfs
begin

unbundle bit_operations_syntax

text \<open>
  \<^verbatim>\<open>mem/slab.c\<close>, memory of a process: \<open>umalloc\<close> maps a run of objects of the user caches, or one buddy
  block, at an unmapped range of the process and records the pieces; \<open>ufree\<close> gives them back. The state
  also holds the globals of \<^verbatim>\<open>sched/proc.c\<close> and \<^verbatim>\<open>sched/syscall.c\<close>; \<open>cpu\<close> is what \<open>lapic_idno\<close> returns.
\<close>

abbreviation (input) ALLOC_USER_STACK :: u64 where "ALLOC_USER_STACK \<equiv> 1"
abbreviation (input) ALLOC_USER_RDONLY :: u64 where "ALLOC_USER_RDONLY \<equiv> 2"
abbreviation (input) ALLOC_USER_EXEC :: u64 where "ALLOC_USER_EXEC \<equiv> 4"
abbreviation (input) UA_SLAB :: u64 where "UA_SLAB \<equiv> 1"
abbreviation (input) PM_BUD :: u64 where "PM_BUD \<equiv> 0"
abbreviation (input) PM_SLB :: u64 where "PM_SLB \<equiv> 1"
abbreviation (input) USER_STACK_BASE :: u64 where "USER_STACK_BASE \<equiv> 0x0000070000000000"
abbreviation (input) USER_HEAP_BASE :: u64 where "USER_HEAP_BASE \<equiv> 0x0000000100000000"

record proc_mapping =
  pm_vaddr :: u64
  pm_paddr :: u64
  pm_len :: u64
  pm_attr :: u64
  pm_type :: u64
  pm_slab :: addr
  pm_next :: addr

record proc_allocation =
  pa_mappings :: addr
  pa_last :: addr
  pa_num_mappings :: u64

record file_descriptor =
  fd_file :: addr
  fd_fd :: u32
  fd_pos :: u64
  fd_flags :: u32

datatype syscall_fn = Sys_read | Sys_write | Sys_open | Sys_mmap | Sys_munmap | Sys_fork | Sys_exit | Sys_mkdir | Sys_mknod | Sys_lsdir

record kernel_state = vfs_state +
  mappings :: "addr \<Rightarrow> proc_mapping"
  allocations :: "addr \<Rightarrow> proc_allocation"
  fdescs :: "addr \<Rightarrow> file_descriptor"
  cpu :: u8
  proc_slab :: addr
  proc_tree :: rbtree
  proc_current :: "u8 \<Rightarrow> u64"
  kernel_procs :: addr
  pid_counter :: u64
  kpid_counter :: u64
  fd_slab :: addr
  syscall_table :: "syscall_fn option list"

definition zero_mapping :: proc_mapping where
  "zero_mapping = \<lparr>pm_vaddr = 0, pm_paddr = 0, pm_len = 0, pm_attr = 0, pm_type = 0, pm_slab = 0, pm_next = 0\<rparr>"

definition zero_allocation :: proc_allocation where
  "zero_allocation = \<lparr>pa_mappings = 0, pa_last = 0, pa_num_mappings = 0\<rparr>"

definition upd_mapping :: "addr \<Rightarrow> (proc_mapping \<Rightarrow> proc_mapping) \<Rightarrow> 'a kernel_state_scheme \<Rightarrow> 'a kernel_state_scheme" where
  "upd_mapping p f s = s\<lparr>mappings := (mappings s)(p := f (mappings s p))\<rparr>"

definition upd_allocation :: "addr \<Rightarrow> (proc_allocation \<Rightarrow> proc_allocation) \<Rightarrow> 'a kernel_state_scheme \<Rightarrow> 'a kernel_state_scheme" where
  "upd_allocation p f s = s\<lparr>allocations := (allocations s)(p := f (allocations s p))\<rparr>"

section \<open>Release\<close>

partial_function (option) ufree_loop :: "addr \<Rightarrow> addr \<Rightarrow> 'a kernel_state_scheme \<Rightarrow> 'a kernel_state_scheme option" where
  "ufree_loop p m s =
    (if m = NULL then Some s
     else do {
       let mp = mappings s m;
       s \<leftarrow> (if pm_type mp = PM_BUD then do {
              s \<leftarrow> buddy_free (pm_paddr mp OR hhdm_start s) s;
              proc_munmap p (pm_vaddr mp) s
            }
            else if pm_type mp = PM_SLB then do {
              s \<leftarrow> slab_free kmap (pm_slab mp) (pm_paddr mp OR hhdm_start s) s;
              proc_munmap p (pm_vaddr mp) s
            }
            else Some s);
       s \<leftarrow> kfree kmap m s;
       ufree_loop p (pm_next mp) s
     })"

text \<open>The node is removed from the global \<open>umalloc_tree\<close>, not from the tree it was found in. An unknown address panics.\<close>

definition ufree :: "addr \<Rightarrow> addr \<Rightarrow> 'a kernel_state_scheme \<Rightarrow> 'a kernel_state_scheme option" where
  "ufree p a s = do {
     n \<leftarrow> rbt_search (p_umalloc_tree (procs s p)) a (rbnodes s);
     assert_opt (n \<noteq> NULL);
     let al = rb_value (rbnodes s n);
     s \<leftarrow> ufree_loop p (pa_mappings (allocations s al)) s;
     (t, s) \<leftarrow> rbt_delete kmap n (umalloc_tree s) s;
     let s = s\<lparr>umalloc_tree := t\<rparr>;
     let s = upd_node n (rb_value_update (\<lambda>_. 0)) s;
     kfree kmap al s
   }"

section \<open>Allocation\<close>

definition user_attr :: "u64 \<Rightarrow> u64" where
  "user_attr opts = PAGE_USER OR PAGE_PRESENT
     OR (if opts AND ALLOC_USER_RDONLY = 0 then PAGE_RW else 0)
     OR (if opts AND ALLOC_USER_EXEC = 0 then PAGE_XD else 0)"

text \<open>The size and the cache of the next piece: the largest class, or the least class that covers what remains.\<close>

definition piece :: "u64 \<Rightarrow> u64 list \<Rightarrow> addr list \<Rightarrow> u64 \<times> addr" where
  "piece remaining sizes caches =
    (if last sizes > remaining
     then case List.find (\<lambda>(z, _). z \<ge> remaining) (zip sizes caches) of
         Some zc \<Rightarrow> zc | None \<Rightarrow> (last sizes, last caches)
     else (last sizes, last caches))"

partial_function (option) umalloc_loop :: "addr \<Rightarrow> addr \<Rightarrow> u64 \<Rightarrow> u64 \<Rightarrow> u64 \<Rightarrow> u64 \<Rightarrow> 'a kernel_state_scheme \<Rightarrow> (bool \<times> u64 \<times> 'a kernel_state_scheme) option" where
  "umalloc_loop p a vaddr attr sz tot s =
    (if \<not> tot < sz then Some (True, tot, s)
     else do {
       (m, s) \<leftarrow> kzalloc kmap 56 0 s;
       if m = NULL then do { s \<leftarrow> ufree p a s; Some (False, tot, s) }
       else do {
         let s = upd_mapping m (\<lambda>_. zero_mapping) s;
         let s = (if pa_num_mappings (allocations s a) = 0
                  then upd_allocation a (pa_mappings_update (\<lambda>_. m)) s
                  else upd_mapping (pa_last (allocations s a)) (pm_next_update (\<lambda>_. m)) s);
         let s = upd_allocation a (\<lambda>al. al\<lparr>pa_last := m, pa_num_mappings := pa_num_mappings al + 1\<rparr>) s;
         let (this_size, cache) = piece (sz - tot) uslab_sizes (uslab_cache s);
         (ret, s) \<leftarrow> slab_alloc kmap cache s;
         let s = upd_mapping m (\<lambda>mp. mp\<lparr>pm_type := PM_SLB, pm_vaddr := vaddr + tot,
           pm_paddr := ret AND NOT (hhdm_start s), pm_len := this_size, pm_slab := cache, pm_attr := attr\<rparr>) s;
         (v, s) \<leftarrow> proc_mmap p (ret AND NOT (hhdm_start s)) (vaddr + tot) this_size attr s;
         umalloc_loop p a vaddr attr sz (tot + this_size) s
       }
     })"

text \<open>The address of the new memory, or 0; a stack grows down from \<open>stack_start\<close>.\<close>

definition umalloc_vaddr :: "addr \<Rightarrow> u64 \<Rightarrow> u64 \<Rightarrow> u64 \<Rightarrow> 'a kernel_state_scheme \<Rightarrow> (u64 \<times> 'a kernel_state_scheme) option" where
  "umalloc_vaddr p sz opts req_addr s =
    (if opts AND ALLOC_USER_STACK \<noteq> 0 then
       (let vaddr = p_stack_start (procs s p) - sz in
        if vaddr AND 0xFFF \<noteq> 0 then Some (0, s)
        else Some (vaddr, upd_proc p (p_stack_start_update (\<lambda>_. vaddr)) s))
     else do {
       vaddr \<leftarrow> mmap_find_unmapped (hhdm_start s) (Some (p_page_map (procs s p))) (p_page_map_lock (procs s p))
         (if req_addr \<noteq> 0 then req_addr else USER_HEAP_BASE) sz (rbnodes s);
       Some (vaddr, s)
     })"

definition umalloc :: "addr \<Rightarrow> u64 \<Rightarrow> u64 \<Rightarrow> u64 \<Rightarrow> 'a kernel_state_scheme \<Rightarrow> (addr \<times> 'a kernel_state_scheme) option" where
  "umalloc p sz opts req_addr s = do {
     assert_opt (p \<noteq> NULL);
     (a, s) \<leftarrow> kzalloc kmap 24 0 s;
     if a = NULL then Some (NULL, s)
     else do {
       let s = upd_allocation a (\<lambda>_. zero_allocation) s;
       (vaddr, s) \<leftarrow> umalloc_vaddr p sz opts req_addr s;
       let attr = user_attr opts;
       if vaddr = 0 then Some (NULL, s)
       else do {
         (ok, s) \<leftarrow>
           (if sz > last uslab_sizes * 256 then do {
              (m, s) \<leftarrow> kzalloc kmap 56 0 s;
              if m = NULL then do { s \<leftarrow> ufree p a s; Some (False, s) }
              else do {
                let sz = npow2 sz;
                (ret, s) \<leftarrow> buddy_alloc sz s;
                if ret = NULL then Some (False, s)
                else do {
                  let s = upd_allocation a (\<lambda>al. al\<lparr>pa_mappings := m, pa_num_mappings := 1\<rparr>) s;
                  let s = upd_mapping m (\<lambda>_. zero_mapping\<lparr>pm_vaddr := vaddr, pm_paddr := ret AND NOT (hhdm_start s),
                    pm_len := sz, pm_type := PM_BUD, pm_attr := attr\<rparr>) s;
                  (v, s) \<leftarrow> proc_mmap p (ret AND NOT (hhdm_start s)) vaddr sz attr s;
                  Some (True, s)
                }
              }
            }
            else do {
              (ok, tot, s) \<leftarrow> umalloc_loop p a vaddr attr sz 0 s;
              Some (ok, if ok \<and> opts AND ALLOC_USER_STACK \<noteq> 0
                then upd_proc p (p_stack_size_update (\<lambda>n. n + tot)) s else s)
            });
         if \<not> ok then Some (NULL, s)
         else do {
           (n, t, s) \<leftarrow> rbt_insert kmap vaddr (p_umalloc_tree (procs s p)) s;
           assert_opt (n \<noteq> NULL);
           let s = upd_proc p (p_umalloc_tree_update (\<lambda>_. t)) s;
           Some (vaddr, upd_node n (rb_value_update (\<lambda>_. a)) s)
         }
       }
     }
   }"

end
