(* ===== verification/Proc.thy ===== *)
theory Proc
  imports Umalloc
begin

unbundle bit_operations_syntax

text \<open>
  \<^verbatim>\<open>sched/proc.c\<close>: the table of processes, the scheduler and the pairing of a user process with the kernel
  process that runs its system calls. \<open>proc_tree\<close> maps a pid to the address of its process; a negative pid is a large unsigned key.
  A function that ends in a jump (to user mode, to a new stack, or to the idle loop) returns where it jumps to.
\<close>

abbreviation (input) PROC_RUNNING :: u8 where "PROC_RUNNING \<equiv> 0"
abbreviation (input) PROC_STOPPED :: u8 where "PROC_STOPPED \<equiv> 1"
abbreviation (input) PROC_BLOCKED :: u8 where "PROC_BLOCKED \<equiv> 2"
abbreviation (input) PROC_ZOMBIE :: u8 where "PROC_ZOMBIE \<equiv> 4"
abbreviation (input) PT_USER :: u32 where "PT_USER \<equiv> 0"
abbreviation (input) PT_KERN :: u32 where "PT_KERN \<equiv> 1"

abbreviation (input) GDT_SEGMENT_CODE_RING0 :: u64 where "GDT_SEGMENT_CODE_RING0 \<equiv> 0x28"
abbreviation (input) GDT_SEGMENT_DATA_RING0 :: u64 where "GDT_SEGMENT_DATA_RING0 \<equiv> 0x30"
abbreviation (input) GDT_SEGMENT_DATA_RING3 :: u64 where "GDT_SEGMENT_DATA_RING3 \<equiv> 0x38"
abbreviation (input) GDT_SEGMENT_CODE_RING3 :: u64 where "GDT_SEGMENT_CODE_RING3 \<equiv> 0x40"

definition zero_regs :: procregs where
  "zero_regs = \<lparr>rax = 0, rbx = 0, rcx = 0, rdx = 0, rsi = 0, rdi = 0, rbp = 0, r8 = 0, r9 = 0, r10 = 0, r11 = 0,
     r12 = 0, r13 = 0, r14 = 0, r15 = 0, rip = 0, cs = 0, rflags = 0, rsp = 0, ss = 0\<rparr>"

definition zero_tree :: rbtree where
  "zero_tree = \<lparr>rt_root = 0, rt_lock = 0, rt_num_nodes = 0\<rparr>"

definition zero_proc :: proc where
  "zero_proc = \<lparr>p_regs = zero_regs, p_state = 0, p_pid = 0, p_ppid = 0, p_cr3 = 0, p_lock = 0, p_is_kernel = False,
     p_page_map = zero_tree, p_page_map_lock = 0, p_fd_map = zero_tree, p_fd_map_lock = 0, p_parent = 0,
     p_children = zero_tree, p_buddy_proc = 0, p_stack_start = 0, p_stack_size = 0, p_heap_start = 0,
     p_umalloc_tree = zero_tree\<rparr>"

text \<open>\<open>sizeof(struct proc)\<close> is 352.\<close>

definition kernel_proc :: "'a kernel_state_scheme \<Rightarrow> addr" where
  "kernel_proc s = kernel_procs s + 352 * ucast (cpu s)"

section \<open>Finding processes\<close>

definition getpid :: "'a kernel_state_scheme \<Rightarrow> u64" where
  "getpid s = proc_current s (cpu s)"

definition proc_get :: "u64 \<Rightarrow> 'a kernel_state_scheme \<Rightarrow> addr option" where
  "proc_get pid s = do {
     n \<leftarrow> rbt_search (proc_tree s) pid (rbnodes s);
     Some (if n \<noteq> NULL then rb_value (rbnodes s n) else NULL)
   }"

definition proc_find :: "u64 \<Rightarrow> 'a kernel_state_scheme \<Rightarrow> addr option" where
  "proc_find pid s = (if pid = 0 then Some (kernel_proc s) else proc_get pid s)"

definition getupid :: "'a kernel_state_scheme \<Rightarrow> u64 option" where
  "getupid s = do {
     p \<leftarrow> proc_find (getpid s) s;
     Some (if p \<noteq> NULL \<and> p_buddy_proc (procs s p) \<noteq> NULL then p_pid (procs s (p_buddy_proc (procs s p))) else 0)
   }"

text \<open>The process whose registers are the current ones; \<open>proc_current_regs\<close> returns the address of its first field.\<close>

definition proc_current_regs :: "'a kernel_state_scheme \<Rightarrow> addr option" where
  "proc_current_regs s = proc_find (getpid s) s"

definition proc_next :: "addr \<Rightarrow> 'a kernel_state_scheme \<Rightarrow> addr option" where
  "proc_next p s = do {
     assert_opt (p \<noteq> NULL);
     n \<leftarrow> rbt_search (proc_tree s) (p_pid (procs s p)) (rbnodes s);
     n \<leftarrow> (if n \<noteq> NULL then rbt_successor n (rbnodes s) else Some n);
     Some (if n \<noteq> NULL \<and> rb_key (rbnodes s n) \<noteq> 0 then rb_value (rbnodes s n) else kernel_proc s)
   }"

section \<open>Setting fields\<close>

definition proc_set_current :: "u64 \<Rightarrow> 'a kernel_state_scheme \<Rightarrow> 'a kernel_state_scheme" where
  "proc_set_current pid s = s\<lparr>proc_current := (proc_current s)(cpu s := pid)\<rparr>"

text \<open>Setting the state under the lock of the process, which must exist and be unlocked.\<close>

definition set_state :: "addr \<Rightarrow> u8 \<Rightarrow> 'a kernel_state_scheme \<Rightarrow> 'a kernel_state_scheme option" where
  "set_state p st s = do {
     assert_opt (p \<noteq> NULL);
     l \<leftarrow> spinlock_acquire (p_lock (procs s p));
     Some (upd_proc p (\<lambda>q. q\<lparr>p_state := st, p_lock := 0\<rparr>) s)
   }"

definition proc_set_state :: "u64 \<Rightarrow> u8 \<Rightarrow> 'a kernel_state_scheme \<Rightarrow> 'a kernel_state_scheme option" where
  "proc_set_state pid st s = do { p \<leftarrow> proc_find pid s; set_state p st s }"

definition upd_regs :: "addr \<Rightarrow> (procregs \<Rightarrow> procregs) \<Rightarrow> 'a kernel_state_scheme \<Rightarrow> 'a kernel_state_scheme" where
  "upd_regs p f s = upd_proc p (p_regs_update f) s"

definition proc_set_stack :: "addr \<Rightarrow> u64 \<Rightarrow> u64 \<Rightarrow> 'a kernel_state_scheme \<Rightarrow> 'a kernel_state_scheme" where
  "proc_set_stack p base sz s =
    upd_regs p (\<lambda>r. r\<lparr>rsp := base + sz - 0x10, rbp := base + sz - 0x10\<rparr>)
      (upd_proc p (\<lambda>q. q\<lparr>p_stack_start := base, p_stack_size := sz\<rparr>) s)"

definition proc_set_flags :: "addr \<Rightarrow> u64 \<Rightarrow> 'a kernel_state_scheme \<Rightarrow> 'a kernel_state_scheme" where
  "proc_set_flags p flags s = upd_regs p (rflags_update (\<lambda>_. flags)) s"

definition proc_set_exec_addr :: "addr \<Rightarrow> u64 \<Rightarrow> 'a kernel_state_scheme \<Rightarrow> 'a kernel_state_scheme" where
  "proc_set_exec_addr p a s = upd_regs p (rip_update (\<lambda>_. a)) s"

section \<open>The scheduler\<close>

datatype 's resume = Resume addr 's | Idle 's

text \<open>
  The loop of \<open>schedule\<close>: its counter never moves, so it ends only by running a process. A process in a
  state the switch does not name keeps its lock taken.
\<close>

partial_function (option) schedule_loop :: "addr \<Rightarrow> u64 \<Rightarrow> u64 \<Rightarrow> 'a kernel_state_scheme \<Rightarrow> 'a kernel_state_scheme resume option" where
  "schedule_loop p counter limit s =
    (if \<not> counter < limit then Some (Idle s)
     else do {
       p \<leftarrow> proc_next p s;
       assert_opt (p \<noteq> NULL);
       if p_pid (procs s p) = 0 then schedule_loop p counter limit s
       else do {
         l \<leftarrow> spinlock_acquire (p_lock (procs s p));
         let st = p_state (procs s p);
         if st = PROC_STOPPED then
           Some (Resume p (proc_set_current (p_pid (procs s p)) (upd_proc p (\<lambda>q. q\<lparr>p_state := PROC_RUNNING, p_lock := 0\<rparr>) s)))
         else if st = PROC_ZOMBIE \<or> st = PROC_BLOCKED \<or> st = PROC_RUNNING then schedule_loop p counter limit s
         else schedule_loop p counter limit (upd_proc p (p_lock_update (\<lambda>_. l)) s)
       }
     })"

definition schedule :: "'a kernel_state_scheme \<Rightarrow> 'a kernel_state_scheme resume option" where
  "schedule s = do {
     p \<leftarrow> proc_find (proc_current s (cpu s)) s;
     s \<leftarrow> (if p \<noteq> NULL \<and> p_state (procs s p) = PROC_RUNNING then set_state p PROC_STOPPED s else Some s);
     schedule_loop p 0 (rt_num_nodes (proc_tree s) * 2) s
   }"

definition proc_yield :: "'a kernel_state_scheme \<Rightarrow> 'a kernel_state_scheme option" where
  "proc_yield s = do {
     p \<leftarrow> proc_find (getpid s) s;
     set_state p PROC_STOPPED (proc_set_current 0 s)
   }"

section \<open>Creation\<close>

definition proc_init_page_tables :: "addr \<Rightarrow> 'a kernel_state_scheme \<Rightarrow> 'a kernel_state_scheme option" where
  "proc_init_page_tables p s = do {
     (t, s) \<leftarrow> buddy_alloc 0x1000 s;
     s \<leftarrow> phys_memcpy t (kcr3 s) 0x1000 s;
     Some (upd_proc p (p_cr3_update (\<lambda>_. virt_to_phys t (kcr3 s) s)) s)
   }"

definition proc_init_memory :: "addr \<Rightarrow> 'a kernel_state_scheme \<Rightarrow> 'a kernel_state_scheme option" where
  "proc_init_memory p s = do {
     let q = procs s p;
     s \<leftarrow> (if p_is_kernel q \<and> p_buddy_proc q \<noteq> NULL
          then Some (upd_proc p (p_cr3_update (\<lambda>_. p_cr3 (procs s (p_buddy_proc q)))) s)
          else do {
            (t, s) \<leftarrow> buddy_alloc 0x1000 s;
            s \<leftarrow> phys_memcpy t (kcr3 s) 0x1000 s;
            Some (upd_proc p (p_cr3_update (\<lambda>_. t AND NOT (hhdm_start s))) s)
          });
     (stackaddr, s) \<leftarrow> buddy_alloc 0x4000 s;
     let s = upd_regs p (\<lambda>r. if \<not> p_is_kernel (procs s p)
       then r\<lparr>cs := GDT_SEGMENT_CODE_RING3 OR 3, ss := GDT_SEGMENT_DATA_RING3 OR 3, rflags := 0x246\<rparr>
       else r\<lparr>cs := GDT_SEGMENT_CODE_RING0, ss := GDT_SEGMENT_DATA_RING0, rflags := 0x246\<rparr>) s;
     Some (proc_set_stack p stackaddr 0x4000 s)
   }"

definition proc_createv :: "u32 \<Rightarrow> 'a kernel_state_scheme \<Rightarrow> (addr \<times> 'a kernel_state_scheme) option" where
  "proc_createv flags s = do {
     (p, s) \<leftarrow> slab_alloc kmap (proc_slab s) s;
     assert_opt (p \<noteq> NULL);
     let s = upd_proc p (\<lambda>_. zero_proc) s;
     let s = (if flags AND PT_KERN \<noteq> 0
       then let s = s\<lparr>kpid_counter := kpid_counter s + 1\<rparr> in
         upd_proc p (\<lambda>q. q\<lparr>p_pid := - kpid_counter s, p_is_kernel := True,
           p_regs := (p_regs q)\<lparr>cs := GDT_SEGMENT_CODE_RING0, ss := GDT_SEGMENT_DATA_RING0\<rparr>\<rparr>) s
       else let s = s\<lparr>pid_counter := pid_counter s + 1\<rparr> in
         upd_proc p (\<lambda>q. q\<lparr>p_pid := pid_counter s, p_is_kernel := False,
           p_regs := (p_regs q)\<lparr>cs := GDT_SEGMENT_CODE_RING3 OR 3, ss := GDT_SEGMENT_DATA_RING3 OR 3\<rparr>\<rparr>) s);
     let s = upd_proc p (p_state_update (\<lambda>_. PROC_RUNNING)) s;
     (n, t, s) \<leftarrow> rbt_insert kmap (p_pid (procs s p)) (proc_tree s) s;
     assert_opt (n \<noteq> NULL);
     Some (p, upd_node n (rb_value_update (\<lambda>_. p)) (s\<lparr>proc_tree := t\<rparr>))
   }"

definition proc_create :: "'a kernel_state_scheme \<Rightarrow> (addr \<times> 'a kernel_state_scheme) option" where
  "proc_create s = proc_createv PT_USER s"

section \<open>Termination of a process\<close>

partial_function (option) term_umalloc_loop :: "addr \<Rightarrow> addr \<Rightarrow> 'a kernel_state_scheme \<Rightarrow> 'a kernel_state_scheme option" where
  "term_umalloc_loop p node s =
    (if node = NULL then Some s
     else do {
       next \<leftarrow> rbt_successor node (rbnodes s);
       s \<leftarrow> ufree p (rb_key (rbnodes s node)) s;
       term_umalloc_loop p next s
     })"

partial_function (option) term_munmap_loop :: "addr \<Rightarrow> addr \<Rightarrow> 'a kernel_state_scheme \<Rightarrow> 'a kernel_state_scheme option" where
  "term_munmap_loop p node s =
    (if node = NULL then Some s
     else do {
       next \<leftarrow> rbt_successor node (rbnodes s);
       s \<leftarrow> proc_munmap p (rb_key (rbnodes s node)) s;
       term_munmap_loop p next s
     })"

partial_function (option) term_fd_loop :: "addr \<Rightarrow> 'a kernel_state_scheme \<Rightarrow> 'a kernel_state_scheme option" where
  "term_fd_loop node s =
    (if node = NULL then Some s
     else do {
       next \<leftarrow> rbt_successor node (rbnodes s);
       let fdesc = rb_value (rbnodes s node);
       let f = fd_file (fdescs s fdesc);
       l \<leftarrow> spinlock_acquire (f_ref_lock (files s f));
       let s = s\<lparr>files := (files s)(f := (files s f)\<lparr>f_ref_lock := l, f_refcount := f_refcount (files s f) - 1\<rparr>)\<rparr>;
       s \<leftarrow> (if f_refcount (files s f) = 0 then do { (r, s) \<leftarrow> vfs_close f s; Some s } else Some s);
       let s = s\<lparr>files := (files s)(f := (files s f)\<lparr>f_ref_lock := 0\<rparr>)\<rparr>;
       s \<leftarrow> slab_free kmap (fd_slab s) fdesc s;
       term_fd_loop next s
     })"

text \<open>Terminating process 1 reboots; an unknown pid panics.\<close>

definition proc_term :: "u64 \<Rightarrow> 'a kernel_state_scheme \<Rightarrow> 'a kernel_state_scheme option" where
  "proc_term pid s = do {
     assert_opt (pid \<noteq> 1);
     node \<leftarrow> rbt_search (proc_tree s) pid (rbnodes s);
     assert_opt (node \<noteq> NULL);
     let p = rb_value (rbnodes s node);
     assert_opt (p \<noteq> NULL);
     l \<leftarrow> spinlock_acquire (p_lock (procs s p));
     let s = upd_proc p (p_lock_update (\<lambda>_. l)) s;
     (t, s) \<leftarrow> rbt_delete kmap node (proc_tree s) s;
     let s = s\<lparr>proc_tree := t\<rparr>;
     node \<leftarrow> rbt_minimum (rt_root (p_umalloc_tree (procs s p))) (rbnodes s);
     s \<leftarrow> term_umalloc_loop p node s;
     node \<leftarrow> rbt_minimum (rt_root (p_page_map (procs s p))) (rbnodes s);
     s \<leftarrow> term_munmap_loop p node s;
     node \<leftarrow> rbt_minimum (rt_root (p_fd_map (procs s p))) (rbnodes s);
     s \<leftarrow> term_fd_loop node s;
     s \<leftarrow> buddy_free (p_cr3 (procs s p) OR hhdm_start s) s;
     (t, s) \<leftarrow> rbt_destroy kmap (p_page_map (procs s p)) s;
     let s = upd_proc p (p_page_map_update (\<lambda>_. t)) s;
     (t, s) \<leftarrow> rbt_destroy kmap (p_fd_map (procs s p)) s;
     let s = upd_proc p (p_fd_map_update (\<lambda>_. t)) s;
     slab_free kmap (proc_slab s) p s
   }"

section \<open>Entering and leaving the kernel\<close>

text \<open>The jump at the end of \<open>proc_enter_kernel\<close>: stack pointer, frame pointer, function and argument.\<close>

record jump =
  j_rsp :: u64
  j_rbp :: u64
  j_func :: addr
  j_arg :: u64

definition proc_enter_kernel :: "u64 \<Rightarrow> addr \<Rightarrow> 'a kernel_state_scheme \<Rightarrow> (jump \<times> 'a kernel_state_scheme) option" where
  "proc_enter_kernel save ret s = do {
     p \<leftarrow> proc_find (getpid s) s;
     assert_opt (p \<noteq> NULL \<and> \<not> p_is_kernel (procs s p));
     (k, s) \<leftarrow> (if p_buddy_proc (procs s p) \<noteq> NULL then Some (p_buddy_proc (procs s p), s)
       else do {
         (k, s) \<leftarrow> proc_createv PT_KERN s;
         Some (k, upd_proc k (\<lambda>q. q\<lparr>p_is_kernel := True, p_buddy_proc := p\<rparr>) s)
       });
     s \<leftarrow> proc_init_memory k s;
     s \<leftarrow> set_state p PROC_BLOCKED s;
     let s = upd_proc p (p_buddy_proc_update (\<lambda>_. k)) s;
     let s = upd_proc k (p_buddy_proc_update (\<lambda>_. p)) s;
     let s = upd_regs k (rax_update (\<lambda>_. save)) s;
     let s = proc_set_current (p_pid (procs s k)) s;
     let r = p_regs (procs s k);
     Some (\<lparr>j_rsp = rsp r, j_rbp = rbp r, j_func = ret, j_arg = save\<rparr>, s)
   }"

definition proc_leave_kernel :: "u64 \<Rightarrow> bool \<Rightarrow> 'a kernel_state_scheme \<Rightarrow> (u64 \<times> 'a kernel_state_scheme) option" where
  "proc_leave_kernel ret shouldret s = do {
     p \<leftarrow> proc_find (getpid s) s;
     assert_opt (p \<noteq> NULL \<and> p_is_kernel (procs s p));
     let u = p_buddy_proc (procs s p);
     assert_opt (u \<noteq> NULL);
     let s = (if shouldret then upd_regs u (rax_update (\<lambda>_. ret)) s else s);
     let s = proc_set_current (p_pid (procs s u)) s;
     s \<leftarrow> set_state p PROC_BLOCKED s;
     s \<leftarrow> set_state u PROC_RUNNING s;
     Some (ret, s)
   }"

section \<open>Initialisation\<close>

text \<open>\<open>yield_addr\<close> is the address of \<open>yield\<close>, \<open>kstacks\<close> the stacks of the processors.\<close>

primrec proc_init_cpus :: "nat \<Rightarrow> u64 \<Rightarrow> addr \<Rightarrow> (nat \<Rightarrow> u64) \<Rightarrow> 'a kernel_state_scheme \<Rightarrow> 'a kernel_state_scheme" where
  "proc_init_cpus 0 i yield_addr kstacks s = s"
| "proc_init_cpus (Suc k) i yield_addr kstacks s =
    (let p = kernel_procs s + 352 * i;
         s = upd_proc p (\<lambda>q. q\<lparr>p_pid := 0, p_is_kernel := True, p_cr3 := kcr3 s,
           p_regs := (p_regs q)\<lparr>rip := yield_addr, cs := 0x28, rflags := 0x246, rsp := kstacks (unat i) + 0xFF0\<rparr>\<rparr>) s;
         s = s\<lparr>proc_current := (proc_current s)(ucast i := 0)\<rparr>
     in proc_init_cpus k (i + 1) yield_addr kstacks s)"

definition proc_init :: "nat \<Rightarrow> addr \<Rightarrow> (nat \<Rightarrow> u64) \<Rightarrow> 'a kernel_state_scheme \<Rightarrow> 'a kernel_state_scheme option" where
  "proc_init num_cpus yield_addr kstacks s = do {
     (cur, s) \<leftarrow> kzalloc kmap (of_nat num_cpus * 8) ALLOC_KERN s;
     (t, s) \<leftarrow> kzalloc kmap 24 ALLOC_KERN s;
     assert_opt (cur \<noteq> NULL \<and> t \<noteq> NULL);
     let s = s\<lparr>proc_current := (\<lambda>_. 0), proc_tree := zero_tree\<rparr>;
     (p, s) \<leftarrow> slab_create kmap 352 0x8000 0 s;
     let s = s\<lparr>proc_slab := p\<rparr>;
     let s = proc_init_cpus num_cpus 0 yield_addr kstacks s;
     let s = proc_set_current 0 s;
     (n, t, s) \<leftarrow> rbt_insert kmap 0 (proc_tree s) s;
     Some (s\<lparr>proc_tree := t\<rparr>)
   }"

end
