(* ===== verification/Elf.thy ===== *)
theory Elf
  imports Proc
begin

unbundle bit_operations_syntax

text \<open>
  \<^verbatim>\<open>sched/load.c\<close>: the loader for statically linked ELF programs. The headers are read from the bytes of the file.
  The last loop over the section headers computes a name it does not use and is left out. \<open>magic\<close> is the address of \<open>elf_magic\<close>.
\<close>

abbreviation (input) ET_EXEC :: u16 where "ET_EXEC \<equiv> 2"
abbreviation (input) EM_X86_64 :: u16 where "EM_X86_64 \<equiv> 62"
abbreviation (input) ELFCLASS64 :: u8 where "ELFCLASS64 \<equiv> 2"
abbreviation (input) ELFDATA2LSB :: u8 where "ELFDATA2LSB \<equiv> 1"
abbreviation (input) PT_LOAD :: u32 where "PT_LOAD \<equiv> 1"
abbreviation (input) PF_X :: u32 where "PF_X \<equiv> 1"
abbreviation (input) PF_W :: u32 where "PF_W \<equiv> 2"

record elf_phdr =
  ph_type :: u32
  ph_flags :: u32
  ph_offset :: u64
  ph_vaddr :: u64
  ph_paddr :: u64
  ph_filesz :: u64
  ph_memsz :: u64
  ph_align :: u64

definition read_phdr :: "mem \<Rightarrow> addr \<Rightarrow> elf_phdr" where
  "read_phdr m p = \<lparr>ph_type = load32 m p, ph_flags = load32 m (p + 4), ph_offset = load64 m (p + 8),
     ph_vaddr = load64 m (p + 16), ph_paddr = load64 m (p + 24), ph_filesz = load64 m (p + 32),
     ph_memsz = load64 m (p + 40), ph_align = load64 m (p + 48)\<rparr>"

record elf_ehdr =
  eh_class :: u8
  eh_data :: u8
  eh_type :: u16
  eh_machine :: u16
  eh_entry :: u64
  eh_phoff :: u64
  eh_phnum :: u16

definition read_ehdr :: "mem \<Rightarrow> addr \<Rightarrow> elf_ehdr" where
  "read_ehdr m p = \<lparr>eh_class = m (p + 4), eh_data = m (p + 5), eh_type = load16 m (p + 16),
     eh_machine = load16 m (p + 18), eh_entry = load64 m (p + 24), eh_phoff = load64 m (p + 32),
     eh_phnum = load16 m (p + 56)\<rparr>"

definition elf_check_compat :: "addr \<Rightarrow> addr \<Rightarrow> mem \<Rightarrow> int" where
  "elf_check_compat magic buf m =
    (let hdr = read_ehdr m buf in
     if strncmp buf magic 4 m \<noteq> 0 then - ENOEXEC
     else if eh_class hdr \<noteq> ELFCLASS64 then - ENOEXEC
     else if eh_data hdr \<noteq> ELFDATA2LSB then - ENOEXEC
     else if eh_type hdr \<noteq> ET_EXEC then - ENOEXEC
     else if eh_machine hdr \<noteq> EM_X86_64 then - ENOEXEC
     else 0)"

definition segment_len :: "elf_phdr \<Rightarrow> u64" where
  "segment_len ph = max 0x1000 (npow2 (ph_filesz ph))"

definition segment_flags :: "elf_phdr \<Rightarrow> u64" where
  "segment_flags ph = PAGE_PRESENT OR PAGE_USER
     OR (if ph_flags ph AND PF_W \<noteq> 0 then PAGE_RW else 0)
     OR (if ph_flags ph AND PF_X = 0 then PAGE_XD else 0)"

primrec load_segments :: "nat \<Rightarrow> addr \<Rightarrow> addr \<Rightarrow> addr \<Rightarrow> 'a kernel_state_scheme \<Rightarrow> 'a kernel_state_scheme option" where
  "load_segments 0 p buf ph s = Some s"
| "load_segments (Suc k) p buf ph s = do {
     let seg = read_phdr (ram s) ph;
     if ph_type seg \<noteq> PT_LOAD then load_segments k p buf (ph + 56) s
     else do {
       (paddr, s) \<leftarrow> buddy_alloc (segment_len seg) s;
       (v, s) \<leftarrow> proc_mmap p (paddr AND NOT (hhdm_start s)) (ph_vaddr seg) (segment_len seg) (segment_flags seg) s;
       assert_opt (paddr \<noteq> NULL);
       let s = s\<lparr>ram := snd (memcpy (paddr + (ph_vaddr seg AND 0xFFF)) (buf + ph_offset seg) (ph_filesz seg) (ram s))\<rparr>;
       load_segments k p buf (ph + 56) s
     }
   }"

definition elf_load_proc :: "'a kernel_state_scheme drivers \<Rightarrow> addr \<Rightarrow> addr \<Rightarrow> addr \<Rightarrow> 'a kernel_state_scheme \<Rightarrow> (int \<times> 'a kernel_state_scheme) option" where
  "elf_load_proc dr delim magic fname s = do {
     (file, err, s) \<leftarrow> vfs_open dr delim fname s;
     if file = NULL then Some (- ENOENT, s)
     else do {
       let sz = ucast (v_size (vnodes s (f_vnode (files s file))));
       (buf, s) \<leftarrow> kmalloc kmap sz ALLOC_KERN s;
       if buf = NULL then Some (- ENOMEM, s)
       else do {
         (r, s) \<leftarrow> vfs_read dr file buf 0 sz s;
         (r, s) \<leftarrow> vfs_close file s;
         let ret = elf_check_compat magic buf (ram s);
         if ret \<noteq> 0 then do { s \<leftarrow> kfree kmap buf s; Some (ret, s) }
         else do {
           (p, s) \<leftarrow> proc_create s;
           l \<leftarrow> spinlock_acquire (p_lock (procs s p));
           let s = upd_proc p (p_lock_update (\<lambda>_. l)) s;
           (t, s) \<leftarrow> buddy_alloc 0x1000 s;
           s \<leftarrow> phys_memcpy t (kcr3 s) 0x1000 s;
           let s = upd_proc p (p_cr3_update (\<lambda>_. t AND NOT (hhdm_start s))) s;
           let hdr = read_ehdr (ram s) buf;
           s \<leftarrow> load_segments (unat (eh_phnum hdr)) p buf (buf + eh_phoff hdr) s;
           let s = upd_regs p (\<lambda>r. r\<lparr>rip := eh_entry hdr, rflags := 0x242,
             cs := GDT_SEGMENT_CODE_RING3 OR 3, ss := GDT_SEGMENT_DATA_RING3 OR 3\<rparr>) s;
           let s = upd_proc p (\<lambda>q. q\<lparr>p_stack_start := USER_STACK_BASE, p_stack_size := 0\<rparr>) s;
           (ustack, s) \<leftarrow> umalloc p 0x10000 ALLOC_USER_STACK 0 s;
           let top = p_stack_start (procs s p) + p_stack_size (procs s p);
           let s = upd_regs p (\<lambda>r. r\<lparr>rsp := top, rbp := top\<rparr>) s;
           s \<leftarrow> kfree kmap buf s;
           let s = upd_proc p (p_lock_update (\<lambda>_. 0)) s;
           Some (sint (p_pid (procs s p)), s)
         }
       }
     }
   }"

end
