(* ===== verification/Syscall.thy ===== *)
theory Syscall
  imports Elf
begin

unbundle bit_operations_syntax

text \<open>
  \<^verbatim>\<open>sched/syscall.c\<close>: the system calls and their dispatch. User memory is the part of the byte memory below
  \<open>hhdm_start\<close>; faults on unmapped user pages are not modelled. A handler returns a value, or the processor resumes a
  process (\<open>sys_exit\<close>). \<open>delim\<close> is the address of the string \<^verbatim>\<open>/\<close>.
\<close>

abbreviation (input) SYSCALL_MAX :: nat where "SYSCALL_MAX \<equiv> 0x100"
abbreviation (input) SYS_READ :: nat where "SYS_READ \<equiv> 0"
abbreviation (input) SYS_WRITE :: nat where "SYS_WRITE \<equiv> 1"
abbreviation (input) SYS_OPEN :: nat where "SYS_OPEN \<equiv> 2"
abbreviation (input) SYS_MMAP :: nat where "SYS_MMAP \<equiv> 9"
abbreviation (input) SYS_MUNMAP :: nat where "SYS_MUNMAP \<equiv> 11"
abbreviation (input) SYS_FORK :: nat where "SYS_FORK \<equiv> 57"
abbreviation (input) SYS_EXIT :: nat where "SYS_EXIT \<equiv> 60"
abbreviation (input) SYS_MKDIR :: nat where "SYS_MKDIR \<equiv> 83"
abbreviation (input) SYS_MKNOD :: nat where "SYS_MKNOD \<equiv> 133"
abbreviation (input) SYS_LSDIR :: nat where "SYS_LSDIR \<equiv> 254"
abbreviation (input) MAP_ANONYMOUS :: u32 where "MAP_ANONYMOUS \<equiv> 0x20"
abbreviation (input) S_IFIFO :: u32 where "S_IFIFO \<equiv> 0x1000"

section \<open>Files\<close>

text \<open>The caller is the user process behind the current kernel process.\<close>

definition caller :: "'a kernel_state_scheme \<Rightarrow> addr option" where
  "caller s = do { pid \<leftarrow> getupid s; proc_find pid s }"

definition upd_fdesc :: "addr \<Rightarrow> (file_descriptor \<Rightarrow> file_descriptor) \<Rightarrow> 'a kernel_state_scheme \<Rightarrow> 'a kernel_state_scheme" where
  "upd_fdesc p f s = s\<lparr>fdescs := (fdescs s)(p := f (fdescs s p))\<rparr>"

definition sys_read :: "'a kernel_state_scheme drivers \<Rightarrow> u32 \<Rightarrow> addr \<Rightarrow> u64 \<Rightarrow> 'a kernel_state_scheme \<Rightarrow> (int \<times> 'a kernel_state_scheme) option" where
  "sys_read dr fd buf count s =
    (if buf \<ge> hhdm_start s then Some (- EFAULT, s)
     else do {
       p \<leftarrow> caller s;
       if p = NULL then Some (- 1, s)
       else do {
         n \<leftarrow> rbt_search (p_fd_map (procs s p)) (scast fd) (rbnodes s);
         if n = NULL then Some (- EBADF, s)
         else do {
           let fdesc = rb_value (rbnodes s n);
           let file = fd_file (fdescs s fdesc);
           (tmp_buf, s) \<leftarrow> kzalloc kmap count ALLOC_KERN s;
           if tmp_buf = NULL then Some (- ENOMEM, s)
           else do {
             (ret, s) \<leftarrow> vfs_read dr file tmp_buf (fd_pos (fdescs s fdesc)) count s;
             let (ret, s) = (if ret > 0 then (ret, s\<lparr>ram := snd (memcpy buf tmp_buf count (ram s))\<rparr>) else (- 1, s));
             let s = upd_fdesc fdesc (fd_pos_update (\<lambda>q. q + of_int ret)) s;
             s \<leftarrow> kfree kmap tmp_buf s;
             Some (ret, s)
           }
         }
       }
     })"

definition sys_write :: "'a kernel_state_scheme drivers \<Rightarrow> u32 \<Rightarrow> addr \<Rightarrow> u64 \<Rightarrow> 'a kernel_state_scheme \<Rightarrow> (int \<times> 'a kernel_state_scheme) option" where
  "sys_write dr fd buf count s =
    (if buf \<ge> hhdm_start s then Some (- EFAULT, s)
     else do {
       p \<leftarrow> caller s;
       if p = NULL then Some (- 1, s)
       else do {
         n \<leftarrow> rbt_search (p_fd_map (procs s p)) (scast fd) (rbnodes s);
         if n = NULL then Some (- EBADF, s)
         else do {
           let fdesc = rb_value (rbnodes s n);
           let file = fd_file (fdescs s fdesc);
           (tmp_buf, s) \<leftarrow> kzalloc kmap count ALLOC_KERN s;
           if tmp_buf = NULL then Some (- ENOMEM, s)
           else do {
             let s = s\<lparr>ram := snd (memcpy tmp_buf buf count (ram s))\<rparr>;
             (ret, s) \<leftarrow> vfs_write dr file tmp_buf (fd_pos (fdescs s fdesc)) count s;
             s \<leftarrow> kfree kmap tmp_buf s;
             Some (if ret < 0 then - 1 else ret, s)
           }
         }
       }
     })"

definition file_ref :: "addr \<Rightarrow> 'a kernel_state_scheme \<Rightarrow> 'a kernel_state_scheme option" where
  "file_ref f s = do {
     l \<leftarrow> spinlock_acquire (f_ref_lock (files s f));
     Some (s\<lparr>files := (files s)(f := (files s f)\<lparr>f_ref_lock := 0, f_refcount := f_refcount (files s f) + 1\<rparr>)\<rparr>)
   }"

definition sys_open :: "'a kernel_state_scheme drivers \<Rightarrow> addr \<Rightarrow> addr \<Rightarrow> u32 \<Rightarrow> 'a kernel_state_scheme \<Rightarrow> (int \<times> 'a kernel_state_scheme) option" where
  "sys_open dr delim pathname flags s =
    (if pathname \<ge> hhdm_start s then Some (- EFAULT, s)
     else do {
       p \<leftarrow> caller s;
       if p = NULL then Some (- 1, s)
       else do {
         (file, err, s) \<leftarrow> vfs_open dr delim pathname s;
         if file = NULL then do { e \<leftarrow> err; Some (e, s) }
         else do {
           (fdesc, s) \<leftarrow> slab_alloc kmap (fd_slab s) s;
           fdno \<leftarrow> rbt_next_key (p_fd_map (procs s p)) (rbnodes s);
           assert_opt (fdesc \<noteq> NULL);
           let s = upd_fdesc fdesc (\<lambda>d. d\<lparr>fd_fd := ucast fdno, fd_file := file, fd_pos := 0, fd_flags := flags\<rparr>) s;
           s \<leftarrow> file_ref file s;
           (n, t, s) \<leftarrow> rbt_insert kmap fdno (p_fd_map (procs s p)) s;
           assert_opt (n \<noteq> NULL);
           let s = upd_proc p (p_fd_map_update (\<lambda>_. t)) s;
           Some (sint (ucast fdno :: u32), upd_node n (rb_value_update (\<lambda>_. fdesc)) s)
         }
       }
     })"

section \<open>Processes\<close>

definition sys_set_return :: "addr \<Rightarrow> u64 \<Rightarrow> 'a kernel_state_scheme \<Rightarrow> 'a kernel_state_scheme" where
  "sys_set_return p ret s = (if p = NULL then s else upd_regs p (rax_update (\<lambda>_. ret)) s)"

text \<open>If the process is not found the function returns without a value, which the dispatcher then uses; C leaves this undefined.\<close>

definition sys_exit :: "'a kernel_state_scheme \<Rightarrow> 'a kernel_state_scheme resume option" where
  "sys_exit s = do {
     pid \<leftarrow> getupid s;
     p \<leftarrow> proc_find pid s;
     assert_opt (p \<noteq> NULL);
     s \<leftarrow> proc_term pid s;
     schedule (proc_set_current 0 s)
   }"

partial_function (option) fork_fd_loop :: "addr \<Rightarrow> addr \<Rightarrow> 'a kernel_state_scheme \<Rightarrow> 'a kernel_state_scheme option" where
  "fork_fd_loop p node s =
    (if node = NULL then Some s
     else do {
       let fdesc = fdescs s (rb_value (rbnodes s node));
       (new, s) \<leftarrow> slab_alloc kmap (fd_slab s) s;
       assert_opt (new \<noteq> NULL);
       let s = upd_fdesc new (\<lambda>d. d\<lparr>fd_fd := fd_fd fdesc, fd_file := fd_file fdesc, fd_pos := fd_pos fdesc, fd_flags := fd_flags fdesc\<rparr>) s;
       s \<leftarrow> file_ref (fd_file fdesc) s;
       (n, t, s) \<leftarrow> rbt_insert kmap (scast (fd_fd fdesc)) (p_fd_map (procs s p)) s;
       assert_opt (n \<noteq> NULL);
       let s = upd_proc p (p_fd_map_update (\<lambda>_. t)) s;
       let s = upd_node n (rb_value_update (\<lambda>_. new)) s;
       node \<leftarrow> rbt_successor node (rbnodes s);
       fork_fd_loop p node s
     })"

definition sys_fork :: "'a kernel_state_scheme \<Rightarrow> (u64 \<times> 'a kernel_state_scheme) option" where
  "sys_fork s = do {
     parent \<leftarrow> caller s;
     (p, s) \<leftarrow> proc_create s;
     assert_opt (parent \<noteq> NULL);
     (c, s) \<leftarrow> proc_clone_mmap parent p s;
     node \<leftarrow> rbt_minimum (rt_root (p_fd_map (procs s parent))) (rbnodes s);
     s \<leftarrow> fork_fd_loop p node s;
     let s = upd_proc p (\<lambda>q. q\<lparr>p_parent := parent, p_regs := p_regs (procs s parent)\<rparr>) s;
     let s = sys_set_return p 0 s;
     let s = upd_proc p (p_state_update (\<lambda>_. PROC_STOPPED)) s;
     Some (p_pid (procs s p), s)
   }"

section \<open>Directories and nodes\<close>

primrec lsdir_loop :: "nat \<Rightarrow> addr \<Rightarrow> addr \<Rightarrow> mem \<Rightarrow> mem" where
  "lsdir_loop 0 dst src m = m"
| "lsdir_loop (Suc k) dst src m =
    lsdir_loop k (dst + dirent_size) (src + dirent_size) (set_d_vnode dst NULL (snd (memcpy dst src dirent_size m)))"

definition sys_lsdir :: "u32 \<Rightarrow> addr \<Rightarrow> u64 \<Rightarrow> 'a kernel_state_scheme \<Rightarrow> (int \<times> 'a kernel_state_scheme) option" where
  "sys_lsdir dirfd ents buf_size s = do {
     p \<leftarrow> caller s;
     if p = NULL then Some (- 1, s)
     else do {
       n \<leftarrow> rbt_search (p_fd_map (procs s p)) (scast dirfd) (rbnodes s);
       if n = NULL then Some (- EBADF, s)
       else do {
         let vno = f_vnode (files s (fd_file (fdescs s (rb_value (rbnodes s n)))));
         if vno = NULL then Some (- 1, s)
         else if v_flags (vnodes s vno) AND VFS_VTYPE_MASK \<noteq> VFS_VNO_DIR then Some (- ENOTDIR, s)
         else do {
           let ret = as_int (min (v_num_dirents (vnodes s vno)) (buf_size div dirent_size));
           Some (ret, s\<lparr>ram := lsdir_loop (nat ret) ents (v_dirents (vnodes s vno)) (ram s)\<rparr>)
         }
       }
     }
   }"

definition sys_mkdir :: "'a kernel_state_scheme drivers \<Rightarrow> addr \<Rightarrow> addr \<Rightarrow> u32 \<Rightarrow> 'a kernel_state_scheme \<Rightarrow> (int \<times> 'a kernel_state_scheme) option" where
  "sys_mkdir dr delim pathname mode s = do {
     n \<leftarrow> strlen pathname (ram s);
     (path_copy, s) \<leftarrow> kzalloc kmap (n + 1) ALLOC_KERN s;
     assert_opt (path_copy \<noteq> NULL);
     (x, m) \<leftarrow> strcpy path_copy pathname (ram s);
     name \<leftarrow> basename path_copy m;
     (dir, m) \<leftarrow> dirname path_copy m;
     noname \<leftarrow> strempty dir m;
     (parent_file, err, s) \<leftarrow> vfs_open dr delim (if noname then delim else dir) (s\<lparr>ram := m\<rparr>);
     if parent_file = NULL then do { e \<leftarrow> err; Some (e, s) }
     else do {
       (v, s) \<leftarrow> vfs_create_file dr (f_vnode (files s parent_file)) name mode s;
       if v \<noteq> NULL then Some (- 1, s)
       else do { (r, s) \<leftarrow> vfs_close parent_file s; Some (0, s) }
     }
   }"

definition sys_mknod :: "'a kernel_state_scheme drivers \<Rightarrow> addr \<Rightarrow> addr \<Rightarrow> u32 \<Rightarrow> 'a kernel_state_scheme \<Rightarrow> (int \<times> 'a kernel_state_scheme) option" where
  "sys_mknod dr delim pathname mode s =
    (if mode \<noteq> S_IFIFO then Some (- ENOSYS, s)
     else do {
       (v, s) \<leftarrow> vfs_mknod dr delim pathname mode s;
       Some (if v = NULL then - 1 else 0, s)
     })"

section \<open>Memory\<close>

definition sys_mmap :: "addr \<Rightarrow> u64 \<Rightarrow> u32 \<Rightarrow> 'a kernel_state_scheme \<Rightarrow> (u64 \<times> 'a kernel_state_scheme) option" where
  "sys_mmap a len flags s =
    (if flags AND MAP_ANONYMOUS = 0 then Some (of_int (- ENOSYS), s)
     else do {
       p \<leftarrow> caller s;
       if p = NULL then Some (- 1, s)
       else do {
         (ret, s) \<leftarrow> umalloc p len UA_SLAB a s;
         Some (if ret = NULL then of_int (- ENOMEM) else ret, s)
       }
     })"

definition sys_munmap :: "addr \<Rightarrow> 'a kernel_state_scheme \<Rightarrow> (u64 \<times> 'a kernel_state_scheme) option" where
  "sys_munmap a s = do {
     p \<leftarrow> caller s;
     if p = NULL then Some (- 1, s)
     else do { s \<leftarrow> ufree p a s; Some (0, s) }
   }"

section \<open>Dispatch\<close>

datatype 's sys_result = Ret u64 's | Switch "'s resume"

definition ret_int :: "(int \<times> 's) option \<Rightarrow> 's sys_result option" where
  "ret_int r = do { (n, s) \<leftarrow> r; Some (Ret (of_int n) s) }"

definition ret_word :: "(u64 \<times> 's) option \<Rightarrow> 's sys_result option" where
  "ret_word r = do { (n, s) \<leftarrow> r; Some (Ret n s) }"

definition call_syscall :: "'a kernel_state_scheme drivers \<Rightarrow> addr \<Rightarrow> syscall_fn \<Rightarrow> u64 \<Rightarrow> u64 \<Rightarrow> u64 \<Rightarrow> u64 \<Rightarrow> 'a kernel_state_scheme \<Rightarrow> 'a kernel_state_scheme sys_result option" where
  "call_syscall dr delim f a1 a2 a3 a4 s = (case f of
     Sys_read \<Rightarrow> ret_int (sys_read dr (ucast a1) a2 a3 s)
   | Sys_write \<Rightarrow> ret_int (sys_write dr (ucast a1) a2 a3 s)
   | Sys_open \<Rightarrow> ret_int (sys_open dr delim a1 (ucast a2) s)
   | Sys_mmap \<Rightarrow> ret_word (sys_mmap a1 a2 (ucast a4) s)
   | Sys_munmap \<Rightarrow> ret_word (sys_munmap a1 s)
   | Sys_fork \<Rightarrow> ret_word (sys_fork s)
   | Sys_exit \<Rightarrow> do { r \<leftarrow> sys_exit s; Some (Switch r) }
   | Sys_mkdir \<Rightarrow> ret_int (sys_mkdir dr delim a1 (ucast a2) s)
   | Sys_mknod \<Rightarrow> ret_int (sys_mknod dr delim a1 (ucast a2) s)
   | Sys_lsdir \<Rightarrow> ret_int (sys_lsdir (ucast a1) a2 a3 s))"

text \<open>The number is not checked against the size of the table; beyond it the code calls whatever follows in memory.\<close>

definition syscall :: "'a kernel_state_scheme drivers \<Rightarrow> addr \<Rightarrow> u64 \<Rightarrow> u64 \<Rightarrow> u64 \<Rightarrow> u64 \<Rightarrow> u64 \<Rightarrow> 'a kernel_state_scheme \<Rightarrow> 'a kernel_state_scheme sys_result option" where
  "syscall dr delim a1 a2 a3 a4 syscall_no s = do {
     assert_opt (unat syscall_no < length (syscall_table s));
     case syscall_table s ! unat syscall_no of
       None \<Rightarrow> Some (Ret (of_int (- ENOSYS)) s)
     | Some f \<Rightarrow> do {
         p \<leftarrow> proc_find (getpid s) s;
         if p = NULL then Some (Ret (- 1) s) else call_syscall dr delim f a1 a2 a3 a4 s
       }
   }"

definition syscall_insert :: "nat \<Rightarrow> syscall_fn \<Rightarrow> 'a kernel_state_scheme \<Rightarrow> 'a kernel_state_scheme" where
  "syscall_insert n f s = s\<lparr>syscall_table := (syscall_table s)[n := Some f]\<rparr>"

text \<open>The values the initialisation writes to the model-specific registers, from those it reads; \<open>gate\<close> is the address of \<open>gate_syscall\<close>.\<close>

record msrs =
  msr_star :: u64
  msr_lstar :: u64
  msr_efer :: u64
  msr_fmask :: u64

definition syscall_msrs :: "addr \<Rightarrow> msrs \<Rightarrow> msrs" where
  "syscall_msrs gate r = r\<lparr>
     msr_star := msr_star r OR push_bit 32 GDT_SEGMENT_CODE_RING0 OR push_bit 48 (GDT_SEGMENT_CODE_RING3 - 16),
     msr_lstar := gate, msr_efer := msr_efer r OR 1, msr_fmask := 0x200\<rparr>"

definition syscall_init :: "addr \<Rightarrow> msrs \<Rightarrow> 'a kernel_state_scheme \<Rightarrow> (msrs \<times> 'a kernel_state_scheme) option" where
  "syscall_init gate r s = do {
     (p, s) \<leftarrow> slab_create kmap 56 0x4000 0 s;
     let s = s\<lparr>fd_slab := p, syscall_table := replicate SYSCALL_MAX None\<rparr>;
     let s = syscall_insert SYS_LSDIR Sys_lsdir (syscall_insert SYS_EXIT Sys_exit (syscall_insert SYS_FORK Sys_fork
       (syscall_insert SYS_OPEN Sys_open (syscall_insert SYS_WRITE Sys_write (syscall_insert SYS_READ Sys_read s)))));
     let s = syscall_insert SYS_MKNOD Sys_mknod (syscall_insert SYS_MKDIR Sys_mkdir
       (syscall_insert SYS_MUNMAP Sys_munmap (syscall_insert SYS_MMAP Sys_mmap s)));
     Some (syscall_msrs gate r, s)
   }"

end
