(* ===== verification/Context.thy ===== *)
theory Context
  imports Syscall
begin

unbundle bit_operations_syntax

text \<open>
  \<^verbatim>\<open>sched/entry.S\<close>: saving and restoring the registers of a process around interrupts, exceptions and system
  calls, and the calls of the kernel in between. The processor is its registers and the words of the current stack, top first; \<open>procregs\<close> serves
  for both, its last five fields being the frame that an interrupt pushes and \<open>iretq\<close> pops. Each macro is given
  by its effect on the saved registers of the current process, which it finds with \<open>proc_current_regs\<close>, and on the stack. The scratch
  registers it uses on the way are those it has saved before.
\<close>

section \<open>The macros\<close>

definition save_context :: "procregs \<Rightarrow> procregs \<Rightarrow> procregs" where
  "save_context c r = r\<lparr>r11 := r11 c, r10 := r10 c, r9 := r9 c, r8 := r8 c, rdi := rdi c, rsi := rsi c,
     rdx := rdx c, rcx := rcx c, rax := rax c, rbx := rbx c, rbp := rbp c, r12 := r12 c, r13 := r13 c,
     r14 := r14 c, r15 := r15 c\<rparr>"

definition restore_context :: "procregs \<Rightarrow> procregs \<Rightarrow> procregs" where
  "restore_context r c = c\<lparr>rbx := rbx r, rcx := rcx r, rdx := rdx r, rsi := rsi r, rdi := rdi r, rbp := rbp r,
     r8 := r8 r, r9 := r9 r, r10 := r10 r, r11 := r11 r, r12 := r12 r, r13 := r13 r, r14 := r14 r,
     r15 := r15 r, rax := rax r\<rparr>"

fun save_iretq_frame :: "u64 list \<Rightarrow> procregs \<Rightarrow> (procregs \<times> u64 list) option" where
  "save_iretq_frame (a # b # c # d # e # stk) r =
     Some (r\<lparr>rip := a, cs := b, rflags := c, rsp := d, ss := e\<rparr>, stk)"
| "save_iretq_frame _ r = None"

definition restore_iretq_frame :: "procregs \<Rightarrow> u64 list \<Rightarrow> u64 list" where
  "restore_iretq_frame r stk = rip r # cs r # rflags r # rsp r # ss r # stk"

text \<open>The system call path keeps the stack pointer and the flags at that point, which are already the kernel's.\<close>

definition save_sysretq_frame :: "u64 \<Rightarrow> u64 \<Rightarrow> procregs \<Rightarrow> procregs" where
  "save_sysretq_frame cur_rsp cur_flags r = r\<lparr>rsp := cur_rsp, rflags := cur_flags\<rparr>"

text \<open>\<open>iretq\<close> loads the frame into the registers.\<close>

fun iretq :: "procregs \<Rightarrow> u64 list \<Rightarrow> (procregs \<times> u64 list) option" where
  "iretq c (a # b # f # d # e # stk) = Some (c\<lparr>rip := a, cs := b, rflags := f, rsp := d, ss := e\<rparr>, stk)"
| "iretq c _ = None"

text \<open>What the processor pushes when it takes an interrupt, and what the stack holds when an exception has an error code.\<close>

definition interrupt_frame :: "procregs \<Rightarrow> u64 list" where
  "interrupt_frame c = [rip c, cs c, rflags c, rsp c, ss c]"

section \<open>Entry points\<close>

text \<open>
  \<open>irq nr\<close> and \<open>exception nr\<close>: save, call the handler (which works on the saved registers and the rest of the state), restore.
\<close>

definition irq_gate :: "(procregs \<Rightarrow> procregs option) \<Rightarrow> procregs \<Rightarrow> u64 list \<Rightarrow> procregs \<Rightarrow> (procregs \<times> procregs \<times> u64 list) option" where
  "irq_gate handler c stk r = do {
     (r, stk) \<leftarrow> save_iretq_frame stk (save_context c r);
     r \<leftarrow> handler r;
     (c, stk) \<leftarrow> iretq (restore_context r c) (restore_iretq_frame r stk);
     Some (c, r, stk)
   }"

text \<open>\<open>exception_err nr\<close>: the frame is saved from the top of the stack, where the error code is; the next word is passed as the error.\<close>

definition exception_err_gate :: "(u64 \<Rightarrow> procregs \<Rightarrow> procregs option) \<Rightarrow> procregs \<Rightarrow> u64 list \<Rightarrow> procregs \<Rightarrow> (procregs \<times> procregs \<times> u64 list) option" where
  "exception_err_gate handler c stk r = do {
     (r, stk) \<leftarrow> save_iretq_frame stk (save_context c r);
     assert_opt (stk \<noteq> []);
     r \<leftarrow> handler (hd stk) r;
     (c, stk) \<leftarrow> iretq (restore_context r c) (restore_iretq_frame r stk);
     Some (c, r, stk)
   }"

text \<open>\<open>sswtch\<close> makes the running kernel process continue at \<open>ret\<close>, its last instruction.\<close>

definition sswtch_save :: "addr \<Rightarrow> procregs \<Rightarrow> procregs \<Rightarrow> procregs" where
  "sswtch_save ret c r = (save_context c r)\<lparr>ss := ss c, rsp := rsp c, rflags := rflags c, cs := cs c, rip := ret\<rparr>"

definition return_to_user :: "procregs \<Rightarrow> u64 list \<Rightarrow> (procregs \<times> u64 list) option" where
  "return_to_user r stk = iretq
     \<lparr>rax = rax r, rbx = rbx r, rcx = rcx r, rdx = rdx r, rsi = rsi r, rdi = rdi r, rbp = rbp r, r8 = r8 r,
      r9 = r9 r, r10 = r10 r, r11 = r11 r, r12 = r12 r, r13 = r13 r, r14 = r14 r, r15 = r15 r,
      rip = 0, cs = 0, rflags = 0, rsp = 0, ss = 0\<rparr>
     (rip r # cs r # rflags r # rsp r # ss r # stk)"

text \<open>\<open>sswtch\<close> as a whole: the state of the process is set to stopped and the scheduler runs.\<close>

definition sswtch :: "addr \<Rightarrow> procregs \<Rightarrow> 'a kernel_state_scheme \<Rightarrow> 'a kernel_state_scheme resume option" where
  "sswtch ret c s = do {
     p \<leftarrow> proc_current_regs s;
     assert_opt (p \<noteq> NULL);
     let s = upd_regs p (sswtch_save ret c) s;
     s \<leftarrow> proc_set_state (getpid s) PROC_STOPPED s;
     schedule s
   }"

section \<open>System calls\<close>

text \<open>
  The middle of both entries for system calls. \<open>proc_enter_kernel\<close> continues on the stack of the kernel process at \<open>ret\<close>, with the address of the saved
  registers as its argument; the arguments of the call are taken from there. The fifth argument, in \<open>r8\<close>, is used by no system call.
\<close>

definition gate_syscall_body ::
  "'a kernel_state_scheme drivers \<Rightarrow> addr \<Rightarrow> addr \<Rightarrow> addr \<Rightarrow> 'a kernel_state_scheme \<Rightarrow> 'a kernel_state_scheme sys_result option" where
  "gate_syscall_body dr delim ret p s = do {
     (j, s) \<leftarrow> proc_enter_kernel p ret s;
     let r = p_regs (procs s (j_arg j));
     res \<leftarrow> syscall dr delim (rdi r) (rsi r) (rdx r) (r10 r) (rax r) s;
     case res of
       Ret v s \<Rightarrow> do { (v, s) \<leftarrow> proc_leave_kernel v True s; Some (Ret v s) }
     | Switch r \<Rightarrow> Some (Switch r)
   }"

text \<open>A system call comes back to the caller with its registers, or the processor goes on with another process.\<close>

datatype 's gate_exit = Back procregs 's | Away "'s resume"

text \<open>The entry through interrupt 0x80. The frame for \<open>iretq\<close> is pushed on the kernel stack.\<close>

definition gate_syscall_int80 ::
  "'a kernel_state_scheme drivers \<Rightarrow> addr \<Rightarrow> addr \<Rightarrow> procregs \<Rightarrow> u64 list \<Rightarrow> 'a kernel_state_scheme \<Rightarrow> 'a kernel_state_scheme gate_exit option" where
  "gate_syscall_int80 dr delim ret c stk s = do {
     p \<leftarrow> proc_current_regs s;
     assert_opt (p \<noteq> NULL);
     (r, stk) \<leftarrow> save_iretq_frame stk (save_context c (p_regs (procs s p)));
     res \<leftarrow> gate_syscall_body dr delim ret p (upd_regs p (\<lambda>_. r) s);
     case res of
       Switch r \<Rightarrow> Some (Away r)
     | Ret v s \<Rightarrow> do {
         p \<leftarrow> proc_current_regs s;
         assert_opt (p \<noteq> NULL);
         let r = p_regs (procs s p);
         (c, stk) \<leftarrow> iretq ((restore_context r c)\<lparr>rax := v\<rparr>) (restore_iretq_frame r []);
         Some (Back c s)
       }
   }"

text \<open>
  The entry through the \<open>syscall\<close> instruction, which has left the return address in \<open>rcx\<close> and the flags in \<open>r11\<close>. On the way back \<open>rcx\<close> and
  \<open>r11\<close> are loaded from the frame, and then again, with all other registers, by \<open>restore_context\<close>; \<open>sysretq\<close> continues at
  \<open>rcx\<close>. The exchange of \<open>rax\<close> and \<open>rbp\<close> follows the code: it takes \<open>rax\<close> for the address of the saved registers.
\<close>

definition gate_syscall ::
  "'a kernel_state_scheme drivers \<Rightarrow> addr \<Rightarrow> addr \<Rightarrow> procregs \<Rightarrow> 'a kernel_state_scheme \<Rightarrow> 'a kernel_state_scheme gate_exit option" where
  "gate_syscall dr delim ret c s = do {
     p \<leftarrow> proc_current_regs s;
     assert_opt (p \<noteq> NULL);
     let r = save_sysretq_frame (rsp c) (rflags c) (save_context c (p_regs (procs s p)));
     res \<leftarrow> gate_syscall_body dr delim ret p (upd_regs p (\<lambda>_. r) s);
     case res of
       Switch r \<Rightarrow> Some (Away r)
     | Ret v s \<Rightarrow> do {
         p \<leftarrow> proc_current_regs s;
         assert_opt (p \<noteq> NULL);
         let r = p_regs (procs s p);
         let c = restore_context r (c\<lparr>rcx := rip r, r11 := rflags r, rbp := v, rsp := rsp r\<rparr>);
         let c = c\<lparr>rax := rbp c, rbp := load64 (ram s) (rax c + 48)\<rparr>;
         Some (Back (c\<lparr>rip := rcx c, rflags := r11 c\<rparr>) s)
       }
   }"

section \<open>Saving and restoring are inverse\<close>


text \<open>
  The exceptions with an error code save the frame one word too high: the error code becomes the saved instruction pointer, the
  instruction pointer becomes the code segment and so on, and the handler is passed the interrupted stack
  segment as the error code.
\<close>

lemma exception_err_frame_shifted:
  "exception_err_gate h c (err # interrupt_frame c @ stk) r =
     do {
       r' \<leftarrow> h (ss c) ((save_context c r)\<lparr>rip := err, cs := rip c, rflags := cs c, rsp := rflags c, ss := rsp c\<rparr>);
       Some (restore_context r' c\<lparr>rip := rip r', cs := cs r', rflags := rflags r', rsp := rsp r', ss := ss r'\<rparr>, r', ss c # stk)
     }"
  by (simp add: exception_err_gate_def interrupt_frame_def restore_iretq_frame_def)

end
