(* ===== verification/Boot_State.thy ===== *)
theory Boot_State
  imports Context
begin

text \<open>
  The globals as the loader leaves them, before \<open>kmain\<close> runs: every global without an initialiser is zero. Later theories extend it by
  the globals of their components; the witnesses of their theorems start from it.
\<close>

definition boot_state :: kernel_state where
  "boot_state = \<lparr>ram = (\<lambda>_. 0), headers = (\<lambda>_. \<lparr>usable_base = 0, usable_len = 0, max_depth = 0, bitmap_len = 0\<rparr>),
     mem_regions = [], hhdm_start = 0xFFFF800000000000,
     slabs = (\<lambda>_. \<lparr>sl_size = 0, sl_tsize = 0, sl_num = 0, sl_free = 0, sl_flags = 0, sl_align = 0, sl_nextfree = 0, sl_next = 0,
       sl_prev = 0, sl_lock = 0\<rparr>), links = (\<lambda>_. 0), kdefault_attrs = 3,
     rbnodes = (\<lambda>_. \<lparr>rb_parent = 0, rb_left = 0, rb_right = 0, rb_color = 0, rb_key = 0, rb_value = 0, rb_value2 = 0, rb_value3 = 0\<rparr>),
     rbt_slab = 0, kmalloc_tree = zero_tree, umalloc_tree = zero_tree, kslab_cache = [], slab_cache_dma = [], uslab_cache = [],
     ptes = (\<lambda>_. 0), page_slab = 0, alloc_page_fn = Alloc_page_early, early = \<lparr>kmem = 0, kmem_len = 0, hwm = 0\<rparr>,
     kmap_tree = None, kmap_lock = 0, pml4 = 0, kcr3 = 0, cr3 = 0, procs = (\<lambda>_. zero_proc),
     bdevs = (\<lambda>_. \<lparr>bd_name = 0, bd_data = 0, bd_size = 0, bd_block_count = 0, bd_block_size = 0, bd_lba_start = 0,
       bd_partition_count = 0, bd_fs = 0, bd_parent = 0, bd_next_part = 0\<rparr>), block_devices = [],
     vnodes = (\<lambda>_. zero_vnode), files = (\<lambda>_. zero_file), fss = (\<lambda>_. zero_fs), fs_opss = (\<lambda>_. zero_fs_ops),
     ringbufs = (\<lambda>_. \<lparr>rb_buf = 0, rb_size = 0, rb_head = 0, rb_tail = 0\<rparr>),
     dev_infos = (\<lambda>_. \<lparr>di_dev = 0, di_impl = Serial_impl\<rparr>), rootfs = 0, devfs = 0, ext2_ops = 0, file_slab = 0, vnode_slab = 0,
     mappings = (\<lambda>_. zero_mapping), allocations = (\<lambda>_. zero_allocation),
     fdescs = (\<lambda>_. \<lparr>fd_file = 0, fd_fd = 0, fd_pos = 0, fd_flags = 0\<rparr>), cpu = 0, proc_slab = 0, proc_tree = zero_tree,
     proc_current = (\<lambda>_. 0), kernel_procs = 0, pid_counter = 0, kpid_counter = 0, fd_slab = 0,
     syscall_table = replicate 256 None\<rparr>"

end
