(* ===== verification/Page_Walk.thy ===== *)
theory Page_Walk
  imports Boot_State
begin

unbundle bit_operations_syntax

text \<open>
  The page tables of \<^verbatim>\<open>mem/page.c\<close> as a tree of tables: a ghost map gives every table page its level, present entries of the upper levels lead to
  tables one level below, and no two of them to the same table. Mapping a range keeps this, makes every page of the range
  translate to its frame, and leaves the translation of every other page alone. The tables come from an allocator of pages, the
  locale \<open>page_supply\<close>; the allocator used while booting is an interpretation.
\<close>

section \<open>Entries\<close>

definition page_ok :: "u64 \<Rightarrow> addr \<Rightarrow> bool" where
  "page_ok hhdm p \<longleftrightarrow> p AND 0xFFF = 0 \<and> p OR hhdm = p"

definition target :: "u64 \<Rightarrow> u64 \<Rightarrow> addr" where
  "target hhdm e = (e AND - 4096) OR hhdm"

definition present :: "u64 \<Rightarrow> bool" where
  "present e \<longleftrightarrow> e AND 1 \<noteq> 0"

lemma mask12: "(- 4096 :: u64) = NOT (mask 12)" "(0xFFF :: u64) = mask 12"
  by (simp_all add: mask_eq_exp_minus_1 not_eq_complement)

lemma page_ok_bits: "page_ok hhdm p \<Longrightarrow> i < 12 \<Longrightarrow> \<not> bit p i" "page_ok hhdm p \<Longrightarrow> bit hhdm i \<Longrightarrow> bit p i"
proof -
  assume p: "page_ok hhdm p"
  show "\<not> bit p i" if "i < 12"
  proof
    assume "bit p i"
    then have "bit (p AND mask 12) i" using that by (simp add: bit_simps)
    then show False using p by (simp add: page_ok_def mask12)
  qed
  show "bit p i" if "bit hhdm i"
    using p that unfolding page_ok_def by (metis bit_or_iff)
qed

lemma target_new_entry:
  assumes "page_ok hhdm r"
  shows "target hhdm (((r OR 3) AND NOT hhdm) OR (attr AND 5)) = r" and "present (((r OR 3) AND NOT hhdm) OR (attr AND 5))"
proof -
  have h: "\<not> bit hhdm i" if "i < 12" for i using page_ok_bits [OF assms] that by blast
  have "(3 :: u64) AND mask 12 = 3" "(5 :: u64) AND mask 12 = 5" by (simp_all add: mask_eq_exp_minus_1)
  then have b: "\<not> bit (3 :: u64) i" "\<not> bit (5 :: u64) i" if "\<not> i < 12" for i
    using that by (metis bit_and_iff bit_mask_iff)+
  show "target hhdm (((r OR 3) AND NOT hhdm) OR (attr AND 5)) = r"
  proof (rule bit_eqI)
    fix i assume "possible_bit TYPE(u64) i"
    then show "bit (target hhdm (((r OR 3) AND NOT hhdm) OR (attr AND 5))) i = bit r i"
      unfolding target_def mask12 using h b [of i] page_ok_bits [OF assms, of i] by (auto simp: bit_simps)
  qed
  have "bit (((r OR 3) AND NOT hhdm) OR (attr AND 5)) 0" using h [of 0] by (simp add: bit_simps)
  then show "present (((r OR 3) AND NOT hhdm) OR (attr AND 5))" by (auto simp: present_def and_one_eq odd_iff_mod_2_eq_one bit_0)
qed

lemma page_of_offset:
  assumes "page_ok h p" "x < 4096"
  shows "(p + x) AND NOT (mask 12) = p"
proof -
  have m: "x AND mask 12 = x" using assms(2) by (intro less_mask_eq) simp
  have "bit p k \<Longrightarrow> \<not> bit x k" for k
    using page_ok_bits(1) [OF assms(1), of k] m by (metis bit_and_iff bit_mask_iff)
  then have e: "p + x = p OR x" by (intro disjunctive_add) blast
  have "bit ((p OR x) AND NOT (mask 12)) k = bit p k" for k
    using page_ok_bits(1) [OF assms(1), of k] m by (metis bit_and_iff bit_mask_iff bit_not_iff bit_or_iff possible_bit_word bit_imp_possible_bit)
  then show ?thesis unfolding e by (intro bit_eqI)
qed

lemma entry_offset: "i < 512 \<Longrightarrow> 8 * i < (4096 :: u64)"
  by (auto simp: word_less_nat_alt unat_word_ariths)

lemma pte_addr_page: "page_ok h p \<Longrightarrow> i < 512 \<Longrightarrow> pte_addr p i AND NOT (mask 12) = p"
  by (intro page_of_offset entry_offset)

lemma pte_addr_inj:
  assumes "page_ok h p" "page_ok h q" "i < 512" "j < 512" "pte_addr p i = pte_addr q j"
  shows "p = q \<and> i = j"
proof -
  have "p = q" using pte_addr_page assms by metis
  moreover have "unat (8 * i) = 8 * unat i" "unat (8 * j) = 8 * unat j"
    using assms(3,4) by (simp_all add: word_less_nat_alt unat_word_ariths)
  ultimately show ?thesis using assms(5) by (metis add_left_cancel mult_left_cancel word_unat_eq_iff zero_neq_numeral)
qed

section \<open>Trees of tables\<close>

definition table_entry :: "(addr \<Rightarrow> u64) \<Rightarrow> addr \<Rightarrow> u64 \<Rightarrow> u64" where
  "table_entry P p i = P (pte_addr p i)"

definition tables :: "u64 \<Rightarrow> (addr \<Rightarrow> u64) \<Rightarrow> addr \<Rightarrow> (addr \<rightharpoonup> nat) \<Rightarrow> bool" where
  "tables hhdm P root lev \<longleftrightarrow> lev root = Some 4 \<and> (\<forall>p \<in> dom lev. page_ok hhdm p \<and> p \<noteq> NULL)
     \<and> (\<forall>p k i. lev p = Some (Suc k) \<and> 0 < k \<and> i < 512 \<and> present (table_entry P p i) \<longrightarrow> lev (target hhdm (table_entry P p i)) = Some k)
     \<and> (\<forall>p k i q j. lev p = Some (Suc k) \<and> 0 < k \<and> i < 512 \<and> present (table_entry P p i)
         \<and> lev q = Some (Suc k) \<and> j < 512 \<and> present (table_entry P q j)
         \<and> target hhdm (table_entry P p i) = target hhdm (table_entry P q j) \<longrightarrow> p = q \<and> i = j)"

lemma tablesD:
  assumes "tables hhdm P root lev"
  shows "lev root = Some 4" "lev p = Some k \<Longrightarrow> page_ok hhdm p" "lev p = Some k \<Longrightarrow> p \<noteq> NULL"
    "lev p = Some (Suc k) \<Longrightarrow> 0 < k \<Longrightarrow> i < 512 \<Longrightarrow> present (table_entry P p i) \<Longrightarrow> lev (target hhdm (table_entry P p i)) = Some k"
    "lev p = Some (Suc k) \<Longrightarrow> 0 < k \<Longrightarrow> i < 512 \<Longrightarrow> present (table_entry P p i) \<Longrightarrow> lev q = Some (Suc k) \<Longrightarrow> j < 512 \<Longrightarrow>
      present (table_entry P q j) \<Longrightarrow> target hhdm (table_entry P p i) = target hhdm (table_entry P q j) \<Longrightarrow> p = q \<and> i = j"
  using assms unfolding tables_def by blast+

lemma tablesI:
  assumes "lev root = Some 4" "\<And>p k. lev p = Some k \<Longrightarrow> page_ok hhdm p \<and> p \<noteq> NULL"
    and "\<And>p k i. lev p = Some (Suc k) \<Longrightarrow> 0 < k \<Longrightarrow> i < 512 \<Longrightarrow> present (table_entry P p i) \<Longrightarrow> lev (target hhdm (table_entry P p i)) = Some k"
    and "\<And>p k i q j. lev p = Some (Suc k) \<Longrightarrow> 0 < k \<Longrightarrow> i < 512 \<Longrightarrow> present (table_entry P p i) \<Longrightarrow> lev q = Some (Suc k) \<Longrightarrow> j < 512 \<Longrightarrow>
      present (table_entry P q j) \<Longrightarrow> target hhdm (table_entry P p i) = target hhdm (table_entry P q j) \<Longrightarrow> p = q \<and> i = j"
  shows "tables hhdm P root lev"
  using assms unfolding tables_def by blast

text \<open>Entries of different tables, or different entries of a table, are different words.\<close>

lemma table_entry_upd:
  assumes "page_ok h p" "page_ok h q" "i < 512" "j < 512"
  shows "table_entry (P(pte_addr p i := e)) q j = (if p = q \<and> i = j then e else table_entry P q j)"
  using pte_addr_inj [OF assms] by (auto simp: table_entry_def)

lemma table_entry_zero:
  assumes "page_ok h r" "page_ok h q" "j < 512"
  shows "table_entry (zero_table r P) q j = (if q = r then 0 else table_entry P q j)"
proof -
  have "q = r" if "pte_addr q j - r < 4096"
    using page_of_offset [OF assms(1) that] pte_addr_page [OF assms(2,3)] by simp
  then show ?thesis using entry_offset [OF assms(3)] by (auto simp: table_entry_def zero_table_def)
qed

text \<open>A leaf entry may be written without touching the tree.\<close>

lemma tables_leaf:
  assumes T: "tables hhdm P root lev" and p: "lev p = Some 1" "i < 512"
  shows "tables hhdm (P(pte_addr p i := e)) root lev"
proof -
  have eq: "table_entry (P(pte_addr p i := e)) q j = table_entry P q j" if "lev q = Some (Suc k)" "0 < k" "j < 512" for q k j
    using table_entry_upd [of hhdm p q i j P e] tablesD(2) [OF T p(1)] tablesD(2) [OF T that(1)] p that by auto
  show ?thesis
  proof (rule tablesI)
    show "lev root = Some 4" by (rule tablesD(1) [OF T])
    show "page_ok hhdm p \<and> p \<noteq> NULL" if "lev p = Some k" for p k using tablesD(2,3) [OF T that] by blast
  next
    fix q k j assume "lev q = Some (Suc k)" "0 < k" "j < 512" "present (table_entry (P(pte_addr p i := e)) q j)"
    then show "lev (target hhdm (table_entry (P(pte_addr p i := e)) q j)) = Some k" using tablesD(4) [OF T] eq by simp
  next
    fix q k j q' j'
    assume "lev q = Some (Suc k)" "0 < k" "j < 512" "present (table_entry (P(pte_addr p i := e)) q j)" "lev q' = Some (Suc k)" "j' < 512"
      "present (table_entry (P(pte_addr p i := e)) q' j')"
      "target hhdm (table_entry (P(pte_addr p i := e)) q j) = target hhdm (table_entry (P(pte_addr p i := e)) q' j')"
    then show "q = q' \<and> j = j'" using tablesD(5) [OF T, of q k j q' j'] eq by simp
  qed
qed

text \<open>A new table: what \<open>pagemap_traverse\<close> does when the entry is not present.\<close>

definition new_entry :: "u64 \<Rightarrow> u64 \<Rightarrow> addr \<Rightarrow> u64" where
  "new_entry hhdm attr r = ((r OR 3) AND NOT hhdm) OR (attr AND 5)"

lemma tables_new:
  fixes attr :: u64
  assumes T: "tables hhdm P root lev" and r: "page_ok hhdm r" "r \<noteq> NULL" "lev r = None"
    and p: "lev p = Some (Suc k)" "0 < k" "i < 512"
  defines "P' \<equiv> (zero_table r P)(pte_addr p i := new_entry hhdm attr r)"
  shows "tables hhdm P' root (lev(r \<mapsto> k))"
    and "lev q = Some l \<Longrightarrow> j < 512 \<Longrightarrow> table_entry P' q j = (if q = p \<and> j = i then new_entry hhdm attr r else table_entry P q j)"
proof -
  have pr: "p \<noteq> r" "page_ok hhdm p" using p(1) r(3) tablesD(2) [OF T p(1)] by auto
  have n: "target hhdm (new_entry hhdm attr r) = r" "present (new_entry hhdm attr r)"
    using target_new_entry [OF r(1)] by (simp_all add: new_entry_def)
  have old: "table_entry P' q j = (if q = p \<and> j = i then new_entry hhdm attr r else table_entry P q j)" if "lev q = Some l" "j < 512" for q l j
    using table_entry_upd [OF pr(2) tablesD(2) [OF T that(1)] p(3) that(2)] table_entry_zero [OF r(1) tablesD(2) [OF T that(1)] that(2)] that(1) r(3)
    by (auto simp: P'_def)
  then show "lev q = Some l \<Longrightarrow> j < 512 \<Longrightarrow> table_entry P' q j = (if q = p \<and> j = i then new_entry hhdm attr r else table_entry P q j)" by blast
  have new: "\<not> present (table_entry P' r j)" if "j < 512" for j
    using table_entry_upd [OF pr(2) r(1) p(3) that] table_entry_zero [OF r(1) r(1) that] pr(1) by (simp add: P'_def present_def)
  have tgt: "target hhdm (table_entry P' q j) = r \<or> lev (target hhdm (table_entry P' q j)) = Some l"
    and tgt': "target hhdm (table_entry P' q j) = r \<longleftrightarrow> q = p \<and> j = i"
    if "lev q = Some (Suc l)" "0 < l" "j < 512" "present (table_entry P' q j)" for q l j
    using old [OF that(1,3)] that tablesD(4) [OF T that(1-3)] n r(3) by (auto split: if_splits)
  show "tables hhdm P' root (lev(r \<mapsto> k))"
  proof (rule tablesI)
    show "(lev(r \<mapsto> k)) root = Some 4" using tablesD(1) [OF T] r(3) by auto
    show "page_ok hhdm p \<and> p \<noteq> NULL" if "(lev(r \<mapsto> k)) p = Some k'" for p k'
      using that r tablesD(2,3) [OF T] by (cases "p = r") auto
  next
    fix q l j assume a: "(lev(r \<mapsto> k)) q = Some (Suc l)" "0 < l" "j < 512" "present (table_entry P' q j)"
    then have q: "lev q = Some (Suc l)" using new by (cases "q = r") auto
    show "(lev(r \<mapsto> k)) (target hhdm (table_entry P' q j)) = Some l"
      using tgt [OF q a(2-4)] tgt' [OF q a(2-4)] q p(1) by auto
  next
    fix q l j q' j'
    assume a: "(lev(r \<mapsto> k)) q = Some (Suc l)" "0 < l" "j < 512" "present (table_entry P' q j)" "(lev(r \<mapsto> k)) q' = Some (Suc l)" "j' < 512"
      "present (table_entry P' q' j')" "target hhdm (table_entry P' q j) = target hhdm (table_entry P' q' j')"
    have q: "lev q = Some (Suc l)" "lev q' = Some (Suc l)" using a new by (metis fun_upd_apply)+
    show "q = q' \<and> j = j'"
    proof (cases "q = p \<and> j = i")
      case True
      then have "target hhdm (table_entry P' q' j') = r" using tgt' [OF q(1) a(2-4)] a(8) by simp
      then show ?thesis using tgt' [OF q(2) a(2,6,7)] True by blast
    next
      case False
      then have "target hhdm (table_entry P' q' j') \<noteq> r" using tgt' [OF q(1) a(2-4)] a(8) by simp
      then have "\<not> (q' = p \<and> j' = i)" using tgt' [OF q(2) a(2,6,7)] by blast
      then have e: "table_entry P' q j = table_entry P q j" "table_entry P' q' j' = table_entry P q' j'"
        using old [OF q(1) a(3)] old [OF q(2) a(6)] False by presburger+
      show ?thesis using tablesD(5) [OF T q(1) a(2,3) _ q(2) a(6)] a(4,7,8) unfolding e by blast
    qed
  qed
qed

section \<open>Walks\<close>

definition hop :: "u64 \<Rightarrow> (addr \<Rightarrow> u64) \<Rightarrow> addr \<Rightarrow> u64 \<Rightarrow> addr \<Rightarrow> bool" where
  "hop hhdm P p i q \<longleftrightarrow> present (table_entry P p i) \<and> target hhdm (table_entry P p i) = q"

definition walks :: "u64 \<Rightarrow> (addr \<Rightarrow> u64) \<Rightarrow> addr \<Rightarrow> addr \<Rightarrow> addr \<Rightarrow> bool" where
  "walks hhdm P root v pt \<longleftrightarrow> (\<exists>a b. hop hhdm P root (pdpn v) a \<and> hop hhdm P a (pdn v) b \<and> hop hhdm P b (ptn v) pt)"

definition page_index :: "addr \<Rightarrow> u64 \<times> u64 \<times> u64 \<times> u64" where
  "page_index v = (pdpn v, pdn v, ptn v, pn v)"

lemma index_bounds [simp]: "pdpn v < 512" "pdn v < 512" "ptn v < 512" "pn v < 512"
proof -
  have "x AND 0x1FF < (512 :: u64)" for x
    using and_mask_less' [of 9 x] by (simp add: mask_eq_exp_minus_1)
  then show "pdpn v < 512" "pdn v < 512" "ptn v < 512" "pn v < 512" by (simp_all add: pdpn_def pdn_def ptn_def pn_def)
qed

text \<open>The pages of a range of at most 2^36 pages have different indices.\<close>

lemma page_index_number:
  assumes "page_index v = page_index w"
  shows "take_bit 36 (drop_bit 12 v) = take_bit 36 (drop_bit 12 w)"
proof (rule bit_eqI)
  have m: "(0x1FF :: u64) = mask 9" by (simp add: mask_eq_exp_minus_1)
  fix i assume "possible_bit TYPE(u64) i"
  have p: "take_bit 9 (drop_bit 12 v) = take_bit 9 (drop_bit 12 w)" "take_bit 9 (drop_bit 21 v) = take_bit 9 (drop_bit 21 w)"
    "take_bit 9 (drop_bit 30 v) = take_bit 9 (drop_bit 30 w)" "take_bit 9 (drop_bit 39 v) = take_bit 9 (drop_bit 39 w)"
    using assms unfolding page_index_def pn_def ptn_def pdn_def pdpn_def m by (simp_all add: take_bit_eq_mask)
  have q: "j < 9 \<Longrightarrow> bit v (j + 12) = bit w (j + 12)" "j < 9 \<Longrightarrow> bit v (j + 21) = bit w (j + 21)" "j < 9 \<Longrightarrow> bit v (j + 30) = bit w (j + 30)"
    "j < 9 \<Longrightarrow> bit v (j + 39) = bit w (j + 39)" for j
    using p [THEN arg_cong, of "\<lambda>x. bit x j"] by (simp_all add: bit_simps add.commute)
  consider "i < 9" | "9 \<le> i" "i < 18" | "18 \<le> i" "i < 27" | "27 \<le> i" "i < 36" | "36 \<le> i" by linarith
  then show "bit (take_bit 36 (drop_bit 12 v)) i = bit (take_bit 36 (drop_bit 12 w)) i"
    using q(1) [of i] q(2) [of "i - 9"] q(3) [of "i - 18"] q(4) [of "i - 27"] by cases (simp_all add: bit_simps add.commute)
qed

lemma page_index_next:
  assumes "0 < k" "k < 2 ^ 36"
  shows "page_index v \<noteq> page_index (v + 4096 * of_nat k)"
proof
  assume "page_index v = page_index (v + 4096 * of_nat k)"
  then have "unat (take_bit 36 (drop_bit 12 v)) = unat (take_bit 36 (drop_bit 12 (v + 4096 * of_nat k)))"
    using page_index_number by metis
  then have e: "unat v div 4096 mod 2 ^ 36 = unat (v + 4096 * of_nat k) div 4096 mod 2 ^ 36"
    by (simp add: take_bit_eq_mod drop_bit_eq_div unat_div_distrib unat_mod_distrib)
  have "unat (v + 4096 * of_nat k) = (unat v + 4096 * k) mod (4096 * 2 ^ 52)"
    by (simp add: unat_word_ariths unat_of_nat mod_simps)
  moreover have "y mod (4096 * 2 ^ 52) div 4096 = y div 4096 mod 2 ^ 52" for y :: nat
    unfolding mod_mult2_eq by simp
  ultimately have "unat (v + 4096 * of_nat k) div 4096 = (unat v + 4096 * k) div 4096 mod 2 ^ 52" by metis
  then have "unat (v + 4096 * of_nat k) div 4096 mod 2 ^ 36 = (unat v div 4096 + k) mod 2 ^ 52 mod 2 ^ 36" by (simp add: add.commute)
  also have "\<dots> = (unat v div 4096 + k) mod 2 ^ 36" by (simp add: mod_mod_cancel)
  finally have "(unat v div 4096 + k) mod 2 ^ 36 = unat v div 4096 mod 2 ^ 36" using e by simp
  then have "2 ^ 36 dvd k" using mod_eq_dvd_iff_nat [of "unat v div 4096" "unat v div 4096 + k" "2 ^ 36"] by simp
  then show False using assms nat_dvd_not_less by blast
qed
lemma hop_level: "tables hhdm P root lev \<Longrightarrow> lev p = Some (Suc k) \<Longrightarrow> 0 < k \<Longrightarrow> i < 512 \<Longrightarrow> hop hhdm P p i q \<Longrightarrow> lev q = Some k"
  using tablesD(4) by (auto simp: hop_def)

lemma hop_inj:
  "tables hhdm P root lev \<Longrightarrow> lev p = Some (Suc k) \<Longrightarrow> lev p' = Some (Suc k) \<Longrightarrow> 0 < k \<Longrightarrow> i < 512 \<Longrightarrow> j < 512 \<Longrightarrow>
   hop hhdm P p i q \<Longrightarrow> hop hhdm P p' j q \<Longrightarrow> p = p' \<and> i = j"
  using tablesD(5) [of hhdm P root lev p k i p' j] by (auto simp: hop_def)

lemma walks_levels:
  assumes "tables hhdm P root lev" "hop hhdm P root (pdpn v) a" "hop hhdm P a (pdn v) b" "hop hhdm P b (ptn v) pt"
  shows "lev root = Some (Suc 3)" "lev a = Some (Suc 2)" "lev b = Some (Suc 1)" "lev pt = Some 1"
proof -
  show r: "lev root = Some (Suc 3)" using tablesD(1) [OF assms(1)] by simp
  show a: "lev a = Some (Suc 2)" using hop_level [OF assms(1) r _ _ assms(2)] by simp
  show b: "lev b = Some (Suc 1)" using hop_level [OF assms(1) a _ _ assms(3)] by simp
  show "lev pt = Some 1" using hop_level [OF assms(1) b _ _ assms(4)] by simp
qed

text \<open>Two addresses with the same last table differ at most in the index of the page.\<close>

lemma walks_same_table:
  assumes T: "tables hhdm P root lev" and "walks hhdm P root v pt" "walks hhdm P root w pt"
  shows "pdpn v = pdpn w \<and> pdn v = pdn w \<and> ptn v = ptn w"
proof -
  obtain a b where v: "hop hhdm P root (pdpn v) a" "hop hhdm P a (pdn v) b" "hop hhdm P b (ptn v) pt"
    using assms(2) by (auto simp: walks_def)
  obtain a' b' where w: "hop hhdm P root (pdpn w) a'" "hop hhdm P a' (pdn w) b'" "hop hhdm P b' (ptn w) pt"
    using assms(3) by (auto simp: walks_def)
  note lv = walks_levels [OF T v] and lw = walks_levels [OF T w]
  have 1: "b = b' \<and> ptn v = ptn w" using hop_inj [OF T lv(3) lw(3) _ _ _ v(3) w(3)] by simp
  then have 2: "a = a' \<and> pdn v = pdn w" using hop_inj [OF T lv(2) lw(2) _ _ _ v(2), of "pdn w"] w(2) by simp
  then have "pdpn v = pdpn w" using hop_inj [OF T lv(1) lw(1) _ _ _ v(1), of "pdpn w"] w(1) by simp
  with 1 2 show ?thesis by simp
qed

text \<open>\<open>virt_to_phys\<close> follows the walk.\<close>

lemma virt_to_phys_walk:
  assumes "page_ok (hhdm_start s) root" "walks (hhdm_start s) (ptes s) root v pt"
  shows "virt_to_phys v (root AND NOT (hhdm_start s)) s = (table_entry (ptes s) pt (pn v) AND - 4096) AND NOT (hhdm_start s)"
proof -
  have r: "(root AND NOT (hhdm_start s)) OR hhdm_start s = root"
    using page_ok_bits(2) [OF assms(1)] by (intro bit_eqI) (auto simp: bit_simps)
  show ?thesis
    using assms(2) unfolding virt_to_phys_def Let_def r by (auto simp: walks_def hop_def target_def table_entry_def)
qed

text \<open>Entries that were present, and all entries of the lowest tables, stay.\<close>

definition grows :: "(addr \<Rightarrow> u64) \<Rightarrow> (addr \<rightharpoonup> nat) \<Rightarrow> (addr \<Rightarrow> u64) \<Rightarrow> bool" where
  "grows P lev P' \<longleftrightarrow> (\<forall>q l j. lev q = Some l \<and> j < 512 \<and> (l = 1 \<or> present (table_entry P q j)) \<longrightarrow> table_entry P' q j = table_entry P q j)"

lemma grows_refl [simp]: "grows P lev P"
  by (simp add: grows_def)

lemma grows_trans: "grows P lev P' \<Longrightarrow> grows P' lev' P'' \<Longrightarrow> lev \<subseteq>\<^sub>m lev' \<Longrightarrow> grows P lev P''"
  unfolding grows_def map_le_def by (metis domI)

lemma grows_leaf: "grows P lev P' \<Longrightarrow> lev q = Some 1 \<Longrightarrow> j < 512 \<Longrightarrow> table_entry P' q j = table_entry P q j"
  unfolding grows_def by blast

lemma grows_hop: "grows P lev P' \<Longrightarrow> lev p = Some l \<Longrightarrow> i < 512 \<Longrightarrow> hop hhdm P p i q \<Longrightarrow> hop hhdm P' p i q"
  unfolding grows_def hop_def by metis

lemma grows_walks:
  assumes "tables hhdm P root lev" "grows P lev P'" "walks hhdm P root v pt"
  shows "walks hhdm P' root v pt"
proof -
  obtain a b where v: "hop hhdm P root (pdpn v) a" "hop hhdm P a (pdn v) b" "hop hhdm P b (ptn v) pt"
    using assms(3) by (auto simp: walks_def)
  note l = walks_levels [OF assms(1) v]
  show ?thesis
    unfolding walks_def using grows_hop [OF assms(2) l(1) _ v(1)] grows_hop [OF assms(2) l(2) _ v(2)] grows_hop [OF assms(2) l(3) _ v(3)]
    by auto
qed

section \<open>Mapping, for any supply of pages\<close>

definition table_state :: "('a page_state_scheme \<Rightarrow> bool) \<Rightarrow> ('a page_state_scheme \<Rightarrow> addr set) \<Rightarrow> addr \<Rightarrow> (addr \<rightharpoonup> nat) \<Rightarrow> 'a page_state_scheme \<Rightarrow> bool" where
  "table_state ready given root lev s \<longleftrightarrow> ready s \<and> tables (hhdm_start s) (ptes s) root lev \<and> dom lev \<subseteq> given s"

locale page_supply =
  fixes ready :: "'a page_state_scheme \<Rightarrow> bool"
    and given :: "'a page_state_scheme \<Rightarrow> addr set"
    and left :: "'a page_state_scheme \<Rightarrow> nat"
  assumes fresh_page: "ready s \<Longrightarrow> 0 < left s \<Longrightarrow> \<exists>r s'. alloc_page s = Some (r, s') \<and> ready s' \<and> r \<notin> given s \<and> given s' = insert r (given s)
      \<and> left s = Suc (left s') \<and> page_ok (hhdm_start s) r \<and> r \<noteq> NULL \<and> ptes s' = ptes s \<and> hhdm_start s' = hhdm_start s"
    and ptes_irrelevant [simp]: "ready (s\<lparr>ptes := P\<rparr>) = ready s" "given (s\<lparr>ptes := P\<rparr>) = given s" "left (s\<lparr>ptes := P\<rparr>) = left s"
begin

lemma traverse:
  assumes st: "table_state ready given root lev s" and p: "lev p = Some (Suc k)" "0 < k" "i < 512" and a: "attr \<noteq> 0" "0 < left s"
  shows "\<exists>q s' lev'. pagemap_traverse p i attr s = Some (q, s') \<and> table_state ready given root lev' s' \<and> lev \<subseteq>\<^sub>m lev' \<and> lev' q = Some k
    \<and> hop (hhdm_start s) (ptes s') p i q \<and> grows (ptes s) lev (ptes s') \<and> left s \<le> Suc (left s') \<and> hhdm_start s' = hhdm_start s"
proof -
  have T: "ready s" "tables (hhdm_start s) (ptes s) root lev" "dom lev \<subseteq> given s" using st by (auto simp: table_state_def)
  have nz: "p \<noteq> NULL" using tablesD(3) [OF T(2) p(1)] .
  show ?thesis
  proof (cases "present (table_entry (ptes s) p i)")
    case True
    then have "pagemap_traverse p i attr s = Some (target (hhdm_start s) (table_entry (ptes s) p i), s)"
      using nz by (simp add: pagemap_traverse_def present_def table_entry_def target_def)
    moreover have "lev (target (hhdm_start s) (table_entry (ptes s) p i)) = Some k" using tablesD(4) [OF T(2) p True] .
    ultimately show ?thesis using st True by (auto simp: hop_def)
  next
    case False
    obtain r s1 where r: "alloc_page s = Some (r, s1)" "ready s1" "r \<notin> given s" "given s1 = insert r (given s)" "left s = Suc (left s1)"
      "page_ok (hhdm_start s) r" "r \<noteq> NULL" "ptes s1 = ptes s" "hhdm_start s1 = hhdm_start s"
      using fresh_page [OF T(1) a(2)] by blast
    have fresh: "lev r = None" using r(3) T(3) by blast
    let ?P = "(zero_table r (ptes s))(pte_addr p i := new_entry (hhdm_start s) attr r)"
    note new = tables_new [OF T(2) r(6,7) fresh p, where attr = attr]
    have "pagemap_traverse p i attr s = Some (r, s1\<lparr>ptes := ?P\<rparr>)"
      using False nz r(1,7,8,9) a(1) by (simp add: pagemap_traverse_def present_def table_entry_def new_entry_def)
    moreover have "table_state ready given root (lev(r \<mapsto> k)) (s1\<lparr>ptes := ?P\<rparr>)"
      using new(1) r(2,4,9) T(3) by (auto simp: table_state_def)
    moreover have "lev \<subseteq>\<^sub>m lev(r \<mapsto> k)" using fresh by (auto simp: map_le_def)
    moreover have "hop (hhdm_start s) ?P p i r"
      using new(2) [OF p(1,3)] target_new_entry [OF r(6)] by (simp add: hop_def new_entry_def)
    moreover have "grows (ptes s) lev ?P"
      using new(2) False p unfolding grows_def by (metis Suc_inject less_numeral_extra(3) One_nat_def option.inject)
    ultimately show ?thesis using r(5,9) by fastforce
  qed
qed

text \<open>Three steps down, then the leaf.\<close>

lemma traverse_all:
  assumes st: "table_state ready given root lev s" and a: "attr \<noteq> 0" "3 \<le> left s"
  shows "\<exists>p3 s1 p2 s2 pt s3 lev'. pagemap_traverse root (pdpn v) attr s = Some (p3, s1) \<and> pagemap_traverse p3 (pdn v) attr s1 = Some (p2, s2)
    \<and> pagemap_traverse p2 (ptn v) attr s2 = Some (pt, s3) \<and> table_state ready given root lev' s3 \<and> lev \<subseteq>\<^sub>m lev' \<and> lev' pt = Some 1
    \<and> walks (hhdm_start s) (ptes s3) root v pt \<and> grows (ptes s) lev (ptes s3) \<and> left s \<le> 3 + left s3 \<and> hhdm_start s3 = hhdm_start s"
proof -
  have "lev root = Some (Suc 3)" using st tablesD(1) by (fastforce simp: table_state_def)
  then obtain p3 s1 l1 where 1: "pagemap_traverse root (pdpn v) attr s = Some (p3, s1)" "table_state ready given root l1 s1" "lev \<subseteq>\<^sub>m l1" "l1 p3 = Some (Suc 2)"
    "hop (hhdm_start s) (ptes s1) root (pdpn v) p3" "grows (ptes s) lev (ptes s1)" "left s \<le> Suc (left s1)" "hhdm_start s1 = hhdm_start s"
    using traverse [OF st, of root 3 "pdpn v" attr] a by auto
  obtain p2 s2 l2 where 2: "pagemap_traverse p3 (pdn v) attr s1 = Some (p2, s2)" "table_state ready given root l2 s2" "l1 \<subseteq>\<^sub>m l2" "l2 p2 = Some (Suc 1)"
    "hop (hhdm_start s) (ptes s2) p3 (pdn v) p2" "grows (ptes s1) l1 (ptes s2)" "left s1 \<le> Suc (left s2)" "hhdm_start s2 = hhdm_start s"
    using traverse [OF 1(2,4), of "pdn v" attr] a 1(7,8) by auto
  obtain pt s3 l3 where 3: "pagemap_traverse p2 (ptn v) attr s2 = Some (pt, s3)" "table_state ready given root l3 s3" "l2 \<subseteq>\<^sub>m l3" "l3 pt = Some 1"
    "hop (hhdm_start s) (ptes s3) p2 (ptn v) pt" "grows (ptes s2) l2 (ptes s3)" "left s2 \<le> Suc (left s3)" "hhdm_start s3 = hhdm_start s"
    using traverse [OF 2(2,4), of "ptn v" attr] a 1(7) 2(7,8) by auto
  have g: "grows (ptes s1) l1 (ptes s3)" "grows (ptes s) lev (ptes s3)"
    using grows_trans [OF 2(6) 3(6) 2(3)] grows_trans [OF 1(6) _ 1(3)] by blast+
  have "l1 root = Some 4" using 1(2) tablesD(1) by (auto simp: table_state_def)
  then have "hop (hhdm_start s) (ptes s3) root (pdpn v) p3" "hop (hhdm_start s) (ptes s3) p3 (pdn v) p2"
    using grows_hop [OF g(1) _ _ 1(5)] grows_hop [OF 3(6) _ _ 2(5)] 2(3) 1(4) by (auto simp: map_le_def dom_def)
  then have "walks (hhdm_start s) (ptes s3) root v pt" using 3(5) by (auto simp: walks_def)
  moreover have "lev \<subseteq>\<^sub>m l3" using 1(3) 2(3) 3(3) map_le_trans by metis
  ultimately show ?thesis using 1(1) 2(1) 3 g(2) 1(7) 2(7) by fastforce
qed

lemma map_page_maps:
  assumes st: "table_state ready given root lev s" and a: "attr \<noteq> 0" "3 \<le> left s"
  shows "\<exists>s' lev' pt. map_page root paddr v attr s = Some s' \<and> table_state ready given root lev' s' \<and> left s \<le> 3 + left s'
    \<and> hhdm_start s' = hhdm_start s \<and> walks (hhdm_start s) (ptes s') root v pt \<and> table_entry (ptes s') pt (pn v) = paddr OR attr
    \<and> (\<forall>w q. walks (hhdm_start s) (ptes s) root w q \<longrightarrow> walks (hhdm_start s) (ptes s') root w q
        \<and> (page_index w \<noteq> page_index v \<longrightarrow> table_entry (ptes s') q (pn w) = table_entry (ptes s) q (pn w)))"
proof -
  obtain p3 s1 p2 s2 pt s3 l where t: "pagemap_traverse root (pdpn v) attr s = Some (p3, s1)" "pagemap_traverse p3 (pdn v) attr s1 = Some (p2, s2)"
    "pagemap_traverse p2 (ptn v) attr s2 = Some (pt, s3)" "table_state ready given root l s3" "lev \<subseteq>\<^sub>m l" "l pt = Some 1"
    "walks (hhdm_start s) (ptes s3) root v pt" "grows (ptes s) lev (ptes s3)" "left s \<le> 3 + left s3" "hhdm_start s3 = hhdm_start s"
    using traverse_all [OF assms] by blast
  have T: "tables (hhdm_start s) (ptes s) root lev" "tables (hhdm_start s) (ptes s3) root l" using st t(4,10) by (auto simp: table_state_def)
  let ?P = "(ptes s3)(pte_addr pt (pn v) := paddr OR attr)"
  have ok: "page_ok (hhdm_start s) pt" "pt \<noteq> NULL" using tablesD(2,3) [OF T(2) t(6)] by blast+
  have e: "table_entry ?P q j = (if q = pt \<and> j = pn v then paddr OR attr else table_entry (ptes s3) q j)" if "l q = Some k" "j < 512" for q j k
    using table_entry_upd [OF ok(1) tablesD(2) [OF T(2) that(1)] _ that(2)] by auto
  have gl: "hop (hhdm_start s) ?P q j r = hop (hhdm_start s) (ptes s3) q j r" if "l q = Some (Suc k)" "0 < k" "j < 512" for q j r k
    using e [OF that(1,3)] that t(6) by (auto simp: hop_def)
  have wk: "walks (hhdm_start s) ?P root w q" if w: "walks (hhdm_start s) (ptes s3) root w q" for w q
  proof -
    obtain x y where h: "hop (hhdm_start s) (ptes s3) root (pdpn w) x" "hop (hhdm_start s) (ptes s3) x (pdn w) y" "hop (hhdm_start s) (ptes s3) y (ptn w) q"
      using w by (auto simp: walks_def)
    note lv = walks_levels [OF T(2) h]
    have "hop (hhdm_start s) ?P root (pdpn w) x" "hop (hhdm_start s) ?P x (pdn w) y" "hop (hhdm_start s) ?P y (ptn w) q"
      using h gl [OF lv(1)] gl [OF lv(2)] gl [OF lv(3)] by simp_all
    then show ?thesis unfolding walks_def by blast
  qed
  have frame: "walks (hhdm_start s) ?P root w q \<and> (page_index w \<noteq> page_index v \<longrightarrow> table_entry ?P q (pn w) = table_entry (ptes s) q (pn w))"
    if w: "walks (hhdm_start s) (ptes s) root w q" for w q
  proof -
    have w3: "walks (hhdm_start s) (ptes s3) root w q" by (rule grows_walks [OF T(1) t(8) w])
    have lq: "lev q = Some 1" using w walks_levels(4) [OF T(1)] by (auto simp: walks_def)
    then have "table_entry (ptes s3) q (pn w) = table_entry (ptes s) q (pn w)" by (intro grows_leaf [OF t(8)]) simp_all
    moreover have "l q = Some 1" using lq t(5) by (auto simp: map_le_def dom_def)
    moreover have "\<not> (q = pt \<and> pn w = pn v)" if "page_index w \<noteq> page_index v"
      using walks_same_table [OF T(2) t(7)] w3 that by (auto simp: page_index_def)
    ultimately show ?thesis using wk [OF w3] e by auto
  qed
  have "map_page root paddr v attr s = Some (s3\<lparr>ptes := ?P\<rparr>)" using t(1-3) ok(2) by (simp add: map_page_def)
  moreover have "table_state ready given root l (s3\<lparr>ptes := ?P\<rparr>)"
    using t(4,10) tables_leaf [OF T(2) t(6), of "pn v" "paddr OR attr"] by (simp add: table_state_def)
  ultimately show ?thesis using frame wk [OF t(7)] e [OF t(6)] t(9,10) by fastforce
qed

text \<open>A range of pages.\<close>

lemma mmap_loop_maps:
  "table_state ready given root lev s \<Longrightarrow> attr \<noteq> 0 \<Longrightarrow> 3 * n \<le> left s \<Longrightarrow> n \<le> 2 ^ 36 \<Longrightarrow>
   \<exists>s' lev'. mmap_loop root paddr v (of_nat (4096 * n)) attr s = Some s' \<and> table_state ready given root lev' s' \<and> hhdm_start s' = hhdm_start s
    \<and> (\<forall>i < n. \<exists>pt. walks (hhdm_start s) (ptes s') root (v + 4096 * of_nat i) pt
        \<and> table_entry (ptes s') pt (pn (v + 4096 * of_nat i)) = (paddr + 4096 * of_nat i) OR attr)
    \<and> (\<forall>w q. walks (hhdm_start s) (ptes s) root w q \<longrightarrow> (\<forall>i < n. page_index w \<noteq> page_index (v + 4096 * of_nat i)) \<longrightarrow>
        walks (hhdm_start s) (ptes s') root w q \<and> table_entry (ptes s') q (pn w) = table_entry (ptes s) q (pn w))"
proof (induction n arbitrary: paddr v lev s)
  case 0
  then show ?case by (subst mmap_loop.simps) auto
next
  case (Suc n)
  obtain s1 l1 pt where 1: "map_page root paddr v attr s = Some s1" "table_state ready given root l1 s1" "left s \<le> 3 + left s1"
    "hhdm_start s1 = hhdm_start s" "walks (hhdm_start s) (ptes s1) root v pt" "table_entry (ptes s1) pt (pn v) = paddr OR attr"
    "\<And>w q. walks (hhdm_start s) (ptes s) root w q \<Longrightarrow> walks (hhdm_start s) (ptes s1) root w q
        \<and> (page_index w \<noteq> page_index v \<longrightarrow> table_entry (ptes s1) q (pn w) = table_entry (ptes s) q (pn w))"
    using map_page_maps [OF Suc.prems(1,2), of paddr v] Suc.prems(3) by auto
  obtain s2 l2 where 2: "mmap_loop root (paddr + 4096) (v + 4096) (of_nat (4096 * n)) attr s1 = Some s2" "table_state ready given root l2 s2"
    "hhdm_start s2 = hhdm_start s"
    "\<And>i. i < n \<Longrightarrow> \<exists>pt. walks (hhdm_start s) (ptes s2) root (v + 4096 + 4096 * of_nat i) pt
        \<and> table_entry (ptes s2) pt (pn (v + 4096 + 4096 * of_nat i)) = (paddr + 4096 + 4096 * of_nat i) OR attr"
    "\<And>w q. walks (hhdm_start s) (ptes s1) root w q \<Longrightarrow> (\<forall>i < n. page_index w \<noteq> page_index (v + 4096 + 4096 * of_nat i)) \<Longrightarrow>
        walks (hhdm_start s) (ptes s2) root w q \<and> table_entry (ptes s2) q (pn w) = table_entry (ptes s1) q (pn w)"
    using Suc.IH [OF 1(2) Suc.prems(2), of "paddr + 4096" "v + 4096"] Suc.prems(3,4) 1(3,4) by auto
  have sh: "x + 4096 * of_nat (Suc i) = x + 4096 + 4096 * of_nat i" for x :: u64 and i by simp
  have "unat (of_nat (4096 * Suc n) :: u64) = 4096 * Suc n"
    using Suc.prems(4) unfolding unat_of_nat by simp
  then have len: "(of_nat (4096 * Suc n) :: u64) \<noteq> 0" by (metis unat_0 mult_eq_0_iff nat.distinct(1) zero_neq_numeral)
  have len': "of_nat (4096 * Suc n) - 4096 = (of_nat (4096 * n) :: u64)" by (simp add: algebra_simps)
  have "mmap_loop root paddr v (of_nat (4096 * Suc n)) attr s = Some s2"
    using 1(1) 2(1) len unfolding len' [symmetric] by (subst mmap_loop.simps) (simp del: of_nat_mult of_nat_Suc)
  moreover have "page_index v \<noteq> page_index (v + 4096 + 4096 * of_nat i)" if "i < n" for i
    using page_index_next [of "Suc i" v] that Suc.prems(4) unfolding sh by simp
  then have "walks (hhdm_start s) (ptes s2) root v pt" "table_entry (ptes s2) pt (pn v) = paddr OR attr"
    using 2(5) [OF 1(5)] 1(6) by auto
  then have "\<exists>pt. walks (hhdm_start s) (ptes s2) root (v + 4096 * of_nat i) pt
      \<and> table_entry (ptes s2) pt (pn (v + 4096 * of_nat i)) = (paddr + 4096 * of_nat i) OR attr" if "i < Suc n" for i
    using 2(4) that unfolding less_Suc_eq_0_disj by (auto simp: algebra_simps)
  moreover have "walks (hhdm_start s) (ptes s2) root w q \<and> table_entry (ptes s2) q (pn w) = table_entry (ptes s) q (pn w)"
    if w: "walks (hhdm_start s) (ptes s) root w q" "\<forall>i < Suc n. page_index w \<noteq> page_index (v + 4096 * of_nat i)" for w q
  proof -
    have "page_index w \<noteq> page_index v" "\<forall>i < n. page_index w \<noteq> page_index (v + 4096 + 4096 * of_nat i)"
      using w(2) sh [of v] by (force, metis Suc_mono)
    then show ?thesis using 1(7) [OF w(1)] 2(5) by simp
  qed
  ultimately show ?case using 2(2,3) by blast
qed

end

section \<open>The allocator used while booting\<close>

definition early_page :: "early_mem \<Rightarrow> nat \<Rightarrow> addr" where
  "early_page e i = kmem e + 4096 * of_nat i"

definition early_ready :: "'a page_state_scheme \<Rightarrow> bool" where
  "early_ready s \<longleftrightarrow> alloc_page_fn s = Alloc_page_early \<and> kmem (early s) \<noteq> 0 \<and> unat (hwm (early s)) mod 4096 = 0
     \<and> unat (hwm (early s)) \<le> unat (kmem_len (early s)) \<and> unat (kmem (early s)) + unat (kmem_len (early s)) \<le> 2 ^ 64
     \<and> (\<forall>i < unat (kmem_len (early s)) div 4096. page_ok (hhdm_start s) (early_page (early s) i))"

definition early_given :: "'a page_state_scheme \<Rightarrow> addr set" where
  "early_given s = early_page (early s) ` {..<unat (hwm (early s)) div 4096}"

definition early_left :: "'a page_state_scheme \<Rightarrow> nat" where
  "early_left s = (unat (kmem_len (early s)) - unat (hwm (early s))) div 4096"

lemma early_page_unat:
  "unat (kmem e) + 4096 * i < 2 ^ 64 \<Longrightarrow> unat (early_page e i) = unat (kmem e) + 4096 * i"
  by (simp add: early_page_def unat_word_ariths unat_of_nat mod_simps)

interpretation early: page_supply early_ready early_given early_left
proof
  fix s :: "'a page_state_scheme"
  assume ok: "early_ready s" and room: "0 < early_left s"
  let ?e = "early s"
  let ?m = "unat (hwm ?e) div 4096"
  have h: "unat (hwm ?e) = 4096 * ?m" using ok by (auto simp: early_ready_def)
  have l: "4096 * ?m + 4096 \<le> unat (kmem_len ?e)" "unat (kmem ?e) + unat (kmem_len ?e) \<le> 2 ^ 64"
    using ok room h by (auto simp: early_left_def early_ready_def)
  have hw: "hwm ?e = 4096 * of_nat ?m" using h by (metis of_nat_mult of_nat_numeral of_nat_unat ucast_id)
  let ?s = "s\<lparr>early := ?e\<lparr>hwm := hwm ?e + 0x1000\<rparr>\<rparr>"
  have u: "unat (hwm ?e + 0x1000) = 4096 * Suc ?m"
    using l h unsigned_less [of "kmem_len ?e", where ?'a = nat] by (simp add: unat_word_ariths)
  have a: "alloc_page s = Some (early_page ?e ?m, ?s)"
    using ok hw by (simp add: alloc_page_def early_ready_def alloc_page_early_def early_page_def add.commute)
  have "early_page ?e ?m \<noteq> early_page ?e i" if "i < ?m" for i
    using early_page_unat [of ?e ?m] early_page_unat [of ?e i] l that by auto
  then have fresh: "early_page ?e ?m \<notin> early_given s" by (auto simp: early_given_def)
  have "kmem ?e \<noteq> 0" using ok by (simp add: early_ready_def)
  then have nz: "early_page ?e ?m \<noteq> NULL" using early_page_unat [of ?e ?m] l by (auto simp: word_unat_eq_iff)
  have "?m < unat (kmem_len ?e) div 4096" using l(1) by simp
  then have pok: "page_ok (hhdm_start s) (early_page ?e ?m)" using ok by (simp add: early_ready_def)
  have ep: "early_page (early ?s) = early_page ?e" by (simp add: early_page_def fun_eq_iff)
  have "unat (hwm (early ?s)) = 4096 * Suc ?m" using u by simp
  then have "early_given ?s = insert (early_page ?e ?m) (early_given s)"
    unfolding early_given_def ep by (simp only: nonzero_mult_div_cancel_left lessThan_Suc image_insert)
  moreover have "early_ready ?s" "early_left s = Suc (early_left ?s)"
    using ok u l(1) h ep by (auto simp: early_ready_def early_left_def)
  moreover note a fresh nz pok
  ultimately show "\<exists>r s'. alloc_page s = Some (r, s') \<and> early_ready s' \<and> r \<notin> early_given s \<and> early_given s' = insert r (early_given s)
      \<and> early_left s = Suc (early_left s') \<and> page_ok (hhdm_start s) r \<and> r \<noteq> NULL \<and> ptes s' = ptes s \<and> hhdm_start s' = hhdm_start s"
    by (intro exI [of _ "early_page ?e ?m"] exI [of _ ?s]) simp
qed (simp_all add: early_ready_def early_given_def early_left_def)

section \<open>Mapped ranges translate\<close>

text \<open>A frame number below the direct map, and attributes outside the address bits.\<close>

lemma leaf_value:
  assumes "f AND (0xFFF OR h) = 0" "(attr AND NOT 0xFFF) AND NOT h = 0"
  shows "((f OR attr) AND - 4096) AND NOT h = (f :: u64)"
proof (rule bit_eqI)
  fix i assume "possible_bit TYPE(u64) i"
  moreover have "\<not> bit (f AND (mask 12 OR h)) i" "\<not> bit ((attr AND NOT (mask 12)) AND NOT h) i"
    using assms unfolding mask12 by simp_all
  ultimately show "bit (((f OR attr) AND - 4096) AND NOT h) i = bit f i"
    unfolding mask12 by (auto simp: bit_simps)
qed

text \<open>
  C5. Mapping a range of pages while booting succeeds as long as the buffer has three pages left for each page of the range. Afterwards
  every page of the range translates to its frame, every page outside it that had a translation keeps it, and the
  tables still form a tree whose pages come from the buffer, so that the next mapping can follow.
\<close>

theorem boot_mapping_translates:
  assumes "table_state early_ready early_given root lev s" "3 * n \<le> early_left s" "n \<le> 2 ^ 36" "attr \<noteq> 0"
    and "(attr AND NOT 0xFFF) AND NOT (hhdm_start s) = 0" "\<forall>i < n. (paddr + 4096 * of_nat i) AND (0xFFF OR hhdm_start s) = 0"
  shows "\<exists>s' lev'. mmap_loop root paddr v (of_nat (4096 * n)) attr s = Some s' \<and> table_state early_ready early_given root lev' s'
    \<and> (\<forall>i < n. virt_to_phys (v + 4096 * of_nat i) (root AND NOT (hhdm_start s)) s' = paddr + 4096 * of_nat i)
    \<and> (\<forall>w pt. walks (hhdm_start s) (ptes s) root w pt \<longrightarrow> (\<forall>i < n. page_index w \<noteq> page_index (v + 4096 * of_nat i)) \<longrightarrow>
        virt_to_phys w (root AND NOT (hhdm_start s)) s' = virt_to_phys w (root AND NOT (hhdm_start s)) s)"
proof -
  obtain s' lev' where m: "mmap_loop root paddr v (of_nat (4096 * n)) attr s = Some s'" "table_state early_ready early_given root lev' s'"
    "hhdm_start s' = hhdm_start s"
    "\<And>i. i < n \<Longrightarrow> \<exists>pt. walks (hhdm_start s) (ptes s') root (v + 4096 * of_nat i) pt
        \<and> table_entry (ptes s') pt (pn (v + 4096 * of_nat i)) = (paddr + 4096 * of_nat i) OR attr"
    "\<And>w q. walks (hhdm_start s) (ptes s) root w q \<Longrightarrow> (\<forall>i < n. page_index w \<noteq> page_index (v + 4096 * of_nat i)) \<Longrightarrow>
        walks (hhdm_start s) (ptes s') root w q \<and> table_entry (ptes s') q (pn w) = table_entry (ptes s) q (pn w)"
    using early.mmap_loop_maps [OF assms(1,4,2,3), of paddr v] by blast
  have T: "tables (hhdm_start s) (ptes s) root lev" using assms(1) by (simp add: table_state_def)
  have r: "page_ok (hhdm_start s) root" using tablesD(2) [OF T tablesD(1) [OF T]] .
  have tr: "virt_to_phys w (root AND NOT (hhdm_start s)) s' = (table_entry (ptes s') pt (pn w) AND - 4096) AND NOT (hhdm_start s)"
    if "walks (hhdm_start s) (ptes s') root w pt" for w pt
    using virt_to_phys_walk [of s' root w pt] r that m(3) by simp
  have "virt_to_phys (v + 4096 * of_nat i) (root AND NOT (hhdm_start s)) s' = paddr + 4096 * of_nat i" if "i < n" for i
    using m(4) [OF that] tr leaf_value [OF _ assms(5)] assms(6) that by metis
  moreover have "virt_to_phys w (root AND NOT (hhdm_start s)) s' = virt_to_phys w (root AND NOT (hhdm_start s)) s"
    if w: "walks (hhdm_start s) (ptes s) root w pt" "\<forall>i < n. page_index w \<noteq> page_index (v + 4096 * of_nat i)" for w pt
    using m(5) [OF w] tr [of w pt] virt_to_phys_walk [OF r w(1)] by simp
  ultimately show ?thesis using m(1,2) by blast
qed

text \<open>An empty top table in the first page of a buffer of seven pages.\<close>

definition sample_tables :: kernel_state where
  "sample_tables = boot_state\<lparr>early := \<lparr>kmem = 0xFFFFFFFF90000000, kmem_len = 0x7000, hwm = 0x1000\<rparr>\<rparr>"

lemma sample_tables_fields [simp]:
  "ptes sample_tables = (\<lambda>_. 0)" "hhdm_start sample_tables = 0xFFFF800000000000" "alloc_page_fn sample_tables = Alloc_page_early"
  "early sample_tables = \<lparr>kmem = 0xFFFFFFFF90000000, kmem_len = 0x7000, hwm = 0x1000\<rparr>"
  by (simp_all add: sample_tables_def boot_state_def)

lemma sample_tables_ready: "table_state early_ready early_given 0xFFFFFFFF90000000 [0xFFFFFFFF90000000 \<mapsto> 4] sample_tables"
proof -
  have "page_ok 0xFFFF800000000000 (early_page (early sample_tables) i)" if i: "i < 7" for i
  proof -
    consider "i = 0" | "i = 1" | "i = 2" | "i = 3" | "i = 4" | "i = 5" | "i = 6" using i by linarith
    then show ?thesis by cases (simp_all add: page_ok_def early_page_def)
  qed
  then have "early_ready sample_tables" by (simp add: early_ready_def)
  moreover have "tables 0xFFFF800000000000 (\<lambda>_. 0) 0xFFFFFFFF90000000 [0xFFFFFFFF90000000 \<mapsto> 4]"
    by (rule tablesI) (auto simp: page_ok_def present_def table_entry_def split: if_splits)
  ultimately show ?thesis by (simp add: table_state_def early_given_def early_page_def)
qed

theorem boot_mapping_translates_witness:
  "\<exists>s' lev'. mmap_loop 0xFFFFFFFF90000000 0x200000 0xFFFFFFFF80000000 (of_nat (4096 * 2)) 3 sample_tables = Some s'
    \<and> table_state early_ready early_given 0xFFFFFFFF90000000 lev' s'
    \<and> (\<forall>i < 2. virt_to_phys (0xFFFFFFFF80000000 + 4096 * of_nat i) (0xFFFFFFFF90000000 AND NOT (hhdm_start sample_tables)) s' = 0x200000 + 4096 * of_nat i)
    \<and> (\<forall>w pt. walks (hhdm_start sample_tables) (ptes sample_tables) 0xFFFFFFFF90000000 w pt \<longrightarrow>
        (\<forall>i < 2. page_index w \<noteq> page_index (0xFFFFFFFF80000000 + 4096 * of_nat i)) \<longrightarrow>
        virt_to_phys w (0xFFFFFFFF90000000 AND NOT (hhdm_start sample_tables)) s'
          = virt_to_phys w (0xFFFFFFFF90000000 AND NOT (hhdm_start sample_tables)) sample_tables)"
  by (rule boot_mapping_translates [OF sample_tables_ready]) (simp_all add: early_left_def less_2_cases_iff)

end
