(* ===== verification/Scheduler.thy ===== *)
theory Scheduler
  imports Rbt_Walk Boot_State
begin

unbundle bit_operations_syntax

text \<open>
  The scheduler of \<^verbatim>\<open>sched/proc.c\<close> on a well-formed table of processes: the order in which it looks at the processes, the one it runs,
  and that a sequence of timer interrupts gives every process that is ready its turn.
\<close>

section \<open>The table of processes\<close>

text \<open>Pid 0 is in the tree without a process; every other node leads to the process with its pid.\<close>

definition proc_table :: "ctree \<Rightarrow> 'a kernel_state_scheme \<Rightarrow> bool" where
  "proc_table t s \<longleftrightarrow> rbt_rep (rbnodes s) (proc_tree s) t \<and> length (tree_addrs t) < 2 ^ 63 \<and> 0 \<in> set (tree_keys (rbnodes s) t)
     \<and> kernel_proc s \<noteq> NULL \<and> p_pid (procs s (kernel_proc s)) = 0
     \<and> (\<forall>a \<in> set (tree_addrs t). rb_key (rbnodes s a) \<noteq> 0 \<longrightarrow>
          rb_value (rbnodes s a) \<noteq> NULL \<and> p_pid (procs s (rb_value (rbnodes s a))) = rb_key (rbnodes s a))"

text \<open>The processes in the order of their pids, without the idle process of the processor.\<close>

definition processes :: "ctree \<Rightarrow> 'a kernel_state_scheme \<Rightarrow> addr list" where
  "processes t s = map (\<lambda>a. rb_value (rbnodes s a)) (tl (tree_addrs t))"

lemma search_key:
  assumes "rbt_rep h tree t" "a \<in> set (tree_addrs t)"
  shows "rbt_search tree (rb_key (h a)) h = Some a"
proof -
  have r: "rep h NULL (rt_root tree) t" "sorted_wrt (<) (tree_keys h t)" using assms(1) by (auto simp: rbt_rep_def)
  have "index_of h t (rb_key (h a)) = Some a" using index_of_Some [OF r(2)] assms(2) by blast
  then show ?thesis using search_rep [OF r, of "rb_key (h a)"] by (simp add: rbt_search_def found_def)
qed

lemma rooted:
  assumes "proc_table t s"
  obtains z as where "tree_addrs t = z # as" "rb_key (rbnodes s z) = 0" "processes t s = map (\<lambda>a. rb_value (rbnodes s a)) as"
    "\<forall>a \<in> set as. rb_key (rbnodes s a) \<noteq> 0"
proof -
  have sorted: "sorted_wrt (<) (tree_keys (rbnodes s) t)" and zero: "0 \<in> set (tree_keys (rbnodes s) t)"
    using assms by (auto simp: proc_table_def rbt_rep_def)
  obtain z as where t: "tree_addrs t = z # as" using zero by (cases "tree_addrs t") auto
  have "rb_key (rbnodes s z) = 0" using sorted zero by (auto simp: t)
  moreover from this have "\<forall>a \<in> set as. rb_key (rbnodes s a) \<noteq> 0" using sorted by (auto simp: t)
  ultimately show thesis using t by (intro that [of z as]) (simp_all add: processes_def)
qed

lemma processes_pids:
  assumes "proc_table t s"
  shows "sorted_wrt (<) (map (\<lambda>p. p_pid (procs s p)) (processes t s))" "\<forall>p \<in> set (processes t s). p \<noteq> NULL \<and> p_pid (procs s p) \<noteq> 0"
proof -
  from assms obtain z as where r: "tree_addrs t = z # as" "processes t s = map (\<lambda>a. rb_value (rbnodes s a)) as"
    "\<forall>a \<in> set as. rb_key (rbnodes s a) \<noteq> 0" by (rule rooted)
  have pid: "rb_value (rbnodes s a) \<noteq> NULL \<and> p_pid (procs s (rb_value (rbnodes s a))) = rb_key (rbnodes s a)" if "a \<in> set as" for a
    using assms r that by (auto simp: proc_table_def)
  have "map (\<lambda>p. p_pid (procs s p)) (processes t s) = map (\<lambda>a. rb_key (rbnodes s a)) as" using pid by (simp add: r(2))
  moreover have "sorted_wrt (<) (map (\<lambda>a. rb_key (rbnodes s a)) as)" using assms by (auto simp: proc_table_def rbt_rep_def r(1))
  ultimately show "sorted_wrt (<) (map (\<lambda>p. p_pid (procs s p)) (processes t s))" by simp
  show "\<forall>p \<in> set (processes t s). p \<noteq> NULL \<and> p_pid (procs s p) \<noteq> 0" using pid r(3) by (auto simp: r(2))
qed

text \<open>\<open>proc_next\<close> goes round: from each process to the one with the next pid, from the last to the idle process and from there to the first.\<close>

lemma next_last:
  assumes "proc_table t s" "processes t s = A @ B"
  shows "proc_next (last (kernel_proc s # A)) s = Some (case B of [] \<Rightarrow> kernel_proc s | q # _ \<Rightarrow> q)"
proof -
  from assms(1) obtain z as where r: "tree_addrs t = z # as" "rb_key (rbnodes s z) = 0" "processes t s = map (\<lambda>a. rb_value (rbnodes s a)) as"
    "\<forall>a \<in> set as. rb_key (rbnodes s a) \<noteq> 0" by (rule rooted)
  have rep: "rep (rbnodes s) NULL (rt_root (proc_tree s)) t" "distinct (tree_addrs t)"
    using assms(1) by (auto simp: proc_table_def rbt_rep_def)
  have "map (\<lambda>a. rb_value (rbnodes s a)) as = A @ B" using r(3) assms(2) by simp
  then obtain as1 as2 where as: "as = as1 @ as2" "A = map (\<lambda>a. rb_value (rbnodes s a)) as1" "B = map (\<lambda>a. rb_value (rbnodes s a)) as2"
    by (auto simp: map_eq_append_conv)
  define a where "a = last (z # as1)"
  define p where "p = last (kernel_proc s # A)"
  have pos: "tree_addrs t = butlast (z # as1) @ a # as2" using as(1) r(1) by (simp add: a_def append_butlast_last_id [symmetric])
  have p: "p \<noteq> NULL" "p_pid (procs s p) = rb_key (rbnodes s a)"
  proof -
    have "as1 \<noteq> [] \<Longrightarrow> last as1 \<in> set as" by (simp add: as(1))
    then show "p \<noteq> NULL" "p_pid (procs s p) = rb_key (rbnodes s a)"
      using assms(1) r by (auto simp: p_def a_def as(2) last_map proc_table_def)
  qed
  have "a \<in> set (tree_addrs t)" by (simp add: pos)
  then have "a \<noteq> NULL" "rbt_search (proc_tree s) (rb_key (rbnodes s a)) (rbnodes s) = Some a"
    using rep_nonnull [OF rep(1)] search_key assms(1) by (auto simp: proc_table_def)
  moreover have "rbt_successor a (rbnodes s) = Some (first as2)" by (rule successor_list [OF rep(1,2) pos])
  moreover have "first as2 = NULL \<longleftrightarrow> as2 = []" using rep_nonnull [OF rep(1)] by (cases as2) (auto simp: pos)
  ultimately have "proc_next p s = Some (case B of [] \<Rightarrow> kernel_proc s | q # _ \<Rightarrow> q)" using p \<open>a \<noteq> NULL\<close> r(4)
    by (auto simp: proc_next_def as(1,3) split: list.splits)
  then show ?thesis by (simp only: p_def)
qed

section \<open>The order of the search\<close>

text \<open>The processes after the one with pid \<open>c\<close>, going round.\<close>

definition queue :: "u64 \<Rightarrow> ctree \<Rightarrow> 'a kernel_state_scheme \<Rightarrow> addr list" where
  "queue c t s = filter (\<lambda>p. c < p_pid (procs s p)) (processes t s) @ filter (\<lambda>p. p_pid (procs s p) \<le> c) (processes t s)"

lemma queue_split:
  assumes "processes t s = A @ B" "\<forall>p \<in> set A. p_pid (procs s p) \<le> c" "\<forall>p \<in> set B. c < p_pid (procs s p)"
  shows "queue c t s = B @ A"
  using assms by (auto simp: queue_def filter_empty_conv filter_id_conv not_less not_le intro!: arg_cong2 [where f = "(@)"])

lemma queue_at:
  assumes "proc_table t s" "processes t s = X @ q # Y"
  shows "queue (p_pid (procs s q)) t s = Y @ X @ [q]"
proof -
  have "sorted_wrt (<) (map (\<lambda>p. p_pid (procs s p)) (X @ q # Y))" using processes_pids(1) [OF assms(1)] by (simp add: assms(2))
  then show ?thesis
    using assms(2) by (intro trans [OF queue_split [of t s "X @ [q]" Y]]) (auto simp: sorted_wrt_append less_imp_le)
qed

text \<open>The process with a pid of the table, and where it is among the processes.\<close>

lemma locate:
  assumes "proc_table t s" "c \<in> set (tree_keys (rbnodes s) t)"
  obtains A B where "processes t s = A @ B" "proc_find c s = Some (last (kernel_proc s # A))" "queue c t s = B @ A"
    "p_pid (procs s (last (kernel_proc s # A))) = c"
proof (cases "c = 0")
  case True
  have "queue c t s = processes t s @ []"
    using processes_pids(2) [OF assms(1)] True by (intro queue_split) (auto simp: word_neq_0_conv)
  then show thesis using True assms(1) by (intro that [of "[]" "processes t s"]) (simp_all add: proc_find_def proc_table_def)
next
  case False
  from assms(1) obtain z as where r: "tree_addrs t = z # as" "rb_key (rbnodes s z) = 0" "processes t s = map (\<lambda>a. rb_value (rbnodes s a)) as"
    "\<forall>a \<in> set as. rb_key (rbnodes s a) \<noteq> 0" by (rule rooted)
  have rep: "rep (rbnodes s) NULL (rt_root (proc_tree s)) t" using assms(1) by (auto simp: proc_table_def rbt_rep_def)
  obtain a where a: "a \<in> set as" "rb_key (rbnodes s a) = c" "a \<in> set (tree_addrs t)" using assms(2) False r by auto
  define p where "p = rb_value (rbnodes s a)"
  have pid: "p_pid (procs s p) = c" using assms(1) a False by (auto simp: proc_table_def p_def)
  have "a \<noteq> NULL" using rep_nonnull [OF rep] a(3) by auto
  then have find: "proc_find c s = Some p"
    using search_key [OF _ a(3)] assms(1) a False by (auto simp: proc_find_def proc_get_def proc_table_def p_def)
  have "p \<in> set (processes t s)" using a(1) r(3) by (simp add: p_def)
  then obtain X Y where xy: "processes t s = X @ p # Y" by (auto simp: in_set_conv_decomp)
  then show thesis using find pid queue_at [OF assms(1) xy] by (intro that [of "X @ [p]" Y]) simp_all
qed

lemma pid_in_tree:
  assumes "proc_table t s" "p \<in> set (processes t s)"
  shows "p_pid (procs s p) \<in> set (tree_keys (rbnodes s) t)"
proof -
  from assms(1) obtain z as where r: "tree_addrs t = z # as" "processes t s = map (\<lambda>a. rb_value (rbnodes s a)) as"
    "\<forall>a \<in> set as. rb_key (rbnodes s a) \<noteq> 0" by (rule rooted)
  then show ?thesis using assms by (auto simp: proc_table_def)
qed

text \<open>Running a process of the queue turns it by the processes up to that one.\<close>

lemma queue_turn:
  assumes "proc_table t s" "c \<in> set (tree_keys (rbnodes s) t)" "queue c t s = us @ q # vs"
  shows "queue (p_pid (procs s q)) t s = vs @ us @ [q]"
proof -
  from assms(1,2) obtain A B where ab: "processes t s = A @ B" "queue c t s = B @ A" by (rule locate)
  then have "B @ A = us @ q # vs" using assms(3) by simp
  then consider (1) w where "B = us @ q # w" "vs = w @ A" | (2) w where "us = B @ w" "A = w @ q # vs"
    by (auto simp: append_eq_append_conv2 append_eq_Cons_conv)
  then show ?thesis
  proof cases
    case 1
    then show ?thesis using queue_at [OF assms(1), of "A @ us" q w] ab(1) by simp
  next
    case 2
    then show ?thesis using queue_at [OF assms(1), of w q "vs @ B"] ab(1) by simp
  qed
qed

section \<open>The loop\<close>

abbreviation stopped :: "'a kernel_state_scheme \<Rightarrow> addr \<Rightarrow> bool" where
  "stopped s p \<equiv> p_state (procs s p) = PROC_STOPPED"

text \<open>No process is locked, and every state is one that the scheduler knows.\<close>

definition settled :: "ctree \<Rightarrow> 'a kernel_state_scheme \<Rightarrow> bool" where
  "settled t s \<longleftrightarrow> p_lock (procs s (kernel_proc s)) = 0
     \<and> list_all (\<lambda>p. p_lock (procs s p) = 0 \<and> p_state (procs s p) \<in> {PROC_RUNNING, PROC_STOPPED, PROC_BLOCKED, PROC_ZOMBIE}) (processes t s)"

definition run :: "addr \<Rightarrow> 'a kernel_state_scheme \<Rightarrow> 'a kernel_state_scheme" where
  "run p s = proc_set_current (p_pid (procs s p)) (upd_proc p (\<lambda>q. q\<lparr>p_state := PROC_RUNNING, p_lock := 0\<rparr>) s)"

lemma loop_step:
  assumes "proc_table t s" "settled t s" "0 < lim" "processes t s = A @ q # B"
  shows "schedule_loop (last (kernel_proc s # A)) 0 lim s
    = (if stopped s q then Some (Resume q (run q s)) else schedule_loop (last (kernel_proc s # A @ [q])) 0 lim s)"
proof -
  have "q \<noteq> NULL" "p_pid (procs s q) \<noteq> 0" using processes_pids(2) [OF assms(1)] by (auto simp: assms(4))
  moreover have "p_lock (procs s q) = 0" "p_state (procs s q) \<in> {PROC_RUNNING, PROC_STOPPED, PROC_BLOCKED, PROC_ZOMBIE}"
    using assms(2) by (auto simp: settled_def assms(4))
  ultimately show ?thesis
    using next_last [OF assms(1,4)] assms(3) by (subst schedule_loop.simps) (auto simp: Let_def run_def)
qed

lemma loop_wrap:
  assumes "proc_table t s" "0 < lim"
  shows "schedule_loop (last (kernel_proc s # processes t s)) 0 lim s = schedule_loop (kernel_proc s) 0 lim s"
  using next_last [OF assms(1), of "processes t s" "[]"] assms by (subst schedule_loop.simps) (simp add: proc_table_def)

lemma loop_find:
  assumes "proc_table t s" "settled t s" "0 < lim"
  shows "processes t s = A @ Y @ q # B \<Longrightarrow> \<forall>y \<in> set Y. \<not> stopped s y \<Longrightarrow> stopped s q
    \<Longrightarrow> schedule_loop (last (kernel_proc s # A)) 0 lim s = Some (Resume q (run q s))"
proof (induction Y arbitrary: A)
  case Nil
  then show ?case using loop_step [OF assms, of A q B] by simp
next
  case (Cons y Y)
  then show ?case using loop_step [OF assms, of A y "Y @ q # B"] Cons.IH [of "A @ [y]"] by simp
qed

lemma loop_skip:
  assumes "proc_table t s" "settled t s" "0 < lim"
  shows "processes t s = A @ Y \<Longrightarrow> \<forall>y \<in> set Y. \<not> stopped s y
    \<Longrightarrow> schedule_loop (last (kernel_proc s # A)) 0 lim s = schedule_loop (kernel_proc s) 0 lim s"
proof (induction Y arbitrary: A)
  case Nil
  then show ?case using loop_wrap [OF assms(1,3)] by simp
next
  case (Cons y Y)
  then show ?case using loop_step [OF assms, of A y Y] Cons.IH [of "A @ [y]"] by simp
qed

lemma loop_first:
  assumes "proc_table t s" "settled t s" "0 < lim" "processes t s = A @ B" "filter (stopped s) (B @ A) = q # rest"
  shows "schedule_loop (last (kernel_proc s # A)) 0 lim s = Some (Resume q (run q s))"
proof (cases "filter (stopped s) B")
  case Nil
  then obtain Y Z where "A = Y @ q # Z" "\<forall>y \<in> set Y. \<not> stopped s y" "stopped s q" using assms(5) by (auto simp: filter_eq_Cons_iff)
  moreover have "schedule_loop (last (kernel_proc s # A)) 0 lim s = schedule_loop (kernel_proc s) 0 lim s"
    using Nil by (intro loop_skip [OF assms(1-4)]) (auto simp: filter_empty_conv)
  ultimately show ?thesis using loop_find [OF assms(1-3), of "[]" Y q "Z @ B"] assms(4) by simp
next
  case (Cons x xs)
  then have "filter (stopped s) B = q # xs" using assms(5) by simp
  then obtain Y Z where "B = Y @ q # Z" "\<forall>y \<in> set Y. \<not> stopped s y" "stopped s q" by (auto simp: filter_eq_Cons_iff)
  then show ?thesis using loop_find [OF assms(1-3), of A Y q Z] assms(4) by simp
qed

section \<open>One call\<close>

text \<open>The scheduler changes only states, locks and the number of the current process.\<close>

definition same_table :: "'a kernel_state_scheme \<Rightarrow> 'a kernel_state_scheme \<Rightarrow> bool" where
  "same_table s s' \<longleftrightarrow> rbnodes s' = rbnodes s \<and> proc_tree s' = proc_tree s \<and> kernel_procs s' = kernel_procs s \<and> cpu s' = cpu s
     \<and> (\<forall>p. p_pid (procs s' p) = p_pid (procs s p))"

lemma same_table_simps:
  assumes "same_table s s'"
  shows "kernel_proc s' = kernel_proc s" "processes t s' = processes t s" "queue c t s' = queue c t s" "proc_table t s' = proc_table t s"
    "tree_keys (rbnodes s') t = tree_keys (rbnodes s) t"
  using assms by (simp_all add: same_table_def kernel_proc_def processes_def queue_def proc_table_def)

lemma same_table_trans: "same_table s s' \<Longrightarrow> same_table s' s'' \<Longrightarrow> same_table s s''"
  by (simp add: same_table_def)

text \<open>A process is ready if it is stopped or is the one running here.\<close>

definition ready :: "'a kernel_state_scheme \<Rightarrow> addr \<Rightarrow> bool" where
  "ready s p \<longleftrightarrow> stopped s p \<or> p_state (procs s p) = PROC_RUNNING \<and> p_pid (procs s p) = proc_current s (cpu s)"

definition preempt :: "addr \<Rightarrow> 'a kernel_state_scheme \<Rightarrow> 'a kernel_state_scheme" where
  "preempt p s = (if p_state (procs s p) = PROC_RUNNING then upd_proc p (\<lambda>q. q\<lparr>p_state := PROC_STOPPED, p_lock := 0\<rparr>) s else s)"

lemma preempt_same: "same_table s (preempt p s)" "proc_current (preempt p s) = proc_current s"
  by (auto simp: same_table_def preempt_def upd_proc_def)

lemma run_same: "same_table s (run p s)" "proc_current (run p s) (cpu s) = p_pid (procs s p)"
  by (auto simp: same_table_def run_def proc_set_current_def upd_proc_def)

lemma one_pid:
  assumes "proc_table t s" "p \<in> set (processes t s)" "q \<in> set (processes t s)" "p_pid (procs s p) = p_pid (procs s q)"
  shows "p = q"
  using processes_pids(1) [OF assms(1)] assms(2-4) by (auto simp: strict_sorted_iff distinct_map dest: inj_onD)

lemma preempt_ready:
  assumes "proc_table t s" "processes t s = A @ B" "p = last (kernel_proc s # A)" "p_pid (procs s p) = proc_current s (cpu s)"
    "q \<in> set (processes t s)"
  shows "stopped (preempt p s) q \<longleftrightarrow> ready s q"
proof -
  have "p = kernel_proc s \<or> p \<in> set (processes t s)" using assms(2,3) by auto
  moreover have "p_pid (procs s q) \<noteq> p_pid (procs s (kernel_proc s))"
    using processes_pids(2) [OF assms(1)] assms(1,5) by (auto simp: proc_table_def)
  ultimately have "p_pid (procs s q) = p_pid (procs s p) \<longleftrightarrow> q = p" using one_pid [OF assms(1,5)] by metis
  then show ?thesis using assms(4) by (auto simp: preempt_def ready_def upd_proc_def)
qed

lemma preempt_settled: "settled t s \<Longrightarrow> settled t (preempt p s)"
  by (auto simp: settled_def kernel_proc_def processes_def preempt_def upd_proc_def list_all_iff)

lemma run_settled: "settled t s \<Longrightarrow> settled t (run p s)"
  by (auto simp: settled_def kernel_proc_def processes_def run_def proc_set_current_def upd_proc_def list_all_iff)

lemma schedule_preempts:
  assumes "proc_table t s" "settled t s" "processes t s = A @ B" "proc_find (proc_current s (cpu s)) s = Some (last (kernel_proc s # A))"
  shows "schedule s = schedule_loop (last (kernel_proc s # A)) 0 (rt_num_nodes (proc_tree s) * 2) (preempt (last (kernel_proc s # A)) s)"
proof -
  define p where "p = last (kernel_proc s # A)"
  have "p \<noteq> NULL" using assms(1,3) processes_pids(2) [OF assms(1)] by (auto simp: p_def proc_table_def)
  moreover have "p_lock (procs s p) = 0" using assms(2,3) by (auto simp: p_def settled_def list_all_iff)
  ultimately show ?thesis
    using assms(4) same_table_simps preempt_same(1) [of s p] unfolding p_def [symmetric]
    by (auto simp: schedule_def preempt_def set_state_def same_table_def)
qed

lemma limit_positive:
  assumes "proc_table t s"
  shows "0 < rt_num_nodes (proc_tree s) * 2"
proof -
  have n: "rt_num_nodes (proc_tree s) = of_nat (length (tree_addrs t))" "length (tree_addrs t) < 2 ^ 63" "tree_addrs t \<noteq> []"
    using assms by (auto simp: proc_table_def rbt_rep_def)
  have "(of_nat (length (tree_addrs t) * 2) :: u64) \<noteq> 0" using n(2,3) by (simp only: word_of_nat_eq_0_iff) (auto dest!: dvd_imp_le)
  then show ?thesis using n(1) by (simp add: word_neq_0_conv)
qed

lemma schedule_runs:
  assumes "proc_table t s" "settled t s" "proc_current s (cpu s) \<in> set (tree_keys (rbnodes s) t)"
    and first: "filter (ready s) (queue (proc_current s (cpu s)) t s) = q # rest"
  shows "\<exists>s'. schedule s = Some (Resume q s') \<and> same_table s s' \<and> settled t s' \<and> proc_current s' (cpu s') = p_pid (procs s q)
    \<and> (\<forall>p \<in> set (processes t s). ready s' p \<longleftrightarrow> ready s p) \<and> q \<in> set (processes t s)"
proof -
  from assms(1,3) obtain A B where ab: "processes t s = A @ B" "proc_find (proc_current s (cpu s)) s = Some (last (kernel_proc s # A))"
    "queue (proc_current s (cpu s)) t s = B @ A" "p_pid (procs s (last (kernel_proc s # A))) = proc_current s (cpu s)" by (rule locate)
  define p s0 where "p = last (kernel_proc s # A)" and "s0 = preempt p s"
  note same = same_table_simps [OF preempt_same(1) [of s p], folded s0_def]
  have stop: "stopped s0 x \<longleftrightarrow> ready s x" if "x \<in> set (processes t s)" for x
    using preempt_ready [OF assms(1) ab(1) p_def _ that] ab(4) by (simp add: s0_def p_def)
  have "filter (stopped s0) (B @ A) = filter (ready s) (B @ A)" using stop by (intro filter_cong) (auto simp: ab(1))
  then have "filter (stopped s0) (B @ A) = q # rest" using first by (simp only: ab(3))
  moreover have "proc_table t s0" "settled t s0" using assms(1,2) same(4) preempt_settled by (simp_all add: s0_def)
  ultimately have "schedule s = Some (Resume q (run q s0))"
    using schedule_preempts [OF assms(1,2) ab(1,2), folded p_def s0_def] loop_first [of t s0 _ A B q rest, unfolded same(1), folded p_def]
      limit_positive [OF assms(1)] ab(1) same(2) by simp
  moreover have q: "q \<in> set (processes t s)" using first ab(1,3) by (metis Un_commute filter_is_subset list.set_intros(1) set_append subsetD)
  moreover have "same_table s (run q s0)" using same_table_trans [OF preempt_same(1) run_same(1)] by (simp add: s0_def)
  moreover have "ready (run q s0) x \<longleftrightarrow> ready s x" if x: "x \<in> set (processes t s)" for x
  proof -
    have "p_pid (procs s x) = p_pid (procs s q) \<longleftrightarrow> x = q" using one_pid [OF assms(1) x q] by blast
    moreover have "p_pid (procs s0 y) = p_pid (procs s y)" for y using preempt_same(1) [of s p] by (simp add: s0_def same_table_def)
    moreover have "stopped s0 q" using stop [OF q] first by (auto simp: filter_eq_Cons_iff)
    ultimately show ?thesis using stop [OF x] by (auto simp: ready_def run_def proc_set_current_def upd_proc_def)
  qed
  moreover have "proc_current (run q s0) (cpu (run q s0)) = p_pid (procs s q)"
    using run_same(1) [of s0 q] run_same(2) [of q s0] preempt_same(1) [of s p] by (simp add: s0_def same_table_def)
  ultimately show ?thesis using run_settled \<open>settled t s0\<close> by blast
qed

section \<open>A round\<close>

text \<open>The processes that a number of timer interrupts in a row give the processor to.\<close>

primrec timer_ticks :: "nat \<Rightarrow> 'a kernel_state_scheme \<Rightarrow> (addr list \<times> 'a kernel_state_scheme) option" where
  "timer_ticks 0 s = Some ([], s)"
| "timer_ticks (Suc n) s = do {
     r \<leftarrow> schedule s;
     case r of Resume p s' \<Rightarrow> do { (ps, s') \<leftarrow> timer_ticks n s'; Some (p # ps, s') } | Idle s' \<Rightarrow> None
   }"

lemma timer_ticks_prefix:
  assumes "proc_table t s" "settled t s" "proc_current s (cpu s) \<in> set (tree_keys (rbnodes s) t)"
    "filter (ready s) (queue (proc_current s (cpu s)) t s) = xs @ ys"
  shows "\<exists>s'. timer_ticks (length xs) s = Some (xs, s')"
  using assms
proof (induction xs arbitrary: s ys)
  case (Cons q xs)
  from schedule_runs [OF Cons.prems(1-3), of q "xs @ ys"] Cons.prems(4) obtain s' where s': "schedule s = Some (Resume q s')"
    "same_table s s'" "settled t s'" "proc_current s' (cpu s') = p_pid (procs s q)" "\<forall>p \<in> set (processes t s). ready s' p \<longleftrightarrow> ready s p"
    "q \<in> set (processes t s)" by auto
  note same = same_table_simps [OF s'(2)]
  obtain us vs where uv: "queue (proc_current s (cpu s)) t s = us @ q # vs" "\<forall>u \<in> set us. \<not> ready s u" "ready s q" "filter (ready s) vs = xs @ ys"
    using Cons.prems(4) by (auto simp: filter_eq_Cons_iff)
  have turn: "queue (p_pid (procs s q)) t s = vs @ us @ [q]" using queue_turn [OF Cons.prems(1,3) uv(1)] .
  have "filter (ready s') (queue (p_pid (procs s q)) t s) = filter (ready s) (queue (p_pid (procs s q)) t s)"
    using s'(5) by (intro filter_cong) (auto simp: queue_def)
  then have "filter (ready s') (queue (p_pid (procs s q)) t s) = xs @ ys @ [q]" using uv by (simp add: turn filter_empty_conv)
  moreover have "p_pid (procs s q) \<in> set (tree_keys (rbnodes s) t)" by (rule pid_in_tree [OF Cons.prems(1) s'(6)])
  ultimately have "\<exists>s''. timer_ticks (length xs) s' = Some (xs, s'')"
    using Cons.prems(1) s'(3,4) same by (intro Cons.IH [of s' "ys @ [q]"]) simp_all
  then show ?case using s'(1) by auto
qed simp

text \<open>
  C4. The scheduler starves no process. Take any well-formed process table in which no process is locked, and the processes that are
  ready: stopped, or running on this processor. As many timer interrupts in a row as there are ready processes run
  each of them exactly once, in the order of the pids beginning after the process that was running and going round.
\<close>

theorem schedule_round_robin:
  assumes "proc_table t s" "settled t s" "proc_current s (cpu s) \<in> set (tree_keys (rbnodes s) t)"
    "turns = filter (ready s) (queue (proc_current s (cpu s)) t s)"
  shows "\<exists>s'. timer_ticks (length turns) s = Some (turns, s') \<and> set turns = {p \<in> set (processes t s). ready s p} \<and> distinct turns"
proof -
  have "\<exists>s'. timer_ticks (length turns) s = Some (turns, s')" using timer_ticks_prefix [OF assms(1-3), of turns "[]"] assms(4) by simp
  moreover have "set turns = {p \<in> set (processes t s). ready s p}" by (auto simp: assms(4) queue_def not_less)
  moreover have "distinct (processes t s)" using processes_pids(1) [OF assms(1)] by (auto simp: strict_sorted_iff distinct_map)
  then have "distinct turns" by (auto simp: assms(4) queue_def)
  ultimately show ?thesis by blast
qed

text \<open>Process 1 is running, process 2 is stopped and process 3 is blocked.\<close>

definition three_nodes :: nodes where
  "three_nodes = (\<lambda>_. rbnodes boot_state 0)
    (0x1000 := \<lparr>rb_parent = 0, rb_left = 0x1040, rb_right = 0x1080, rb_color = RB_BLACK, rb_key = 1, rb_value = 0x5000, rb_value2 = 0, rb_value3 = 0\<rparr>,
     0x1040 := \<lparr>rb_parent = 0x1000, rb_left = 0, rb_right = 0, rb_color = RB_BLACK, rb_key = 0, rb_value = 0, rb_value2 = 0, rb_value3 = 0\<rparr>,
     0x1080 := \<lparr>rb_parent = 0x1000, rb_left = 0, rb_right = 0x10C0, rb_color = RB_BLACK, rb_key = 2, rb_value = 0x6000, rb_value2 = 0, rb_value3 = 0\<rparr>,
     0x10C0 := \<lparr>rb_parent = 0x1080, rb_left = 0, rb_right = 0, rb_color = RB_RED, rb_key = 3, rb_value = 0x7000, rb_value2 = 0, rb_value3 = 0\<rparr>)"

definition three_tree :: ctree where
  "three_tree = Node (Node Leaf (0x1040, Black) Leaf) (0x1000, Black) (Node Leaf (0x1080, Black) (Node Leaf (0x10C0, Red) Leaf))"

definition three_procs :: kernel_state where
  "three_procs = boot_state\<lparr>rbnodes := three_nodes, proc_tree := \<lparr>rt_root = 0x1000, rt_lock = 0, rt_num_nodes = 4\<rparr>, kernel_procs := 0x9000,
     proc_current := (\<lambda>_. 1), procs := (\<lambda>_. zero_proc)
       (0x5000 := zero_proc\<lparr>p_pid := 1, p_state := PROC_RUNNING\<rparr>, 0x6000 := zero_proc\<lparr>p_pid := 2, p_state := PROC_STOPPED\<rparr>,
        0x7000 := zero_proc\<lparr>p_pid := 3, p_state := PROC_BLOCKED\<rparr>)\<rparr>"

lemma three_procs_fields:
  "rbnodes three_procs = three_nodes" "kernel_proc three_procs = 0x9000" "proc_current three_procs (cpu three_procs) = 1"
  "processes three_tree three_procs = [0x5000, 0x6000, 0x7000]"
  by (simp_all add: three_procs_def kernel_proc_def boot_state_def processes_def three_tree_def three_nodes_def)

lemma three_procs_table: "proc_table three_tree three_procs" "settled three_tree three_procs"
proof -
  have "rbt_rep three_nodes (proc_tree three_procs) three_tree"
    by (simp add: rbt_rep_def three_tree_def three_nodes_def three_procs_def rbt_ok_def)
  then show "proc_table three_tree three_procs" unfolding proc_table_def three_procs_fields
    by (simp add: three_tree_def three_nodes_def three_procs_def zero_proc_def)
  show "settled three_tree three_procs" unfolding settled_def three_procs_fields by (simp add: three_procs_def zero_proc_def)
qed

theorem schedule_round_robin_witness:
  "\<exists>s'. timer_ticks 2 three_procs = Some ([0x6000, 0x5000], s')"
proof -
  have "queue 1 three_tree three_procs = [0x6000, 0x7000, 0x5000]"
    unfolding queue_def three_procs_fields by (simp add: three_procs_def zero_proc_def word_le_nat_alt)
  then have "filter (ready three_procs) (queue (proc_current three_procs (cpu three_procs)) three_tree three_procs) = [0x6000, 0x5000]"
    unfolding three_procs_fields by (simp add: ready_def three_procs_def zero_proc_def)
  moreover have "proc_current three_procs (cpu three_procs) \<in> set (tree_keys (rbnodes three_procs) three_tree)"
    unfolding three_procs_fields by (simp add: three_tree_def three_nodes_def)
  ultimately have "\<exists>s'. timer_ticks (length [0x6000, 0x5000 :: addr]) three_procs = Some ([0x6000, 0x5000], s')"
    using schedule_round_robin [OF three_procs_table, of "[0x6000, 0x5000]"] by (metis (no_types))
  moreover have "length [0x6000, 0x5000 :: addr] = 2" by simp
  ultimately show ?thesis by (simp only:)
qed

section \<open>Nothing to run\<close>

lemma loop_hangs:
  assumes "proc_table t s" "settled t s" "0 < lim" "\<forall>p \<in> set (processes t s). \<not> stopped s p" "processes t s = A @ B"
  shows "schedule_loop (last (kernel_proc s # A)) 0 lim s = None"
proof -
  have False if "schedule_loop p 0 lim s = Some r" "p = last (kernel_proc s # A)" "processes t s = A @ B" for p r A B
  proof -
    have "\<not> (\<exists>A B. p = last (kernel_proc s # A) \<and> processes t s = A @ B)"
    proof (rule schedule_loop.raw_induct [OF _ that(1), where P = "\<lambda>p c l s' r. c = 0 \<and> l = lim \<and> s' = s \<longrightarrow>
        \<not> (\<exists>A B. p = last (kernel_proc s # A) \<and> processes t s = A @ B)", THEN mp])
      fix f p c l s' r
      assume IH: "\<And>p c l s' r. f p c l s' = Some r \<Longrightarrow> c = 0 \<and> l = lim \<and> s' = s \<longrightarrow> \<not> (\<exists>A B. p = last (kernel_proc s # A) \<and> processes t s = A @ B)"
        and step: "(if \<not> c < l then Some (Idle s') else do {
             p \<leftarrow> proc_next p s';
             assert_opt (p \<noteq> NULL);
             if p_pid (procs s' p) = 0 then f p c l s'
             else do {
               lk \<leftarrow> spinlock_acquire (p_lock (procs s' p));
               let st = p_state (procs s' p);
               if st = PROC_STOPPED then
                 Some (Resume p (proc_set_current (p_pid (procs s' p)) (upd_proc p (\<lambda>q. q\<lparr>p_state := PROC_RUNNING, p_lock := 0\<rparr>) s')))
               else if st = PROC_ZOMBIE \<or> st = PROC_BLOCKED \<or> st = PROC_RUNNING then f p c l s'
               else f p c l (upd_proc p (p_lock_update (\<lambda>_. lk)) s')
             }
           }) = Some r"
      show "c = 0 \<and> l = lim \<and> s' = s \<longrightarrow> \<not> (\<exists>A B. p = last (kernel_proc s # A) \<and> processes t s = A @ B)"
      proof (intro impI notI, elim exE conjE)
        fix A B
        assume a: "c = 0" "l = lim" "s' = s" "p = last (kernel_proc s # A)" "processes t s = A @ B"
        note nxt = next_last [OF assms(1) a(5)]
        show False
        proof (cases B)
          case Nil
          then have "f (kernel_proc s) 0 lim s = Some r" using step nxt assms(1,3) a by (simp add: proc_table_def)
          from IH [OF this] show False by (metis append_Nil last.simps)
        next
          case (Cons q C)
          then have q: "q \<in> set (processes t s)" using a(5) by simp
          then have "p_lock (procs s q) = 0" "p_state (procs s q) \<in> {PROC_RUNNING, PROC_BLOCKED, PROC_ZOMBIE}" "q \<noteq> NULL" "p_pid (procs s q) \<noteq> 0"
            using assms(2,4) processes_pids(2) [OF assms(1)] by (auto simp: settled_def list_all_iff)
          then have "f q 0 lim s = Some r" using step nxt assms(3) a Cons by (auto simp: Let_def)
          from IH [OF this] show False using a(5) Cons by (metis append.assoc append_Cons append_Nil last_ConsR last_snoc snoc_eq_iff_butlast)
        qed
      qed
    qed simp
    then show False using that(2,3) by blast
  qed
  then show ?thesis using assms(5) by (cases "schedule_loop (last (kernel_proc s # A)) 0 lim s") auto
qed

text \<open>With no ready process \<open>schedule\<close> does not reach its idle code after the loop: the counter of the loop is never advanced.\<close>

theorem schedule_nothing_ready:
  assumes "proc_table t s" "settled t s" "proc_current s (cpu s) \<in> set (tree_keys (rbnodes s) t)" "\<forall>p \<in> set (processes t s). \<not> ready s p"
  shows "schedule s = None"
proof -
  from assms(1,3) obtain A B where ab: "processes t s = A @ B" "proc_find (proc_current s (cpu s)) s = Some (last (kernel_proc s # A))"
    "p_pid (procs s (last (kernel_proc s # A))) = proc_current s (cpu s)" by (rule locate)
  define p s0 where "p = last (kernel_proc s # A)" and "s0 = preempt p s"
  note same = same_table_simps [OF preempt_same(1) [of s p], folded s0_def]
  have "\<forall>x \<in> set (processes t s0). \<not> stopped s0 x"
    using preempt_ready [OF assms(1) ab(1) p_def] ab(3) assms(4) same(2) by (simp add: s0_def p_def)
  then have "schedule_loop p 0 (rt_num_nodes (proc_tree s) * 2) s0 = None"
    using loop_hangs [of t s0 _ A B, unfolded same(1), folded p_def] same limit_positive [OF assms(1)] assms(1) ab(1) preempt_settled [OF assms(2), of p]
    by (simp add: s0_def)
  then show ?thesis using schedule_preempts [OF assms(1,2) ab(1,2), folded p_def s0_def] by simp
qed

end
