(* ===== verification/Syscall_Entry.thy ===== *)
theory Syscall_Entry
  imports Scheduler
begin

unbundle bit_operations_syntax

text \<open>
  The way of a system call into the kernel and back: the entry code of \<^verbatim>\<open>sched/entry.S\<close>, the switch between a user process and its
  kernel process in \<^verbatim>\<open>sched/proc.c\<close>, and the dispatcher of \<^verbatim>\<open>sched/syscall.c\<close>.
\<close>

section \<open>What the steps leave alone\<close>

lemma buddy_alloc_regions_ram: "buddy_alloc_regions rs sz s = Some (a, s') \<Longrightarrow> \<exists>m. s' = s\<lparr>ram := m\<rparr>"
proof (induction rs arbitrary: s)
  case Nil
  then show ?case by (auto intro: exI [of _ "ram s"])
next
  case (Cons r rs)
  then show ?case by (fastforce simp: bind_Some_iff Let_def split: if_splits)
qed

lemma buddy_alloc_ram: "buddy_alloc sz s = Some (a, s') \<Longrightarrow> \<exists>m. s' = s\<lparr>ram := m\<rparr>"
  by (auto simp: buddy_alloc_def dest: buddy_alloc_regions_ram intro: exI [of _ "ram s"] split: if_splits)

lemma proc_find_kept [simp]:
  "proc_find i (upd_proc p f s) = proc_find i s" "proc_find i (s\<lparr>ram := m\<rparr>) = proc_find i s"
  "proc_find i (proc_set_current j s) = proc_find i s" "proc_find i (upd_regs p g s) = proc_find i s"
  by (simp_all add: proc_find_def proc_get_def kernel_proc_def upd_proc_def proc_set_current_def upd_regs_def cong: if_cong)

lemma getpid_kept [simp]:
  "getpid (upd_proc p f s) = getpid s" "getpid (s\<lparr>ram := m\<rparr>) = getpid s" "getpid (proc_set_current j s) = j" "getpid (upd_regs p g s) = getpid s"
  by (simp_all add: getpid_def upd_proc_def proc_set_current_def upd_regs_def)

lemma procs_kept [simp]:
  "procs (upd_proc p f s) = (procs s)(p := f (procs s p))" "procs (proc_set_current j s) = procs s"
  "procs (upd_regs p g s) = (procs s)(p := p_regs_update g (procs s p))"
  by (simp_all add: upd_proc_def proc_set_current_def upd_regs_def)

lemma buddy_inv_procs [simp]: "buddy_inv (upd_proc p f s) = buddy_inv s"
  by (subst (1 2) buddy_inv_truncate(1)) (simp add: upd_proc_def buddy_state.defs)

section \<open>A process and its kernel process\<close>

text \<open>\<open>k\<close> is the kernel process that runs the system calls of \<open>p\<close>; both are in the table and unlocked.\<close>

definition paired :: "addr \<Rightarrow> addr \<Rightarrow> 'a kernel_state_scheme \<Rightarrow> bool" where
  "paired p k s \<longleftrightarrow> p \<noteq> NULL \<and> k \<noteq> NULL \<and> p \<noteq> k
     \<and> \<not> p_is_kernel (procs s p) \<and> p_buddy_proc (procs s p) = k \<and> p_lock (procs s p) = 0 \<and> proc_find (p_pid (procs s p)) s = Some p
     \<and> p_is_kernel (procs s k) \<and> p_buddy_proc (procs s k) = p \<and> p_lock (procs s k) = 0 \<and> proc_find (p_pid (procs s k)) s = Some k"

text \<open>
  What a system call finds: the kernel process is current, the registers of the caller are saved, and apart from memory and the structures of processes the state
  is that of the entry.
\<close>

definition entered :: "addr \<Rightarrow> addr \<Rightarrow> procregs \<Rightarrow> 'a kernel_state_scheme \<Rightarrow> 'a kernel_state_scheme \<Rightarrow> bool" where
  "entered p k c s s' \<longleftrightarrow> paired p k s' \<and> getpid s' = p_pid (procs s' k) \<and> p_regs (procs s' p) = c
     \<and> (\<exists>m ps cur. s' = s\<lparr>ram := m, procs := ps, proc_current := cur\<rparr>)"

lemma enter_kernel:
  assumes "paired p k s" "getpid s = p_pid (procs s p)" "buddy_inv s" "p_regs (procs s p) = c"
  shows "\<exists>j s'. proc_enter_kernel save ret s = Some (j, s') \<and> j_arg j = save \<and> entered p k c s s'
    \<and> p_pid (procs s' p) = p_pid (procs s p)"
proof -
  have k: "p_is_kernel (procs s k)" "p_buddy_proc (procs s k) = p" "k \<noteq> p" "p \<noteq> NULL" "k \<noteq> NULL" using assms(1) by (auto simp: paired_def)
  define s1 where "s1 = upd_proc k (p_cr3_update (\<lambda>_. p_cr3 (procs s p))) s"
  have "buddy_inv s1" using assms(3) by (simp add: s1_def)
  from buddy_alloc_law [OF this, of 2] obtain a s2 where a: "buddy_alloc 0x4000 s1 = Some (a, s2)" by auto
  from buddy_alloc_ram [OF this] obtain m where s2: "s2 = s1\<lparr>ram := m\<rparr>" by blast
  have s1: "p_is_kernel (procs s1 k)" "p_pid (procs s1 k) = p_pid (procs s k)" "procs s1 p = procs s p" using k by (simp_all add: s1_def)
  define s' where "s' = proc_set_current (p_pid (procs s k)) (upd_regs k (rax_update (\<lambda>_. save)) (upd_proc k (p_buddy_proc_update (\<lambda>_. p))
    (upd_proc p (p_buddy_proc_update (\<lambda>_. k)) (upd_proc p (\<lambda>q. q\<lparr>p_state := PROC_BLOCKED, p_lock := 0\<rparr>)
      (proc_set_stack k a 0x4000 (upd_regs k (\<lambda>r. r\<lparr>cs := GDT_SEGMENT_CODE_RING0, ss := GDT_SEGMENT_DATA_RING0, rflags := 0x246\<rparr>) s2))))))"
  have "\<exists>j. proc_enter_kernel save ret s = Some (j, s') \<and> j_arg j = save"
    using assms(1,2) k a s1 unfolding s'_def
    by (simp add: proc_enter_kernel_def proc_init_memory_def s1_def [symmetric] s2 set_state_def paired_def Let_def proc_set_stack_def)
  moreover have "paired p k s'"
    using assms(1) k s1 by (simp add: s'_def paired_def proc_set_stack_def s2) (simp add: s1_def)
  moreover have "\<exists>m ps cur. s' = s\<lparr>ram := m, procs := ps, proc_current := cur\<rparr>"
    by (intro exI [of _ m] exI [of _ "procs s'"] exI [of _ "proc_current s'"])
      (simp add: s'_def proc_set_stack_def s2 s1_def proc_set_current_def upd_regs_def upd_proc_def)
  moreover have "getpid s' = p_pid (procs s' k)" "p_regs (procs s' p) = c" "p_pid (procs s' p) = p_pid (procs s p)"
    using k s1 assms(4) by (simp_all add: s'_def proc_set_stack_def s2)
  ultimately show ?thesis unfolding entered_def by blast
qed

lemma leave_kernel:
  assumes "paired p k s" "getpid s = p_pid (procs s k)"
  shows "\<exists>s'. proc_leave_kernel v True s = Some (v, s') \<and> proc_current_regs s' = Some p \<and> getpid s' = p_pid (procs s p)
    \<and> p_regs (procs s' p) = (p_regs (procs s p))\<lparr>rax := v\<rparr> \<and> paired p k s' \<and> p_state (procs s' p) = PROC_RUNNING
    \<and> p_pid (procs s' p) = p_pid (procs s p)"
  using assms by (auto simp: proc_leave_kernel_def paired_def set_state_def proc_current_regs_def)

section \<open>There and back\<close>

text \<open>A system call that comes back with \<open>v\<close>, leaving the pair of processes and the saved registers as they are.\<close>

definition answers ::
  "'a kernel_state_scheme drivers \<Rightarrow> addr \<Rightarrow> procregs \<Rightarrow> u64 \<Rightarrow> addr \<Rightarrow> addr \<Rightarrow> 'a kernel_state_scheme \<Rightarrow> bool" where
  "answers dr delim c v p k s \<longleftrightarrow> (\<exists>s'. syscall dr delim (rdi c) (rsi c) (rdx c) (r10 c) (rax c) s = Some (Ret v s')
     \<and> paired p k s' \<and> getpid s' = p_pid (procs s' k) \<and> p_regs (procs s' p) = p_regs (procs s p))"

lemma gate_body:
  assumes "paired p k s" "getpid s = p_pid (procs s p)" "buddy_inv s"
    and "\<forall>s1. entered p k r s s1 \<longrightarrow> answers dr delim r v p k s1"
  shows "\<exists>s'. gate_syscall_body dr delim ret p (upd_regs p (\<lambda>_. r) s) = Some (Ret v s') \<and> proc_current_regs s' = Some p
    \<and> p_regs (procs s' p) = r\<lparr>rax := v\<rparr> \<and> paired p k s' \<and> getpid s' = p_pid (procs s' p) \<and> p_state (procs s' p) = PROC_RUNNING"
proof -
  let ?s = "upd_regs p (\<lambda>_. r) s"
  have "paired p k ?s" "getpid ?s = p_pid (procs ?s p)" "buddy_inv ?s" "p_regs (procs ?s p) = r"
    using assms(1-3) by (auto simp: paired_def upd_regs_def)
  from enter_kernel [OF this] obtain j s1 where s1: "proc_enter_kernel p ret ?s = Some (j, s1)" "j_arg j = p" "entered p k r ?s s1" by blast
  then have "entered p k r s s1" by (auto simp: entered_def upd_regs_def upd_proc_def)
  then have "answers dr delim r v p k s1" "p_regs (procs s1 p) = r" using assms(4) by (auto simp: entered_def)
  then obtain s2 where s2: "syscall dr delim (rdi r) (rsi r) (rdx r) (r10 r) (rax r) s1 = Some (Ret v s2)" "paired p k s2"
    "getpid s2 = p_pid (procs s2 k)" "p_regs (procs s2 p) = r" by (auto simp: answers_def)
  from leave_kernel [OF s2(2,3), of v] obtain s3 where s3: "proc_leave_kernel v True s2 = Some (v, s3)" "proc_current_regs s3 = Some p"
    "p_regs (procs s3 p) = r\<lparr>rax := v\<rparr>" "paired p k s3" "getpid s3 = p_pid (procs s3 p)" "p_state (procs s3 p) = PROC_RUNNING"
    using s2(4) by auto
  then show ?thesis using s1(1,2) s2(1) \<open>p_regs (procs s1 p) = r\<close> by (simp add: gate_syscall_body_def)
qed


text \<open>A user process with pid 1 and its kernel process with pid -1; no system call is installed yet.\<close>

definition pair_nodes :: nodes where
  "pair_nodes = (\<lambda>_. rbnodes boot_state 0)
    (0x1000 := \<lparr>rb_parent = 0, rb_left = 0, rb_right = 0x1040, rb_color = RB_BLACK, rb_key = 1, rb_value = 0x5000, rb_value2 = 0, rb_value3 = 0\<rparr>,
     0x1040 := \<lparr>rb_parent = 0x1000, rb_left = 0, rb_right = 0, rb_color = RB_RED, rb_key = 0xFFFFFFFFFFFFFFFF, rb_value = 0x6000, rb_value2 = 0, rb_value3 = 0\<rparr>)"

definition pair_state :: kernel_state where
  "pair_state = boot_state\<lparr>rbnodes := pair_nodes, proc_tree := \<lparr>rt_root = 0x1000, rt_lock = 0, rt_num_nodes = 2\<rparr>, proc_current := (\<lambda>_. 1),
     procs := (\<lambda>_. zero_proc)(0x5000 := zero_proc\<lparr>p_pid := 1, p_buddy_proc := 0x6000\<rparr>,
       0x6000 := zero_proc\<lparr>p_pid := 0xFFFFFFFFFFFFFFFF, p_buddy_proc := 0x5000, p_is_kernel := True\<rparr>)\<rparr>"

lemma pair_state_find: "proc_find 1 pair_state = Some 0x5000" "proc_find 0xFFFFFFFFFFFFFFFF pair_state = Some 0x6000"
proof -
  have "rbt_rep pair_nodes (proc_tree pair_state) (Node Leaf (0x1000, Black) (Node Leaf (0x1040, Red) Leaf))"
    by (simp add: rbt_rep_def rbt_ok_def pair_nodes_def pair_state_def)
  from search_key [OF this, of "0x1000"] search_key [OF this, of "0x1040"]
  show "proc_find 1 pair_state = Some 0x5000" "proc_find 0xFFFFFFFFFFFFFFFF pair_state = Some 0x6000"
    by (simp_all add: proc_find_def proc_get_def pair_state_def pair_nodes_def)
qed

lemma pair_state_paired: "paired 0x5000 0x6000 pair_state"
  unfolding paired_def using pair_state_find by (simp add: pair_state_def zero_proc_def)


section \<open>The other entry\<close>

text \<open>
  Through the \<open>syscall\<close> instruction the caller continues at the right address, but its frame pointer is returned as the result, and a word
  at the result plus 48 becomes its frame pointer: \<open>rax\<close> is restored before it is used as the address of the saved registers.
\<close>

lemma gate_syscall_confuses_result:
  assumes "paired p k s" "getpid s = p_pid (procs s p)" "buddy_inv s"
    and "\<forall>s1 r. entered p k r s s1 \<longrightarrow> answers dr delim r v p k s1"
  shows "\<exists>s'. gate_syscall dr delim ret c s
    = Some (Back (c\<lparr>rax := rbp c, rbp := load64 (ram s') (v + 48), rip := rcx c, rflags := r11 c\<rparr>) s')"
proof -
  have "proc_current_regs s = Some p" "p \<noteq> NULL" using assms(1,2) by (simp_all add: proc_current_regs_def paired_def)
  then show ?thesis
    using gate_body [OF assms(1-3), of "save_sysretq_frame (rsp c) (rflags c) (save_context c (p_regs (procs s p)))" dr delim v ret] assms(4)
    by (cases c) (auto simp: gate_syscall_def restore_context_def save_sysretq_frame_def save_context_def Let_def)
qed

end
