(* ===== verification/Decimal_Text.thy ===== *)
theory Decimal_Text
  imports Stdio
begin

unbundle bit_operations_syntax

text \<open>
  The decimal conversions of \<^verbatim>\<open>lib/stdio.c\<close> and \<^verbatim>\<open>lib/string.c\<close> are inverse to each other: the digits \<open>snprintf\<close> writes for \<^verbatim>\<open>%d\<close> are
  read back by \<open>atoi\<close>.
\<close>

section \<open>Digits\<close>

text \<open>The digits of a number, the most significant first.\<close>

fun digits :: "nat \<Rightarrow> nat list" where
  "digits n = (if n < 10 then [n] else digits (n div 10) @ [n mod 10])"

declare digits.simps [simp del]

lemma digits_small: "\<forall>d \<in> set (digits n). d < 10"
proof (induction n rule: digits.induct)
  case (1 n)
  then show ?case by (cases "n < 10") (simp_all add: digits.simps [of n])
qed

lemma decimal_digits: "decimal (digits n) = n"
proof (induction n rule: digits.induct)
  case (1 n)
  then show ?case by (cases "n < 10") (simp_all add: digits.simps [of n] decimal_def)
qed

lemma digits_dec: "rev (dec_digits n) = map (\<lambda>d. of_nat (d + 48)) (digits n)"
proof (induction n rule: digits.induct)
  case (1 n)
  then show ?case by (cases "n < 10") (simp_all add: digits.simps [of n] dec_digits.simps [of n] convert_def add.commute div_eq_0_iff)
qed

lemma digits_length: "n < 10 ^ Suc k \<Longrightarrow> length (digits n) \<le> Suc k"
proof (induction k arbitrary: n)
  case 0
  then show ?case by (simp add: digits.simps [of n])
next
  case (Suc k)
  then have "n div 10 < 10 ^ Suc k" by (simp add: div_less_iff_less_mult mult.commute)
  then show ?case using Suc.IH [of "n div 10"] by (simp add: digits.simps [of n])
qed

section \<open>Writing them\<close>

lemma put_chars_fits:
  "k + length cs \<le> unat sz \<Longrightarrow> k + length cs < 2 ^ 31 \<Longrightarrow>
   put_chars str sz cs (of_nat k) m = (False, of_nat (k + length cs), put_bytes m (str + of_nat k) cs)"
proof (induction cs arbitrary: k m)
  case (Cons c cs)
  have "\<not> sz \<le> of_nat k" using Cons.prems by (simp add: word_le_nat_alt unat_of_nat)
  moreover have "put_chars str sz cs (of_nat (Suc k)) m' = (False, of_nat (Suc k + length cs), put_bytes m' (str + of_nat (Suc k)) cs)" for m'
    using Cons.prems by (intro Cons.IH) simp_all
  ultimately show ?case using Cons.prems scast_of_nat_u32 [of k] by (simp add: add.commute add.left_commute)
qed simp

lemma printf_conv_decimal:
  assumes "n < 2 ^ 31" "10 \<le> unat sz"
  shows "printf_conv str sz 100 [Va_int (of_nat n)] 0 m
    = Some (False, [], [], of_nat (length (digits n)), put_bytes m str (map (\<lambda>d. of_nat (d + 48)) (digits n)))"
proof -
  have "length (digits n) \<le> Suc 9" using assms(1) by (intro digits_length) simp
  then have "put_chars str sz (rev (dec_digits n)) (of_nat 0) m
      = (False, of_nat (length (digits n)), put_bytes m str (map (\<lambda>d. of_nat (d + 48)) (digits n)))"
    using assms(2) by (subst put_chars_fits) (simp_all add: digits_dec)
  moreover have "unat (of_nat n :: u32) = n" using assms(1) by (simp add: unat_of_nat)
  moreover from this have "(of_nat n :: u32) \<noteq> 0x80000000" using assms(1) by auto
  moreover have "sint (of_nat n :: u32) = int n" using assms(1) by (simp add: signed_of_nat signed_take_bit_int_eq_self)
  then have "\<not> (of_nat n :: u32) <s 0" by (simp only: word_sless_alt) simp
  ultimately show ?thesis by (simp add: printf_conv_def)
qed

section \<open>Round trip\<close>

lemma cstr_digits:
  assumes "\<forall>i \<le> 10. m (str + of_nat i) = 0" "length ds \<le> 10" "\<forall>d \<in> set ds. d < 10"
  shows "cstr (put_bytes m str (map (\<lambda>d. of_nat (d + 48)) ds)) str (map (\<lambda>d. of_nat (d + 48)) ds)"
proof -
  have "put_bytes m str (map (\<lambda>d. of_nat (d + 48)) ds @ [0]) = put_bytes m str (map (\<lambda>d. of_nat (d + 48)) ds)"
  proof (rule ext)
    fix q
    have "put_bytes m str (map (\<lambda>d. of_nat (d + 48)) ds) (str + of_nat (length ds)) = m (str + of_nat (length ds))"
      using assms(2) add_of_nat_inj [of str "length ds"] by (intro put_bytes_outside) fastforce
    then show "put_bytes m str (map (\<lambda>d. of_nat (d + 48)) ds @ [0]) q = put_bytes m str (map (\<lambda>d. of_nat (d + 48)) ds) q"
      using assms(1,2) by (auto simp: put_bytes_append)
  qed
  moreover have "of_nat (d + 48) \<noteq> (0 :: u8)" if "d < 10" for d
    using that by (simp only: word_of_nat_eq_0_iff) (auto dest!: dvd_imp_le)
  then have "0 \<notin> set (map (\<lambda>d. of_nat (d + 48) :: u8) ds)" using assms(3) by (metis (no_types, lifting) imageE list.set_map)
  ultimately show ?thesis using cstr_put_bytes [of "map (\<lambda>d. of_nat (d + 48)) ds" m str] assms(2,3) by auto
qed

text \<open>
  C25. A number printed with \<^verbatim>\<open>%d\<close> into a cleared buffer of at least eleven bytes is read back by \<open>atoi\<close>, for every non-negative \<open>int\<close>. The result of
  \<open>snprintf\<close> is the number of digits.
\<close>

theorem snprintf_atoi_roundtrip:
  assumes "n < 2 ^ 31" "m fmt = 37" "m (fmt + 1) = 100" "m (fmt + 2) = 0" "10 \<le> unat sz"
    and "\<forall>i \<le> 10. m (str + of_nat i) = 0" "\<forall>i < 10. fmt + 2 \<noteq> str + of_nat i"
  shows "\<exists>m'. snprintf str fmt sz [Va_int (of_nat n)] m = Some (of_nat (length (digits n)), [], m') \<and> atoi str m' = Some (int n)"
proof -
  define m' where "m' = put_bytes m str (map (\<lambda>d. of_nat (d + 48)) (digits n))"
  have len: "length (digits n) \<le> Suc 9" using assms(1) by (intro digits_length) simp
  then have "m' (fmt + 2) = 0" using assms(4,7) unfolding m'_def by (subst put_bytes_outside) auto
  then have "vsnprintf_loop str (fmt + 2) sz [] (of_nat (length (digits n))) m' = Some (of_nat (length (digits n)), [], m')"
    by (subst vsnprintf_loop.simps) simp
  moreover have "0 < sz" using assms(5) by (simp add: word_less_nat_alt)
  ultimately have "snprintf str fmt sz [Va_int (of_nat n)] m = Some (of_nat (length (digits n)), [], m')"
    unfolding snprintf_def vsnprintf_def
    by (subst vsnprintf_loop.simps) (simp add: assms(2,3) printf_conv_decimal [OF assms(1,5)] m'_def)
  moreover have "atoi str m' = Some (int (decimal (digits n)))"
    using cstr_digits [OF assms(6)] digits_small len assms(1) by (intro atoi_value) (simp_all add: m'_def decimal_digits)
  ultimately show ?thesis by (simp add: decimal_digits)
qed

theorem snprintf_atoi_roundtrip_witness:
  "\<exists>m'. snprintf 0x1000 0x2000 16 [Va_int (of_nat 407)] (put_bytes (\<lambda>_. 0) 0x2000 [37, 100])
     = Some (of_nat (length (digits 407)), [], m') \<and> atoi 0x1000 m' = Some (int 407)"
proof (rule snprintf_atoi_roundtrip)
  have "unat (0x1000 + of_nat i :: addr) = 0x1000 + i" if "i \<le> 10" for i using that by (simp add: unat_word_ariths unat_of_nat)
  then have a: "(0x1000 + of_nat i :: addr) \<noteq> w" if "i \<le> 10" "0x2000 \<le> unat w" for i w using that by fastforce
  show "\<forall>i \<le> 10. put_bytes (\<lambda>_. 0) 0x2000 [37, 100] (0x1000 + of_nat i) = 0" using a [where w = "0x2000"] a [where w = "0x2001"] by simp
  show "\<forall>i < 10. 0x2000 + 2 \<noteq> (0x1000 :: addr) + of_nat i" using a [where w = "0x2002"] by fastforce
qed simp_all

end
