(* ===== verification/Ext2_Index.thy ===== *)
theory Ext2_Index
  imports Ext2_Disk
begin

unbundle bit_operations_syntax

text \<open>
  How \<open>ext2_get_block_idx\<close> of \<^verbatim>\<open>fs/ext2.c\<close> finds the entry for a block of a file, in natural numbers. A block holds \<open>N\<close> entries, a
  quarter of the block size.
\<close>

section \<open>The indices as natural numbers\<close>

definition block_path :: "nat \<Rightarrow> nat \<Rightarrow> nat list" where
  "block_path N b =
    (if b < 12 then [b]
     else if b < 12 + N then [12, b - 12]
     else if b < 12 + N + N * N then [13, (b - 12) div N, (b - 12) mod N]
     else if b < 12 + N + N * N + (N * N * N + N * N + N) then
       [14, (b - (12 + N * N)) div N div N, (b - (12 + N * N)) div N mod N, (b - (12 + N * N)) mod N]
     else [])"

lemma small_cube: "N \<le> 1024 \<Longrightarrow> N * N \<le> 1024 * 1024 \<and> N * N * N \<le> 1024 * 1024 * (1024 :: nat)"
  using mult_le_mono [of N 1024 N 1024] mult_le_mono [of "N * N" "1024 * 1024" N 1024] by simp

lemma unat64: "n < 2 ^ 64 \<Longrightarrow> unat (of_nat n :: u64) = n"
  by (simp add: unat_of_nat)

lemma unat32: "n < 2 ^ 32 \<Longrightarrow> unat (of_nat n :: u32) = n"
  by (simp add: unat_of_nat)

lemma widen: "n < 2 ^ 32 \<Longrightarrow> (ucast (of_nat n :: u32) :: u64) = of_nat n"
  by (simp add: unsigned_of_nat take_bit_nat_eq_self)

lemma narrow: "(ucast (of_nat n :: u64) :: u32) = of_nat n"
  by (rule bit_word_eqI) (simp add: bit_simps)

lemma div64: "m < 2 ^ 64 \<Longrightarrow> n < 2 ^ 64 \<Longrightarrow> (of_nat m :: u64) div of_nat n = of_nat (m div n)"
  by (rule word_unat_eq_iff [THEN iffD2]) (simp add: unat_div unat64 div_le_dividend [THEN le_less_trans])

lemma mod64: "m < 2 ^ 64 \<Longrightarrow> n < 2 ^ 64 \<Longrightarrow> (of_nat m :: u64) mod of_nat n = of_nat (m mod n)"
  by (rule word_unat_eq_iff [THEN iffD2]) (simp add: unat_mod unat64 mod_less_eq_dividend [THEN le_less_trans])

lemma less32: "m < 2 ^ 32 \<Longrightarrow> n < 2 ^ 32 \<Longrightarrow> (of_nat m :: u32) < of_nat n \<longleftrightarrow> m < n"
  by (simp add: word_less_nat_alt unat32)

lemma constants_nat:
  assumes "N \<le> 1024"
  shows "N_INDIR (of_nat (4 * N)) = of_nat N" "N_PER_INDIRECT (of_nat (4 * N)) = of_nat N"
    "N_DINDIR (of_nat (4 * N)) = of_nat (N * N)" "N_TINDIR (of_nat (4 * N)) = of_nat (N * N * N + N * N + N)"
proof -
  have "4 * N < 2 ^ 32" "4 * N < 2 ^ 64" using assms by simp_all
  then have "(ucast (of_nat (4 * N) :: u32) :: u64) div of_nat 4 = of_nat (4 * N div 4)" by (simp only: widen) (rule div64, simp_all)
  then show "N_INDIR (of_nat (4 * N)) = of_nat N" "N_PER_INDIRECT (of_nat (4 * N)) = of_nat N" by (simp_all add: N_INDIR_def N_PER_INDIRECT_def)
  then show "N_DINDIR (of_nat (4 * N)) = of_nat (N * N)" "N_TINDIR (of_nat (4 * N)) = of_nat (N * N * N + N * N + N)"
    by (simp_all add: N_DINDIR_def N_TINDIR_def)
qed

lemma limits_nat:
  assumes "N \<le> 1024"
  shows "(ucast (12 + N_INDIR (of_nat (4 * N))) :: u32) = of_nat (12 + N)"
    "(ucast (ucast (of_nat (12 + N) :: u32) + N_DINDIR (of_nat (4 * N))) :: u32) = of_nat (12 + N + N * N)"
    "(ucast (ucast (of_nat (12 + N + N * N) :: u32) + N_TINDIR (of_nat (4 * N))) :: u32) = of_nat (12 + N + N * N + (N * N * N + N * N + N))"
proof -
  note c = constants_nat [OF assms] and sq = small_cube [OF assms]
  have "12 + N_INDIR (of_nat (4 * N)) = of_nat (12 + N)" by (simp add: c del: of_nat_mult)
  then show "(ucast (12 + N_INDIR (of_nat (4 * N))) :: u32) = of_nat (12 + N)" by (simp only: narrow)
  have "12 + N < 2 ^ 32" "12 + N + N * N < 2 ^ 32" using sq assms by simp_all
  then show "(ucast (ucast (of_nat (12 + N) :: u32) + N_DINDIR (of_nat (4 * N))) :: u32) = of_nat (12 + N + N * N)"
    "(ucast (ucast (of_nat (12 + N + N * N) :: u32) + N_TINDIR (of_nat (4 * N))) :: u32) = of_nat (12 + N + N * N + (N * N * N + N * N + N))"
    by (simp_all only: c widen narrow flip: of_nat_add)
qed

lemma block_idx_nat:
  assumes "0 < N" "N \<le> 1024" "b < 2 ^ 32"
  shows "ext2_get_block_idx (of_nat (4 * N)) (of_nat b) = \<lparr>n_indirs = of_nat (length (block_path N b)) - 1, indices = map of_nat (block_path N b)\<rparr>"
proof -
  note c = constants_nat [OF assms(2)] and sq = small_cube [OF assms(2)] and lim = limits_nat [OF assms(2)]
  have lt: "(of_nat b :: u64) < 12 \<longleftrightarrow> b < 12" using assms(3) unat64 [of b] by (simp add: word_less_nat_alt)
  have bounds: "12 + N < 2 ^ 32" "12 + N + N * N < 2 ^ 32" "12 + N + N * N + (N * N * N + N * N + N) < 2 ^ 32" using sq assms(2) by simp_all
  have minus: "of_nat b - (12 :: u64) = of_nat (b - 12)" if "12 \<le> b" using that by simp
  have minus': "of_nat b - (12 + of_nat (N * N) :: u64) = of_nat (b - (12 + N * N))" if "12 + N * N \<le> b" using that by (simp add: of_nat_diff)
  have "b - k < 2 ^ 64" "(b - k) div N < 2 ^ 64" "N < 2 ^ 64" for k
    using assms by (simp_all add: le_less_trans [OF div_le_dividend])
  note small = this div64 [OF this(1,3)] mod64 [OF this(1,3)] div64 [OF this(2,3)] mod64 [OF this(2,3)]
  show ?thesis
    unfolding ext2_get_block_idx_def Let_def lim widen [OF assms(3)] lt less32 [OF assms(3) bounds(1)] less32 [OF assms(3) bounds(2)]
      less32 [OF assms(3) bounds(3)]
    by (auto simp: block_path_def minus minus' c small narrow simp del: of_nat_mult of_nat_add of_nat_diff)
qed

section \<open>Bounds\<close>

lemma div_mod_inject: "(x :: nat) div N = y div N \<Longrightarrow> x mod N = y mod N \<Longrightarrow> x = y"
  by (metis div_mult_mod_eq)

lemma block_path_inject:
  assumes "block_path N b = block_path N b'" "block_path N b \<noteq> []"
  shows "b = b'"
  using assms by (auto simp: block_path_def split: if_splits dest!: div_mod_inject)

lemma block_path_bounded:
  assumes "0 < N" "b < 12 + N + N * N + (N * N * N + N * N + N)"
  shows "list_all (\<lambda>i. i < N) (tl (block_path N b)) \<longleftrightarrow> b < 12 + N * N \<or> 12 + N * N + N \<le> b \<and> b < 12 + N * N + N * N * N"
proof -
  have "b < 12 + N * N" if "b < 12 + N" using that assms(1) le_square [of N] by linarith
  then show ?thesis using assms by (auto simp: block_path_def div_less_iff_less_mult)
qed

lemma block_path_small:
  assumes "b < 2 ^ 32"
  shows "\<forall>i \<in> set (block_path N b). i < 2 ^ 32"
proof -
  have "(b - k) div n < 2 ^ 32" "(b - k) mod n < 2 ^ 32" "(b - k) div n div n < 2 ^ 32" "(b - k) div n mod n < 2 ^ 32" for k n
    using assms div_le_dividend [of "b - k" n] mod_less_eq_dividend [of "b - k" n] div_le_dividend [of "(b - k) div n" n]
      mod_less_eq_dividend [of "(b - k) div n" n] by linarith+
  then show ?thesis using assms by (auto simp: block_path_def)
qed

text \<open>
  C20. For block sizes up to 4096 bytes, the blocks of a file whose indices all lie inside their indirect blocks are exactly these: the direct and
  singly indirect ones, the doubly indirect ones but for the last \<open>N\<close>, and the triply indirect ones up to \<open>12 + N * N + N * N * N\<close>, with
  \<open>N\<close> entries in a block. The first index is always inside the inode, and two blocks never share an entry.
\<close>

theorem block_index_bounds:
  assumes "0 < N" "N \<le> 1024" "b < 12 + N + N * N + (N * N * N + N * N + N)"
    "ext2_get_block_idx (of_nat (4 * N)) (of_nat b) = \<lparr>n_indirs = k, indices = i # js\<rparr>"
  shows "(list_all (\<lambda>j. unat j < N) js \<longleftrightarrow> b < 12 + N * N \<or> 12 + N * N + N \<le> b \<and> b < 12 + N * N + N * N * N)
    \<and> unat i < 15 \<and> k = of_nat (length js)
    \<and> (\<forall>b' < 2 ^ 32. indices (ext2_get_block_idx (of_nat (4 * N)) (of_nat b')) = i # js \<longrightarrow> b' = b)"
proof -
  have b: "b < 2 ^ 32" using assms(2,3) small_cube [OF assms(2)] by simp
  note idx = block_idx_nat [OF assms(1,2)] and small = block_path_small [OF b, of N]
  have path: "map of_nat (block_path N b) = i # js" "k = of_nat (length (block_path N b)) - 1" using idx [OF b] assms(4) by simp_all
  then obtain x xs where xs: "block_path N b = x # xs" "i = of_nat x" "js = map of_nat xs" by auto
  have inj: "b' = b" if "b' < 2 ^ 32" "indices (ext2_get_block_idx (of_nat (4 * N)) (of_nat b')) = i # js" for b'
  proof -
    have "map (unat \<circ> (of_nat :: nat \<Rightarrow> u32)) (block_path N b') = map (unat \<circ> (of_nat :: nat \<Rightarrow> u32)) (block_path N b)"
      using idx [OF that(1)] that(2) path(1) by (metis ext2_block_index.select_convs(2) map_map)
    moreover have "map (unat \<circ> (of_nat :: nat \<Rightarrow> u32)) (block_path N c) = block_path N c" if "c < 2 ^ 32" for c
      using block_path_small [OF that, of N] by (auto intro!: map_idI simp: unat32)
    ultimately have "block_path N b' = block_path N b" using that(1) b by metis
    then show ?thesis using block_path_inject [of N b' b] xs(1) by simp
  qed
  have "list_all (\<lambda>j. unat j < N) js \<longleftrightarrow> list_all (\<lambda>j. j < N) (tl (block_path N b))"
    using small unat32 by (auto simp: xs list_all_iff)
  moreover have "x < 15" using xs(1) by (auto simp: block_path_def split: if_splits)
  ultimately show ?thesis using block_path_bounded [OF assms(1,3)] inj path(2) xs by (simp add: unat32)
qed

theorem block_index_bounds_witness:
  "\<not> list_all (\<lambda>j. unat j < 256) [256 :: u32, 0] \<and> ext2_get_block_idx 1024 65548 = \<lparr>n_indirs = 2, indices = [13, 256, 0]\<rparr>"
proof -
  have "block_path 256 65548 = [13, 256, 0]" by (simp add: block_path_def)
  then have i: "ext2_get_block_idx (of_nat (4 * 256)) (of_nat 65548) = \<lparr>n_indirs = 2, indices = [13, 256, 0]\<rparr>"
    using block_idx_nat [of 256 65548] by (simp del: of_nat_mult)
  from block_index_bounds [OF _ _ _ i] have "\<not> list_all (\<lambda>j. unat j < 256) [256 :: u32, 0]" by simp
  then show ?thesis using i by simp
qed

end
