(* ===== verification/Inode_Layout.thy ===== *)
theory Inode_Layout
  imports Ext2_Disk
begin

unbundle bit_operations_syntax

text \<open>
  The layout of an inode on disk (\<open>struct ext2_inode\<close> of \<^verbatim>\<open>include/fs/ext2.h\<close>): the bytes that \<open>ext2_write_inode\<close> stores are read back by
  \<open>ext2_read_inode\<close> as the same inode.
\<close>

lemma load16_put: "length xs \<le> 2 ^ 64 \<Longrightarrow> Suc k < length xs \<Longrightarrow>
   load16 (put_bytes m p xs) (p + of_nat k) = ucast (xs ! k) OR push_bit 8 (ucast (xs ! Suc k))"
  using put_bytes_nth [of xs k m p] put_bytes_nth [of xs "Suc k" m p] by (simp add: load16_def ac_simps)

lemma join16: "(ucast (ucast v :: u8) :: u16) OR push_bit 8 (ucast (ucast (drop_bit 8 v) :: u8)) = v"
proof (rule bit_eqI)
  fix i assume "possible_bit TYPE(u16) i"
  then show "bit ((ucast (ucast v :: u8) :: u16) OR push_bit 8 (ucast (ucast (drop_bit 8 v) :: u8))) i = bit v i"
    by (cases "i < 8") (auto simp: bit_simps)
qed

lemma join32: "(ucast (ucast v :: u16) :: u32) OR push_bit 16 (ucast (ucast (drop_bit 16 v) :: u16)) = v"
proof (rule bit_eqI)
  fix i assume "possible_bit TYPE(u32) i"
  then show "bit ((ucast (ucast v :: u16) :: u32) OR push_bit 16 (ucast (ucast (drop_bit 16 v) :: u16))) i = bit v i"
    by (cases "i < 16") (auto simp: bit_simps)
qed

lemma load16_bytes:
  assumes "length (xs @ bytes16 v @ ys) \<le> 2 ^ 64"
  shows "load16 (put_bytes m p (xs @ bytes16 v @ ys)) (p + of_nat (length xs)) = v"
  using load16_put [OF assms, of "length xs" m p] by (simp add: nth_append bytes16_def join16)

lemma load32_bytes:
  assumes "length (xs @ bytes32 v @ ys) \<le> 2 ^ 64"
  shows "load32 (put_bytes m p (xs @ bytes32 v @ ys)) (p + of_nat (length xs)) = v"
proof -
  have e: "xs @ bytes32 v @ ys = xs @ bytes16 (ucast v) @ (bytes16 (ucast (drop_bit 16 v)) @ ys)"
    "xs @ bytes32 v @ ys = (xs @ bytes16 (ucast v)) @ bytes16 (ucast (drop_bit 16 v)) @ ys" by (simp_all add: bytes32_def)
  have "load16 (put_bytes m p (xs @ bytes32 v @ ys)) (p + of_nat (length xs)) = ucast v"
    using assms unfolding e(1) by (rule load16_bytes)
  moreover have "load16 (put_bytes m p (xs @ bytes32 v @ ys)) (p + of_nat (length (xs @ bytes16 (ucast v :: u16)))) = ucast (drop_bit 16 v)"
    using assms unfolding e(2) by (rule load16_bytes)
  then have "load16 (put_bytes m p (xs @ bytes32 v @ ys)) (p + of_nat (length xs) + 2) = ucast (drop_bit 16 v)"
    by (simp add: bytes16_def ac_simps)
  ultimately show ?thesis by (simp add: load32_def join32)
qed

lemma length_bytes [simp]: "length (bytes16 u) = 2" "length (bytes32 v) = 4"
  by (simp_all add: bytes16_def bytes32_def)

section \<open>Fields at their offsets\<close>

lemma load16_at:
  assumes "take 2 (drop k xs) = bytes16 v" "length xs \<le> 2 ^ 64"
  shows "load16 (put_bytes m p xs) (p + of_nat k) = v"
proof -
  have "length (take 2 (drop k xs)) = 2" using assms(1) by simp
  then have k: "k \<le> length xs" by simp
  have "xs = take k xs @ bytes16 v @ drop (k + 2) xs" by (metis append_take_drop_id assms(1) drop_drop add.commute)
  then show ?thesis using load16_bytes [of "take k xs" v "drop (k + 2) xs" m p] assms(2) k by simp
qed

lemma load32_at:
  assumes "take 4 (drop k xs) = bytes32 v" "length xs \<le> 2 ^ 64"
  shows "load32 (put_bytes m p xs) (p + of_nat k) = v"
proof -
  have "length (take 4 (drop k xs)) = 4" using assms(1) by simp
  then have k: "k \<le> length xs" by simp
  have "xs = take k xs @ bytes32 v @ drop (k + 4) xs" by (metis append_take_drop_id assms(1) drop_drop add.commute)
  then show ?thesis using load32_bytes [of "take k xs" v "drop (k + 4) xs" m p] assms(2) k by simp
qed

lemma length_blocks: "length (concat (map bytes32 bs)) = 4 * length bs"
  by (induction bs) simp_all

lemma block_entry: "i < length bs \<Longrightarrow> take 4 (drop (4 * i) (concat (map bytes32 bs) @ ys)) = bytes32 (bs ! i)"
proof (induction bs arbitrary: i)
  case (Cons b bs)
  then show ?case by (cases i) simp_all
qed simp

lemma encode_length: "length (i_block ino) = 15 \<Longrightarrow> length (encode_inode ino) = 128"
  by (simp add: encode_inode_def length_blocks)

lemma inode_blocks:
  assumes "length (i_block ino) = 15"
  shows "map (\<lambda>i. load32 (put_bytes m p (encode_inode ino)) (p + 40 + 4 * of_nat i)) [0..<15] = i_block ino"
proof (rule nth_equalityI)
  fix i assume "i < length (map (\<lambda>i. load32 (put_bytes m p (encode_inode ino)) (p + 40 + 4 * of_nat i)) [0..<15])"
  then have i: "i < length (i_block ino)" using assms by simp
  obtain xs ys where split: "encode_inode ino = xs @ concat (map bytes32 (i_block ino)) @ ys" "length xs = 40"
  proof -
    let ?xs = "take 40 (encode_inode ino)" and ?ys = "drop 100 (encode_inode ino)"
    have "encode_inode ino = ?xs @ concat (map bytes32 (i_block ino)) @ ?ys" by (simp add: encode_inode_def length_blocks assms)
    then show thesis by (rule that) (simp add: encode_length [OF assms])
  qed
  have "take 4 (drop (40 + 4 * i) (encode_inode ino)) = bytes32 (i_block ino ! i)"
    using block_entry [OF i, of ys] by (simp add: split)
  from load32_at [OF this, of m p] show "map (\<lambda>i. load32 (put_bytes m p (encode_inode ino)) (p + 40 + 4 * of_nat i)) [0..<15] ! i = i_block ino ! i"
    using i assms by (simp add: encode_length add.assoc)
qed (simp add: assms)

text \<open>The other fields: their offsets in the packed structure.\<close>

lemma inode_fields:
  assumes "length (i_block ino) = 15" "M = put_bytes m p (encode_inode ino)"
  shows "load16 M (p + of_nat 0) = i_mode ino" "load16 M (p + of_nat 2) = i_uid ino" "load32 M (p + of_nat 4) = i_size ino"
    "load32 M (p + of_nat 8) = i_atime ino" "load32 M (p + of_nat 12) = i_ctime ino" "load32 M (p + of_nat 16) = i_mtime ino"
    "load32 M (p + of_nat 20) = i_dtime ino" "load16 M (p + of_nat 24) = i_gid ino" "load16 M (p + of_nat 26) = i_links_count ino"
    "load32 M (p + of_nat 28) = i_blocks ino" "load32 M (p + of_nat 32) = i_flags ino" "load32 M (p + of_nat 36) = i_osd1 ino"
    "load32 M (p + of_nat 100) = i_generation ino" "load32 M (p + of_nat 104) = i_file_acl ino" "load32 M (p + of_nat 108) = i_dir_acl ino"
    "load32 M (p + of_nat 112) = i_faddr ino" "load16 M (p + of_nat 118) = i_padding1 ino" "load16 M (p + of_nat 120) = i_user_high ino"
    "load16 M (p + of_nat 122) = i_group_high ino" "load32 M (p + of_nat 124) = i_padding2 ino"
    "M (p + of_nat 116) = i_frag_number ino" "M (p + of_nat 117) = i_frag_size ino"
proof -
  have n: "length (encode_inode ino) \<le> 2 ^ 64" by (simp add: encode_length [OF assms(1)])
  show "load16 M (p + of_nat 0) = i_mode ino" "load16 M (p + of_nat 2) = i_uid ino" "load32 M (p + of_nat 4) = i_size ino"
    "load32 M (p + of_nat 8) = i_atime ino" "load32 M (p + of_nat 12) = i_ctime ino" "load32 M (p + of_nat 16) = i_mtime ino"
    "load32 M (p + of_nat 20) = i_dtime ino" "load16 M (p + of_nat 24) = i_gid ino" "load16 M (p + of_nat 26) = i_links_count ino"
    "load32 M (p + of_nat 28) = i_blocks ino" "load32 M (p + of_nat 32) = i_flags ino" "load32 M (p + of_nat 36) = i_osd1 ino"
    "load32 M (p + of_nat 100) = i_generation ino" "load32 M (p + of_nat 104) = i_file_acl ino" "load32 M (p + of_nat 108) = i_dir_acl ino"
    "load32 M (p + of_nat 112) = i_faddr ino" "load16 M (p + of_nat 118) = i_padding1 ino" "load16 M (p + of_nat 120) = i_user_high ino"
    "load16 M (p + of_nat 122) = i_group_high ino" "load32 M (p + of_nat 124) = i_padding2 ino"
    unfolding assms(2) by ((rule load16_at load32_at, simp add: encode_inode_def length_blocks assms(1), rule n)+)
  have "encode_inode ino ! 116 = i_frag_number ino" "encode_inode ino ! 117 = i_frag_size ino"
    by (simp_all add: encode_inode_def nth_append length_blocks assms(1))
  then show "M (p + of_nat 116) = i_frag_number ino" "M (p + of_nat 117) = i_frag_size ino"
    using put_bytes_nth [OF n, of 116 m p] put_bytes_nth [OF n, of 117 m p] by (simp_all add: assms(2) encode_length [OF assms(1)])
qed



end
