(* ===== verification/Paths.thy ===== *)
theory Paths
  imports Vfs
begin

unbundle bit_operations_syntax

text \<open>
  \<open>basename\<close> and \<open>dirname\<close> of \<^verbatim>\<open>fs/vfs.c\<close> split a path at its last slash, in place.
\<close>

lemma basename_loop_rest:
  "cstr m p s \<Longrightarrow> 47 \<notin> set s \<Longrightarrow> basename_loop p ret m = Some ret \<and> dirname_loop p ret m = Some ret"
proof (induction s arbitrary: p)
  case Nil
  then show ?case by (subst basename_loop.simps, subst dirname_loop.simps) simp
next
  case (Cons x s)
  then show ?case by (subst basename_loop.simps, subst dirname_loop.simps) simp
qed

lemma basename_loop_last:
  "cstr m p (dir @ 47 # name) \<Longrightarrow> 47 \<notin> set name \<Longrightarrow>
   basename_loop p ret m = Some (p + of_nat (length dir) + 1) \<and> dirname_loop p ret m = Some (p + of_nat (length dir))"
proof (induction dir arbitrary: p ret)
  case Nil
  then show ?case using basename_loop_rest [of m "p + 1" name "p + 1"] basename_loop_rest [of m "p + 1" name p]
    by (subst basename_loop.simps, subst dirname_loop.simps) simp
next
  case (Cons x dir)
  then show ?case using Cons.IH [of "p + 1"] by (subst basename_loop.simps, subst dirname_loop.simps) (simp add: add.assoc)
qed



end
