(* ===== verification/Machine.thy ===== *)
theory Machine
  imports Boot_State
begin

unbundle bit_operations_syntax

text \<open>
  The processor's view of devices: port input and output (\<^verbatim>\<open>init/pio.c\<close>), device registers in memory and
  model-specific registers. The devices are not code: their reaction to an access is the argument \<open>hw\<close>, a
  record of functions on a device state of any type and on the byte memory, since a device may write to memory by itself. Reading a
  register may change the device as well.
\<close>

type_synonym 'h bus = "'h \<times> mem"

record 'h hardware =
  hw_in8 :: "u16 \<Rightarrow> 'h bus \<Rightarrow> u8 \<times> 'h bus"
  hw_out8 :: "u16 \<Rightarrow> u8 \<Rightarrow> 'h bus \<Rightarrow> 'h bus"
  hw_in32 :: "u16 \<Rightarrow> 'h bus \<Rightarrow> u32 \<times> 'h bus"
  hw_out32 :: "u16 \<Rightarrow> u32 \<Rightarrow> 'h bus \<Rightarrow> 'h bus"
  hw_read32 :: "addr \<Rightarrow> 'h bus \<Rightarrow> u32 \<times> 'h bus"
  hw_write32 :: "addr \<Rightarrow> u32 \<Rightarrow> 'h bus \<Rightarrow> 'h bus"
  hw_read64 :: "addr \<Rightarrow> 'h bus \<Rightarrow> u64 \<times> 'h bus"
  hw_write64 :: "addr \<Rightarrow> u64 \<Rightarrow> 'h bus \<Rightarrow> 'h bus"
  hw_rdmsr :: "u32 \<Rightarrow> 'h \<Rightarrow> u64"
  hw_wrmsr :: "u32 \<Rightarrow> u64 \<Rightarrow> 'h \<Rightarrow> 'h"

record 'h io_state = kernel_state +
  devices :: 'h

text \<open>An access that yields a value, and one that does not, as steps of the kernel's state.\<close>

definition on_bus :: "('h bus \<Rightarrow> 'r \<times> 'h bus) \<Rightarrow> ('h, 'a) io_state_scheme \<Rightarrow> 'r \<times> ('h, 'a) io_state_scheme" where
  "on_bus f s = (case f (devices s, ram s) of (r, h, m) \<Rightarrow> (r, s\<lparr>devices := h, ram := m\<rparr>))"

definition inb :: "'h hardware \<Rightarrow> u16 \<Rightarrow> ('h, 'a) io_state_scheme \<Rightarrow> u8 \<times> ('h, 'a) io_state_scheme" where
  "inb hw port = on_bus (hw_in8 hw port)"

definition outb :: "'h hardware \<Rightarrow> u16 \<Rightarrow> u8 \<Rightarrow> ('h, 'a) io_state_scheme \<Rightarrow> ('h, 'a) io_state_scheme" where
  "outb hw port v s = snd (on_bus (\<lambda>b. ((), hw_out8 hw port v b)) s)"

definition inl :: "'h hardware \<Rightarrow> u16 \<Rightarrow> ('h, 'a) io_state_scheme \<Rightarrow> u32 \<times> ('h, 'a) io_state_scheme" where
  "inl hw port = on_bus (hw_in32 hw port)"

definition outl :: "'h hardware \<Rightarrow> u16 \<Rightarrow> u32 \<Rightarrow> ('h, 'a) io_state_scheme \<Rightarrow> ('h, 'a) io_state_scheme" where
  "outl hw port v s = snd (on_bus (\<lambda>b. ((), hw_out32 hw port v b)) s)"

definition reg_read32 :: "'h hardware \<Rightarrow> addr \<Rightarrow> ('h, 'a) io_state_scheme \<Rightarrow> u32 \<times> ('h, 'a) io_state_scheme" where
  "reg_read32 hw a = on_bus (hw_read32 hw a)"

definition reg_write32 :: "'h hardware \<Rightarrow> addr \<Rightarrow> u32 \<Rightarrow> ('h, 'a) io_state_scheme \<Rightarrow> ('h, 'a) io_state_scheme" where
  "reg_write32 hw a v s = snd (on_bus (\<lambda>b. ((), hw_write32 hw a v b)) s)"

definition reg_read64 :: "'h hardware \<Rightarrow> addr \<Rightarrow> ('h, 'a) io_state_scheme \<Rightarrow> u64 \<times> ('h, 'a) io_state_scheme" where
  "reg_read64 hw a = on_bus (hw_read64 hw a)"

definition reg_write64 :: "'h hardware \<Rightarrow> addr \<Rightarrow> u64 \<Rightarrow> ('h, 'a) io_state_scheme \<Rightarrow> ('h, 'a) io_state_scheme" where
  "reg_write64 hw a v s = snd (on_bus (\<lambda>b. ((), hw_write64 hw a v b)) s)"

section \<open>The legacy interrupt controller (dev/pic.c)\<close>

abbreviation (input) PIC1_CMD :: u16 where "PIC1_CMD \<equiv> 0x20"
abbreviation (input) PIC1_DATA :: u16 where "PIC1_DATA \<equiv> 0x21"
abbreviation (input) PIC2_CMD :: u16 where "PIC2_CMD \<equiv> 0xA0"
abbreviation (input) PIC2_DATA :: u16 where "PIC2_DATA \<equiv> 0xA1"

definition pic_mask :: "'h hardware \<Rightarrow> u8 \<Rightarrow> u8 \<Rightarrow> ('h, 'a) io_state_scheme \<Rightarrow> ('h, 'a) io_state_scheme" where
  "pic_mask hw irq i s =
    (let i = (if i \<noteq> 0 then 1 else 0 :: u8);
         (port, irq) = (if irq < 8 then (PIC1_DATA, irq) else (PIC2_DATA, irq - 8));
         (v, s) = inb hw port s;
         v = v AND NOT (push_bit (unat irq) 1);
         v = v OR push_bit (unat irq) i
     in outb hw port v s)"

definition pic_eoi :: "'h hardware \<Rightarrow> u8 \<Rightarrow> ('h, 'a) io_state_scheme \<Rightarrow> ('h, 'a) io_state_scheme" where
  "pic_eoi hw irq s = outb hw PIC1_CMD 0x20 (if irq > 8 then outb hw PIC2_CMD 0x20 s else s)"

definition pic_init :: "'h hardware \<Rightarrow> ('h, 'a) io_state_scheme \<Rightarrow> ('h, 'a) io_state_scheme" where
  "pic_init hw s = outb hw PIC2_DATA 0xFF (outb hw PIC1_DATA 0xFF s)"

end
