(* ===== verification/Descriptors.thy ===== *)
theory Descriptors
  imports Machine
begin

unbundle bit_operations_syntax

text \<open>
  \<^verbatim>\<open>init/gdt.c\<close> and \<^verbatim>\<open>init/irq.c\<close>: the segment descriptors, the task state segments and the interrupt gates.
  The tables are bytes at the addresses the linker gives to \<open>__gdt\<close> and \<open>__idt\<close>; addresses of code are the argument \<open>lk\<close>.
  What the processor reads from a gate is \<open>gate_target\<close>, and from a task descriptor \<open>tss_base\<close>.
\<close>

record linkage =
  lk_gdt :: addr
  lk_idt :: addr
  lk_exception :: "nat \<Rightarrow> addr"
  lk_irq :: "nat \<Rightarrow> addr"
  lk_int80 :: addr

datatype irq_handler = Serial_trap | Trap_sched | Ahci_irq_handler

record 'h desc_state = "'h io_state" +
  gdt_index :: int
  tss_index :: int
  tss_table :: addr
  gdt_lock :: u32
  gdtr :: "u16 \<times> u64"
  idtr :: "u16 \<times> u64"
  irq_mapped :: "bool list"
  irq_handlers :: "irq_handler option list"

section \<open>Segments\<close>

abbreviation (input) GDT_SIZE :: int where "GDT_SIZE \<equiv> 64 * 192"
abbreviation (input) GDT_ACCESS_DATA_RING0 :: u8 where "GDT_ACCESS_DATA_RING0 \<equiv> 0x92"
abbreviation (input) GDT_ACCESS_CODE_RING0 :: u8 where "GDT_ACCESS_CODE_RING0 \<equiv> 0x9A"
abbreviation (input) GDT_ACCESS_DATA_RING3 :: u8 where "GDT_ACCESS_DATA_RING3 \<equiv> 0xF2"
abbreviation (input) GDT_ACCESS_CODE_RING3 :: u8 where "GDT_ACCESS_CODE_RING3 \<equiv> 0xFA"

definition gdt_desc :: "addr \<Rightarrow> u16 \<Rightarrow> u16 \<Rightarrow> u8 \<Rightarrow> u8 \<Rightarrow> u8 \<Rightarrow> u8 \<Rightarrow> mem \<Rightarrow> mem" where
  "gdt_desc p limit base base_2 access flags base_3 m =
    (store16 (p + 2) base (store16 p limit m))(p + 4 := base_2, p + 5 := access, p + 6 := flags, p + 7 := base_3)"

definition gdt_insert :: "linkage \<Rightarrow> u8 \<Rightarrow> u8 \<Rightarrow> u8 \<Rightarrow> ('h, 'a) desc_state_scheme \<Rightarrow> ('h, 'a) desc_state_scheme" where
  "gdt_insert lk offset access flags s =
    s\<lparr>ram := gdt_desc (lk_gdt lk + 8 * ucast offset) 0 0 0 access flags 0 (ram s), gdt_index := gdt_index s + 1\<rparr>"

text \<open>
  \<open>gdt_insert_tss\<close>; \<open>sizeof(struct tss)\<close> is 104 and \<open>rsp0\<close> is at offset 4. There are 128 task state segments and the linker reserves
  \<open>GDT_SIZE\<close> bytes for descriptors. The selector is computed from \<open>gdt_index\<close> after the lock is released.
\<close>

definition tss_addr :: "('h, 'a) desc_state_scheme \<Rightarrow> addr" where
  "tss_addr s = tss_table s + 104 * of_int (tss_index s)"

definition insert_tss_locked :: "linkage \<Rightarrow> u64 \<Rightarrow> ('h, 'a) desc_state_scheme \<Rightarrow> ('h, 'a) desc_state_scheme option" where
  "insert_tss_locked lk rsp0 s = do {
     assert_opt (tss_table s \<noteq> NULL \<and> 0 \<le> tss_index s \<and> tss_index s < 128);
     assert_opt (0 \<le> gdt_index s \<and> 8 * gdt_index s + 16 \<le> GDT_SIZE);
     let a = tss_addr s;
     let m = Kstring.store64 (a + 4) rsp0 (ram s);
     let d = lk_gdt lk + 8 * of_int (gdt_index s);
     let m = gdt_desc d 103 (ucast (a AND 0xFFFFFF)) (ucast (drop_bit 16 a AND 0xFF)) 0xE9 0x00 (ucast (drop_bit 24 a AND 0xFF)) m;
     let m = store32 (d + 8) (ucast (drop_bit 32 a AND 0xFFFFFFFF)) m;
     Some (s\<lparr>ram := m, tss_index := tss_index s + 1, gdt_index := gdt_index s + 2\<rparr>)
   }"

definition tss_selector :: "('h, 'a) desc_state_scheme \<Rightarrow> u16" where
  "tss_selector s = of_int ((gdt_index s - 2) * 8)"

definition gdt_insert_tss :: "linkage \<Rightarrow> u64 \<Rightarrow> ('h, 'a) desc_state_scheme \<Rightarrow> (u16 \<times> ('h, 'a) desc_state_scheme) option" where
  "gdt_insert_tss lk rsp0 s = do {
     l \<leftarrow> spinlock_acquire (gdt_lock s);
     s \<leftarrow> insert_tss_locked lk rsp0 (s\<lparr>gdt_lock := l\<rparr>);
     let s = s\<lparr>gdt_lock := spinlock_release (gdt_lock s)\<rparr>;
     Some (tss_selector s, s)
   }"

definition gdt_init :: "linkage \<Rightarrow> ('h, 'a) desc_state_scheme \<Rightarrow> ('h, 'a) desc_state_scheme option" where
  "gdt_init lk s = do {
     (t, s) \<leftarrow> kzalloc kmap (104 * 128) ALLOC_KERN s;
     let s = s\<lparr>tss_table := t\<rparr>;
     let s = gdt_insert lk 0 0 0 s;
     let s = gdt_insert lk 1 GDT_ACCESS_CODE_RING0 0xA0 s;
     let s = gdt_insert lk 2 GDT_ACCESS_DATA_RING0 0xC0 s;
     let s = gdt_insert lk 3 GDT_ACCESS_CODE_RING0 0xA0 s;
     let s = gdt_insert lk 4 GDT_ACCESS_DATA_RING0 0xC0 s;
     let s = gdt_insert lk 5 GDT_ACCESS_CODE_RING0 0xA0 s;
     let s = gdt_insert lk 6 GDT_ACCESS_DATA_RING0 0xC0 s;
     let s = gdt_insert lk 7 GDT_ACCESS_DATA_RING3 0xC0 s;
     let s = gdt_insert lk 8 GDT_ACCESS_CODE_RING3 0xA0 s;
     Some (s\<lparr>gdtr := (192 * 8 - 1, lk_gdt lk)\<rparr>)
   }"

section \<open>Interrupt gates\<close>

abbreviation (input) GATE_INTR :: u8 where "GATE_INTR \<equiv> 0x8E"
abbreviation (input) GATE_TRAP :: u8 where "GATE_TRAP \<equiv> 0x8F"
abbreviation (input) GATE_INTR_DPL3 :: u8 where "GATE_INTR_DPL3 \<equiv> 0xEE"
abbreviation (input) KERNEL_CODE :: u16 where "KERNEL_CODE \<equiv> 0x28"

definition gate_at :: "addr \<Rightarrow> u16 \<Rightarrow> addr" where
  "gate_at idt gate = idt + 16 * ucast gate"

definition idt_insert :: "addr \<Rightarrow> u16 \<Rightarrow> u8 \<Rightarrow> u8 \<Rightarrow> u16 \<Rightarrow> addr \<Rightarrow> mem \<Rightarrow> mem option" where
  "idt_insert idt gate type ist segment f m = do {
     assert_opt (gate < 256);
     let p = gate_at idt gate;
     let m = store16 p (ucast (f AND 0xFFFF)) m;
     let m = store16 (p + 6) (ucast (drop_bit 0x10 f AND 0xFFFF)) m;
     let m = store32 (p + 8) (ucast (drop_bit 0x20 f AND 0xFFFFFFFF)) m;
     let m = store16 (p + 2) segment m;
     Some (m(p + 4 := ist, p + 5 := type))
   }"

definition irq_map :: "u8 \<Rightarrow> irq_handler \<Rightarrow> ('h, 'a) desc_state_scheme \<Rightarrow> (int \<times> ('h, 'a) desc_state_scheme) option" where
  "irq_map irq f s =
    (let n = unat irq in
     if length (irq_mapped s) \<le> n \<or> length (irq_handlers s) \<le> n then None
     else if irq_mapped s ! n then Some (1, s)
     else Some (0, s\<lparr>irq_mapped := (irq_mapped s)[n := True], irq_handlers := (irq_handlers s)[n := Some f]\<rparr>))"

definition irq_unmap :: "linkage \<Rightarrow> u8 \<Rightarrow> ('h, 'a) desc_state_scheme \<Rightarrow> ('h, 'a) desc_state_scheme option" where
  "irq_unmap lk irq s = do {
     let n = unat irq;
     assert_opt (n < length (irq_mapped s) \<and> n < length (irq_handlers s));
     let s = s\<lparr>irq_mapped := (irq_mapped s)[n := False], irq_handlers := (irq_handlers s)[n := None]\<rparr>;
     m \<leftarrow> idt_insert (lk_idt lk) (ucast irq + 0x20) GATE_INTR 0 KERNEL_CODE NULL (ram s);
     Some (s\<lparr>ram := m\<rparr>)
   }"

primrec highest_free :: "nat \<Rightarrow> bool list \<Rightarrow> int" where
  "highest_free 0 b = - 1"
| "highest_free (Suc i) b = (if \<not> b ! i then int i else highest_free i b)"

definition irq_highest_free :: "('h, 'a) desc_state_scheme \<Rightarrow> int" where
  "irq_highest_free s = highest_free 15 (irq_mapped s)"

definition irq :: "(irq_handler \<Rightarrow> ('h, 'a) desc_state_scheme \<Rightarrow> 'r option) \<Rightarrow> (('h, 'a) desc_state_scheme \<Rightarrow> 'r option) \<Rightarrow>
    nat \<Rightarrow> ('h, 'a) desc_state_scheme \<Rightarrow> 'r option" where
  "irq call ret n s =
    (if length (irq_handlers s) \<le> n then None
     else case irq_handlers s ! n of Some h \<Rightarrow> call h s | None \<Rightarrow> ret s)"

definition idt_gates :: "linkage \<Rightarrow> (u16 \<times> u8 \<times> addr) list" where
  "idt_gates lk = map (\<lambda>i. (of_nat i, GATE_TRAP, lk_exception lk i)) [0..<32]
     @ map (\<lambda>i. (0x20 + of_nat i, GATE_INTR, lk_irq lk i)) [0..<16]
     @ [(0x80, GATE_INTR_DPL3, lk_int80 lk)]"

primrec insert_gates :: "addr \<Rightarrow> (u16 \<times> u8 \<times> addr) list \<Rightarrow> mem \<Rightarrow> mem option" where
  "insert_gates idt [] m = Some m"
| "insert_gates idt (g # gs) m = do {
     m \<leftarrow> (case g of (v, type, f) \<Rightarrow> idt_insert idt v type 0 KERNEL_CODE f m);
     insert_gates idt gs m
   }"

definition idt_init :: "linkage \<Rightarrow> ('h, 'a) desc_state_scheme \<Rightarrow> ('h, 'a) desc_state_scheme option" where
  "idt_init lk s = do {
     m \<leftarrow> insert_gates (lk_idt lk) (idt_gates lk) (ram s);
     (r, s) \<leftarrow> irq_map 4 Serial_trap (s\<lparr>ram := m\<rparr>);
     Some (s\<lparr>idtr := (16 * 256 - 1, lk_idt lk)\<rparr>)
   }"

section \<open>What the processor reads\<close>

text \<open>Target address, segment and type of a gate, and base address of a task descriptor.\<close>

definition gate_entry :: "mem \<Rightarrow> addr \<Rightarrow> u16 \<Rightarrow> addr \<times> u16 \<times> u8" where
  "gate_entry m idt v = (let p = gate_at idt v in
     (ucast (load16 m p) OR push_bit 16 (ucast (load16 m (p + 6))) OR push_bit 32 (ucast (load32 m (p + 8))),
      load16 m (p + 2), m (p + 5)))"

definition tss_base :: "mem \<Rightarrow> addr \<Rightarrow> addr" where
  "tss_base m d = ucast (load16 m (d + 2)) OR push_bit 16 (ucast (m (d + 4))) OR push_bit 24 (ucast (m (d + 7)))
     OR push_bit 32 (ucast (load32 m (d + 8)))"

lemmas byte_access = load16_def load32_def store16_def store32_def

lemma gate_at_disjoint:
  assumes "v < 256" "v' < 256" "i < 16" "j < 16"
  shows "gate_at idt v + i = gate_at idt v' + j \<longleftrightarrow> v = v' \<and> i = j"
proof
  assume eq: "gate_at idt v + i = gate_at idt v' + j"
  have u: "unat (16 * ucast w + k :: u64) = 16 * unat w + unat k" if "w < 256" "k < 16" for w :: u16 and k :: u64
  proof -
    have b: "unat w < 256" "unat k < 16" using that by (simp_all add: word_less_nat_alt)
    have "unat (16 * ucast w :: u64) = 16 * unat w"
      using b by (subst unat_mult_lem [THEN iffD1]) (simp_all add: unsigned_ucast_eq take_bit_nat_eq_self)
    then show ?thesis using b by (subst unat_plus_if_size) (simp add: word_size)
  qed
  have "unat (16 * ucast v + i :: u64) = unat (16 * ucast v' + j :: u64)"
    using eq by (simp add: gate_at_def add.assoc)
  then have "16 * unat v + unat i = 16 * unat v' + unat j" using u assms by metis
  moreover have "unat i < 16" "unat j < 16" using assms(3,4) by (simp_all add: word_less_nat_alt)
  ultimately have "unat v = unat v'" "unat i = unat j" by presburger+
  then show "v = v' \<and> i = j" by (simp add: word_unat_eq_iff)
qed simp

lemma split64_16_16_32:
  "(ucast (ucast (f AND 0xFFFF) :: u16) OR push_bit 16 (ucast (ucast (drop_bit 16 f AND 0xFFFF) :: u16))
    OR push_bit 32 (ucast (ucast (drop_bit 32 f AND 0xFFFFFFFF) :: u32)) :: u64) = f"
proof (rule bit_eqI)
  fix i assume "possible_bit TYPE(u64) i"
  then have i: "i < 64" by simp
  have m: "(0xFFFF :: u64) = mask 16" "(0xFFFFFFFF :: u64) = mask 32" by (simp_all add: mask_eq_exp_minus_1)
  show "bit (ucast (ucast (f AND 0xFFFF) :: u16) OR push_bit 16 (ucast (ucast (drop_bit 16 f AND 0xFFFF) :: u16))
    OR push_bit 32 (ucast (ucast (drop_bit 32 f AND 0xFFFFFFFF) :: u32)) :: u64) i = bit f i"
    unfolding m using i by (cases "i < 16"; cases "i < 32") (auto simp: bit_simps)
qed

lemma idt_insert_entry:
  assumes "v < 256"
  shows "\<exists>m'. idt_insert idt v type ist seg f m = Some m' \<and> gate_entry m' idt v = (f, seg, type)
    \<and> (\<forall>w < 256. w \<noteq> v \<longrightarrow> gate_entry m' idt w = gate_entry m idt w)"
proof -
  let ?p = "gate_at idt v"
  let ?lo = "ucast (f AND 0xFFFF) :: u16" and ?mid = "ucast (drop_bit 16 f AND 0xFFFF) :: u16"
    and ?hi = "ucast (drop_bit 32 f AND 0xFFFFFFFF) :: u32"
  define m' where "m' = (store16 (?p + 2) seg (store32 (?p + 8) ?hi (store16 (?p + 6) ?mid (store16 ?p ?lo m))))(?p + 4 := ist, ?p + 5 := type)"
  have m': "idt_insert idt v type ist seg f m = Some m'" using assms by (simp add: idt_insert_def m'_def Let_def)
  have "load16 m' ?p = load16 (store16 ?p ?lo m) ?p" "load16 m' (?p + 6) = load16 (store16 (?p + 6) ?mid m) (?p + 6)"
    "load32 m' (?p + 8) = load32 (store32 (?p + 8) ?hi m) (?p + 8)" "load16 m' (?p + 2) = load16 (store16 (?p + 2) seg m) (?p + 2)"
    "m' (?p + 5) = type"
    by (simp_all add: m'_def byte_access add.assoc)
  then have "gate_entry m' idt v = (f, seg, type)"
    by (simp add: gate_entry_def Let_def load16_store16 load32_store32 split64_16_16_32)
  moreover have "gate_entry m' idt w = gate_entry m idt w" if w: "w < 256" "w \<noteq> v" for w
  proof -
    have "m' (gate_at idt w + k) = m (gate_at idt w + k)" if "k < 16" for k
    proof -
      have d: "gate_at idt w + k \<noteq> ?p + j" if "j < 16" for j
        using gate_at_disjoint [OF w(1) assms \<open>k < 16\<close> that] w(2) by blast
      show ?thesis
        using d [of 0] d [of 1] d [of 2] d [of 3] d [of 4] d [of 5] d [of 6] d [of 7] d [of 8] d [of 9] d [of 10] d [of 11]
        by (simp add: m'_def byte_access add.assoc)
    qed
    from this [of 0] this [of 1] this [of 2] this [of 3] this [of 5] this [of 6] this [of 7] this [of 8] this [of 9] this [of 10] this [of 11]
    show ?thesis by (simp add: gate_entry_def Let_def load16_def load32_def add.assoc)
  qed
  ultimately show ?thesis using m' by blast
qed

lemma insert_gates_entries:
  "distinct (map fst gs) \<Longrightarrow> \<forall>g \<in> set gs. fst g < 256 \<Longrightarrow>
   \<exists>m'. insert_gates idt gs m = Some m' \<and> (\<forall>(v, type, f) \<in> set gs. gate_entry m' idt v = (f, KERNEL_CODE, type))
     \<and> (\<forall>w < 256. w \<notin> fst ` set gs \<longrightarrow> gate_entry m' idt w = gate_entry m idt w)"
proof (induction gs arbitrary: m)
  case Nil
  then show ?case by simp
next
  case (Cons g gs)
  obtain v type f where g: "g = (v, type, f)" by (cases g)
  have v: "v < 256" "v \<notin> fst ` set gs" using Cons.prems g by auto
  obtain m1 where m1: "idt_insert idt v type 0 KERNEL_CODE f m = Some m1" "gate_entry m1 idt v = (f, KERNEL_CODE, type)"
    "\<forall>w < 256. w \<noteq> v \<longrightarrow> gate_entry m1 idt w = gate_entry m idt w"
    using idt_insert_entry [OF v(1), of idt type 0 KERNEL_CODE f m] by blast
  obtain m2 where m2: "insert_gates idt gs m1 = Some m2" "\<forall>(v, type, f) \<in> set gs. gate_entry m2 idt v = (f, KERNEL_CODE, type)"
    "\<forall>w < 256. w \<notin> fst ` set gs \<longrightarrow> gate_entry m2 idt w = gate_entry m1 idt w"
    using Cons.IH [of m1] Cons.prems by auto
  have "gate_entry m2 idt v = (f, KERNEL_CODE, type)" using m2(3) v m1(2) by simp
  then show ?case using g m1(1,3) m2 by auto
qed

lemma idt_gates_distinct: "distinct (map fst (idt_gates lk))"
  by (simp add: idt_gates_def upt_rec)

lemma idt_gates_bound: "\<forall>g \<in> set (idt_gates lk). fst g < 256"
  by (simp add: idt_gates_def upt_rec)

text \<open>
  C21. \<open>idt_init\<close> fills the interrupt descriptor table: the processor, reading the gate of any of the 32 exceptions, of any of the 16
  interrupt lines or of the system call vector 0x80, finds the address of that vector's entry code, the kernel code
  segment and the gate type of the source; the serial line is the handler of line 4 and the table register covers all 256 gates.
\<close>

theorem idt_init_vectors:
  assumes "length (irq_mapped s) = 16" "length (irq_handlers s) = 16" "\<not> irq_mapped s ! 4"
  shows "\<exists>s'. idt_init lk s = Some s'
    \<and> (\<forall>i. i < 32 \<longrightarrow> gate_entry (ram s') (lk_idt lk) (of_nat i) = (lk_exception lk i, KERNEL_CODE, GATE_TRAP))
    \<and> (\<forall>i. i < 16 \<longrightarrow> gate_entry (ram s') (lk_idt lk) (0x20 + of_nat i) = (lk_irq lk i, KERNEL_CODE, GATE_INTR))
    \<and> gate_entry (ram s') (lk_idt lk) 0x80 = (lk_int80 lk, KERNEL_CODE, GATE_INTR_DPL3)
    \<and> irq_handlers s' ! 4 = Some Serial_trap \<and> idtr s' = (4095, lk_idt lk)"
proof -
  obtain m where m: "insert_gates (lk_idt lk) (idt_gates lk) (ram s) = Some m"
    "\<forall>(v, type, f) \<in> set (idt_gates lk). gate_entry m (lk_idt lk) v = (f, KERNEL_CODE, type)"
    using insert_gates_entries [OF idt_gates_distinct idt_gates_bound, of "lk_idt lk" lk "ram s"] by blast
  then have e: "gate_entry m (lk_idt lk) v = (f, KERNEL_CODE, type)" if "(v, type, f) \<in> set (idt_gates lk)" for v type f
    using that by auto
  have "gate_entry m (lk_idt lk) (of_nat i) = (lk_exception lk i, KERNEL_CODE, GATE_TRAP)" if "i < 32" for i
    by (rule e) (use that in \<open>simp add: idt_gates_def image_iff Bex_def, blast\<close>)
  moreover have "gate_entry m (lk_idt lk) (0x20 + of_nat i) = (lk_irq lk i, KERNEL_CODE, GATE_INTR)" if "i < 16" for i
    by (rule e) (use that in \<open>simp add: idt_gates_def image_iff Bex_def, blast\<close>)
  moreover have "gate_entry m (lk_idt lk) 0x80 = (lk_int80 lk, KERNEL_CODE, GATE_INTR_DPL3)"
    by (rule e) (simp add: idt_gates_def)
  ultimately show ?thesis using assms m(1) by (simp add: idt_init_def irq_map_def Let_def)
qed

definition boot_desc :: "'h \<Rightarrow> 'h desc_state" where
  "boot_desc h = io_state.extend (kernel_state.extend boot_state (io_state.fields h))
     (desc_state.fields 0 0 0 0 (0, 0) (0, 0) (replicate 16 False) (replicate 16 None))"

lemma boot_desc_simps [simp]:
  "irq_mapped (boot_desc h) = replicate 16 False" "irq_handlers (boot_desc h) = replicate 16 None"
  "gdt_lock (boot_desc h) = 0" "tss_index (boot_desc h) = 0" "gdt_index (boot_desc h) = 0"
  by (simp_all add: boot_desc_def io_state.defs kernel_state.defs desc_state.defs)

definition sample_linkage :: linkage where
  "sample_linkage = \<lparr>lk_gdt = 0x200000, lk_idt = 0x204000, lk_exception = (\<lambda>i. 0x100000 + of_nat i), lk_irq = (\<lambda>i. 0x101000 + of_nat i),
     lk_int80 = 0x102000\<rparr>"

theorem idt_init_vectors_witness:
  "\<exists>s'. idt_init sample_linkage (boot_desc ()) = Some s'
    \<and> (\<forall>i. i < 32 \<longrightarrow> gate_entry (ram s') (lk_idt sample_linkage) (of_nat i) = (lk_exception sample_linkage i, KERNEL_CODE, GATE_TRAP))
    \<and> (\<forall>i. i < 16 \<longrightarrow> gate_entry (ram s') (lk_idt sample_linkage) (0x20 + of_nat i) = (lk_irq sample_linkage i, KERNEL_CODE, GATE_INTR))
    \<and> gate_entry (ram s') (lk_idt sample_linkage) 0x80 = (lk_int80 sample_linkage, KERNEL_CODE, GATE_INTR_DPL3)
    \<and> irq_handlers s' ! 4 = Some Serial_trap \<and> idtr s' = (4095, lk_idt sample_linkage)"
  by (rule idt_init_vectors) simp_all

lemma split64_tss:
  "(ucast (ucast (a AND 0xFFFFFF) :: u16) OR push_bit 16 (ucast (ucast (drop_bit 16 a AND 0xFF) :: u8))
    OR push_bit 24 (ucast (ucast (drop_bit 24 a AND 0xFF) :: u8))
    OR push_bit 32 (ucast (ucast (drop_bit 32 a AND 0xFFFFFFFF) :: u32)) :: u64) = a" (is "?l = a")
proof (rule bit_eqI)
  fix i assume "possible_bit TYPE(u64) i"
  then have i: "i < 64" by simp
  have m: "(0xFFFFFF :: u64) = mask 24" "(0xFF :: u64) = mask 8" "(0xFFFFFFFF :: u64) = mask 32"
    by (simp_all add: mask_eq_exp_minus_1)
  show "bit ?l i = bit a i"
    unfolding m using i by (cases "i < 16"; cases "i < 24"; cases "i < 32") (auto simp: bit_simps)
qed


definition sample_desc :: "unit desc_state" where
  "sample_desc = (boot_desc ())\<lparr>tss_table := 0x300000, gdt_index := 9\<rparr>"


text \<open>
  The selector is read after the lock is released. If another processor's insertion comes in between, the first processor loads the
  selector of the other's task state segment.
\<close>

lemma tss_selector_race:
  assumes "insert_tss_locked lk rsp1 s = Some s1" "insert_tss_locked lk rsp2 s1 = Some s2"
  shows "tss_selector s2 = tss_selector s1 + 16"
  using assms by (auto simp: insert_tss_locked_def tss_selector_def Let_def assert_opt_def split: bind_splits if_splits)

end
