(* ===== verification/Pci.thy ===== *)
theory Pci
  imports Descriptors
begin

unbundle bit_operations_syntax

text \<open>
  \<^verbatim>\<open>dev/pci.c\<close>: the configuration space of the PCI buses and the table of the functions found on them. A pointer into the
  table is its index. The specification is \<open>present_functions\<close>, the functions that answer in a configuration space
  \<open>cfg\<close>, and \<open>describe\<close>, the entry of a function; \<open>config_ok\<close> says that the ports give access to \<open>cfg\<close>.
\<close>

abbreviation (input) PCIPM_CONFIG_ADDRESS :: u16 where "PCIPM_CONFIG_ADDRESS \<equiv> 0xCF8"
abbreviation (input) PCIPM_CONFIG_DATA :: u16 where "PCIPM_CONFIG_DATA \<equiv> 0xCFC"

record pci_device =
  pd_bus :: u8
  pd_slot :: u8
  pd_func :: u8
  pd_class :: u8
  pd_subclass :: u8
  pd_vendor_id :: u16
  pd_device_id :: u16
  pd_segment_group :: u16
  pd_header_type :: u8
  pd_bar0 :: u32
  pd_bar1 :: u32
  pd_bar2 :: u32
  pd_bar3 :: u32
  pd_bar4 :: u32
  pd_bar5 :: u32

definition zero_pci_device :: pci_device where
  "zero_pci_device = \<lparr>pd_bus = 0, pd_slot = 0, pd_func = 0, pd_class = 0, pd_subclass = 0, pd_vendor_id = 0, pd_device_id = 0,
     pd_segment_group = 0, pd_header_type = 0, pd_bar0 = 0, pd_bar1 = 0, pd_bar2 = 0, pd_bar3 = 0, pd_bar4 = 0, pd_bar5 = 0\<rparr>"

record 'h pci_state = "'h desc_state" +
  pci_devices :: addr
  pci_devs :: "nat \<Rightarrow> pci_device"
  pci_device_count :: u8

definition pci_address :: "u8 \<Rightarrow> u8 \<Rightarrow> u8 \<Rightarrow> u8 \<Rightarrow> u32" where
  "pci_address bus slt func offset =
    push_bit 16 (ucast bus) OR push_bit 11 (ucast slt) OR push_bit 8 (ucast func) OR ucast (offset AND 0xFC) OR 0x80000000"

definition pci_config_read_long :: "'h hardware \<Rightarrow> u8 \<Rightarrow> u8 \<Rightarrow> u8 \<Rightarrow> u8 \<Rightarrow> ('h, 'a) io_state_scheme \<Rightarrow> u32 \<times> ('h, 'a) io_state_scheme" where
  "pci_config_read_long hw bus slt func offset s =
    inl hw PCIPM_CONFIG_DATA (outl hw PCIPM_CONFIG_ADDRESS (pci_address bus slt func offset) s)"

definition pci_config_write_long :: "'h hardware \<Rightarrow> u8 \<Rightarrow> u8 \<Rightarrow> u8 \<Rightarrow> u8 \<Rightarrow> u16 \<Rightarrow> ('h, 'a) io_state_scheme \<Rightarrow> ('h, 'a) io_state_scheme" where
  "pci_config_write_long hw bus slt func offset data s =
    outl hw PCIPM_CONFIG_DATA (ucast data) (outl hw PCIPM_CONFIG_ADDRESS (pci_address bus slt func offset) s)"

definition upd_pci :: "nat \<Rightarrow> (pci_device \<Rightarrow> pci_device) \<Rightarrow> ('h, 'a) pci_state_scheme \<Rightarrow> ('h, 'a) pci_state_scheme" where
  "upd_pci i f s = s\<lparr>pci_devs := (pci_devs s)(i := f (pci_devs s i))\<rparr>"

text \<open>The assignments \<open>dev->barN = pci_config_read_long(bus, slot, func, offset)\<close>, in order.\<close>

primrec load_bars :: "'h hardware \<Rightarrow> u8 \<Rightarrow> u8 \<Rightarrow> u8 \<Rightarrow> nat \<Rightarrow> (u8 \<times> (u32 \<Rightarrow> pci_device \<Rightarrow> pci_device)) list \<Rightarrow>
    ('h, 'a) pci_state_scheme \<Rightarrow> ('h, 'a) pci_state_scheme" where
  "load_bars hw bus slt func dev [] s = s"
| "load_bars hw bus slt func dev (a # as) s =
     (case pci_config_read_long hw bus slt func (fst a) s of (b, s) \<Rightarrow> load_bars hw bus slt func dev as (upd_pci dev (snd a b) s))"

definition pci_scan_function :: "'h hardware \<Rightarrow> u8 \<Rightarrow> u8 \<Rightarrow> u8 \<Rightarrow> ('h, 'a) pci_state_scheme \<Rightarrow> (nat option \<times> ('h, 'a) pci_state_scheme) option" where
  "pci_scan_function hw bus slt func s = do {
     let (vendor_device, s) = pci_config_read_long hw bus slt func 0x0 s;
     let vendor_id = (ucast vendor_device :: u16);
     let device_id = (ucast (drop_bit 16 vendor_device) :: u16);
     let (class_subclass, s) = pci_config_read_long hw bus slt func 0x8 s;
     let cls = (ucast (drop_bit 24 class_subclass) :: u8);
     let subclass = (ucast (drop_bit 16 class_subclass) :: u8);
     if vendor_id = 0xFFFF \<or> cls = 0xFF then Some (None, s)
     else do {
       assert_opt (pci_devices s \<noteq> NULL);
       let dev = unat (pci_device_count s);
       let s = upd_pci dev (\<lambda>d. d\<lparr>pd_bus := bus, pd_slot := slt, pd_func := func, pd_vendor_id := vendor_id, pd_device_id := device_id,
         pd_class := cls, pd_subclass := subclass\<rparr>) s;
       let s = load_bars hw bus slt func dev [(0x10, \<lambda>b. pd_bar0_update (\<lambda>_. b)), (0x14, \<lambda>b. pd_bar1_update (\<lambda>_. b))] s;
       let (h, s) = pci_config_read_long hw bus slt 0 0xC s;
       let header_type = (ucast (drop_bit 16 h) :: u8);
       let s = upd_pci dev (pd_header_type_update (\<lambda>_. header_type)) s;
       let s = (if header_type AND 0x0F = 0 then
           load_bars hw bus slt func dev [(0x18, \<lambda>b. pd_bar2_update (\<lambda>_. b)), (0x1C, \<lambda>b. pd_bar3_update (\<lambda>_. b)),
             (0x20, \<lambda>b. pd_bar4_update (\<lambda>_. b)), (0x24, \<lambda>b. pd_bar5_update (\<lambda>_. b))] s
         else s);
       Some (Some dev, s\<lparr>pci_device_count := pci_device_count s + 1\<rparr>)
     }
   }"

primrec scan_functions :: "'h hardware \<Rightarrow> u8 \<Rightarrow> u8 \<Rightarrow> u8 list \<Rightarrow> ('h, 'a) pci_state_scheme \<Rightarrow> ('h, 'a) pci_state_scheme option" where
  "scan_functions hw bus slt [] s = Some s"
| "scan_functions hw bus slt (func # fs) s = do {
     let (v, s) = pci_config_read_long hw bus slt func 0 s;
     s \<leftarrow> (if v \<noteq> 0xFFFFFFFF then do { (d, s) \<leftarrow> pci_scan_function hw bus slt func s; Some s } else Some s);
     scan_functions hw bus slt fs s
   }"

primrec scan_slots :: "'h hardware \<Rightarrow> u8 \<Rightarrow> u8 list \<Rightarrow> ('h, 'a) pci_state_scheme \<Rightarrow> ('h, 'a) pci_state_scheme option" where
  "scan_slots hw bus [] s = Some s"
| "scan_slots hw bus (slt # slts) s = do {
     (dev, s) \<leftarrow> pci_scan_function hw bus slt 0 s;
     s \<leftarrow> (case dev of
            Some d \<Rightarrow> if pd_header_type (pci_devs s d) AND 0x80 \<noteq> 0 then scan_functions hw bus slt [1, 2, 3, 4, 5, 6, 7] s else Some s
          | None \<Rightarrow> Some s);
     scan_slots hw bus slts s
   }"

definition pci_scan_bus :: "'h hardware \<Rightarrow> u8 \<Rightarrow> ('h, 'a) pci_state_scheme \<Rightarrow> ('h, 'a) pci_state_scheme option" where
  "pci_scan_bus hw bus s = scan_slots hw bus (map of_nat [0..<32]) s"

primrec scan_buses :: "'h hardware \<Rightarrow> nat list \<Rightarrow> ('h, 'a) pci_state_scheme \<Rightarrow> ('h, 'a) pci_state_scheme option" where
  "scan_buses hw [] s = Some s"
| "scan_buses hw (b # bs) s = do {
     s \<leftarrow> pci_scan_bus hw (of_nat b) s;
     scan_buses hw bs s
   }"

definition pci_find_device :: "u8 \<Rightarrow> u8 \<Rightarrow> ('h, 'a) pci_state_scheme \<Rightarrow> nat option" where
  "pci_find_device cls subclass s =
    find (\<lambda>i. pd_class (pci_devs s i) = cls \<and> pd_subclass (pci_devs s i) = subclass) [0..<unat (pci_device_count s)]"

text \<open>\<open>sizeof(struct pci_device)\<close> is 40.\<close>

definition pci_init :: "'h hardware \<Rightarrow> ('h, 'a) pci_state_scheme \<Rightarrow> ('h, 'a) pci_state_scheme option" where
  "pci_init hw s = do {
     (p, s) \<leftarrow> kzalloc kmap (40 * 256) ALLOC_KERN s;
     let s = s\<lparr>pci_devices := p, pci_devs := (\<lambda>_. zero_pci_device), pci_device_count := 0\<rparr>;
     scan_buses hw [0..<256] s
   }"

section \<open>The functions of a configuration space\<close>

type_synonym config = "u32 \<Rightarrow> u32"

definition answers :: "config \<Rightarrow> u8 \<Rightarrow> u8 \<Rightarrow> u8 \<Rightarrow> bool" where
  "answers cfg b sl f \<longleftrightarrow> (ucast (cfg (pci_address b sl f 0)) :: u16) \<noteq> 0xFFFF \<and> (ucast (drop_bit 24 (cfg (pci_address b sl f 8))) :: u8) \<noteq> 0xFF"

definition header_type_of :: "config \<Rightarrow> u8 \<Rightarrow> u8 \<Rightarrow> u8" where
  "header_type_of cfg b sl = ucast (drop_bit 16 (cfg (pci_address b sl 0 0xC)))"

definition slot_functions :: "config \<Rightarrow> u8 \<Rightarrow> u8 \<Rightarrow> (u8 \<times> u8 \<times> u8) list" where
  "slot_functions cfg b sl = (if answers cfg b sl 0
     then map (\<lambda>f. (b, sl, f)) (0 # (if header_type_of cfg b sl AND 0x80 \<noteq> 0 then filter (answers cfg b sl) [1, 2, 3, 4, 5, 6, 7] else []))
     else [])"

definition bus_functions :: "config \<Rightarrow> u8 \<Rightarrow> (u8 \<times> u8 \<times> u8) list" where
  "bus_functions cfg b = concat (map (slot_functions cfg b) (map of_nat [0..<32]))"

definition present_functions :: "config \<Rightarrow> (u8 \<times> u8 \<times> u8) list" where
  "present_functions cfg = concat (map (\<lambda>b. bus_functions cfg (of_nat b)) [0..<256])"

fun describe :: "config \<Rightarrow> u8 \<times> u8 \<times> u8 \<Rightarrow> pci_device" where
  "describe cfg (b, sl, f) = (let r = (\<lambda>off. cfg (pci_address b sl f off)); h = header_type_of cfg b sl; n = (h AND 0x0F = 0) in
     \<lparr>pd_bus = b, pd_slot = sl, pd_func = f, pd_class = ucast (drop_bit 24 (r 8)), pd_subclass = ucast (drop_bit 16 (r 8)),
      pd_vendor_id = ucast (r 0), pd_device_id = ucast (drop_bit 16 (r 0)), pd_segment_group = 0, pd_header_type = h,
      pd_bar0 = r 0x10, pd_bar1 = r 0x14, pd_bar2 = (if n then r 0x18 else 0), pd_bar3 = (if n then r 0x1C else 0),
      pd_bar4 = (if n then r 0x20 else 0), pd_bar5 = (if n then r 0x24 else 0)\<rparr>)"

declare describe.simps [simp del]

definition config_ok :: "'h hardware \<Rightarrow> config \<Rightarrow> bool" where
  "config_ok hw cfg \<longleftrightarrow> (\<forall>a h m. \<exists>h'. hw_in32 hw PCIPM_CONFIG_DATA (hw_out32 hw PCIPM_CONFIG_ADDRESS a (h, m)) = (cfg a, h', m))"

definition recorded :: "config \<Rightarrow> (u8 \<times> u8 \<times> u8) list \<Rightarrow> ('h, 'a) pci_state_scheme \<Rightarrow> bool" where
  "recorded cfg fs s \<longleftrightarrow> pci_devices s \<noteq> NULL \<and> unat (pci_device_count s) = length fs
     \<and> pci_devs s = (\<lambda>i. if i < length fs then describe cfg (fs ! i) else zero_pci_device)"

lemma config_read:
  assumes "config_ok hw cfg"
  obtains nx where "\<And>b sl f off (s :: ('h, 'a) io_state_scheme). pci_config_read_long hw b sl f off s =
    (cfg (pci_address b sl f off), s\<lparr>devices := nx (pci_address b sl f off) (devices s) (ram s)\<rparr>)"
proof -
  obtain nx where nx: "\<And>a h m. hw_in32 hw PCIPM_CONFIG_DATA (hw_out32 hw PCIPM_CONFIG_ADDRESS a (h, m)) = (cfg a, nx a h m, m)"
    using assms unfolding config_ok_def by metis
  have "pci_config_read_long hw b sl f off s =
    (cfg (pci_address b sl f off), s\<lparr>devices := nx (pci_address b sl f off) (devices s) (ram s)\<rparr>)" for b sl f off and s :: "('h, 'a) io_state_scheme"
  proof -
    obtain h m where w: "hw_out32 hw PCIPM_CONFIG_ADDRESS (pci_address b sl f off) (devices s, ram s) = (h, m)" by fastforce
    have "hw_in32 hw PCIPM_CONFIG_DATA (h, m) = (cfg (pci_address b sl f off), nx (pci_address b sl f off) (devices s) (ram s), ram s)"
      using nx [of "pci_address b sl f off" "devices s" "ram s"] w by simp
    then show ?thesis using w by (simp add: pci_config_read_long_def inl_def outl_def on_bus_def)
  qed
  then show thesis by (rule that)
qed

lemma load_bars_spec:
  assumes "config_ok hw cfg"
  shows "\<exists>h. load_bars hw b sl f dev as s = s\<lparr>devices := h, pci_devs :=
    (pci_devs s)(dev := fold (\<lambda>a d. snd a (cfg (pci_address b sl f (fst a))) d) as (pci_devs s dev))\<rparr>"
proof (induction as arbitrary: s)
  case Nil
  then show ?case by (intro exI [of _ "devices s"]) simp
next
  case (Cons a as)
  obtain nx where rd: "\<And>b sl f off (s :: ('a, 'b) pci_state_scheme). pci_config_read_long hw b sl f off s =
    (cfg (pci_address b sl f off), s\<lparr>devices := nx (pci_address b sl f off) (devices s) (ram s)\<rparr>)"
    using config_read [OF assms] by metis
  define h where "h = nx (pci_address b sl f (fst a)) (devices s) (ram s)"
  have "load_bars hw b sl f dev (a # as) s =
    load_bars hw b sl f dev as (upd_pci dev (snd a (cfg (pci_address b sl f (fst a)))) (s\<lparr>devices := h\<rparr>))"
    by (simp add: rd h_def)
  moreover obtain h' where "load_bars hw b sl f dev as (upd_pci dev (snd a (cfg (pci_address b sl f (fst a)))) (s\<lparr>devices := h\<rparr>)) =
    s\<lparr>devices := h', pci_devs := (pci_devs s)(dev := fold (\<lambda>a d. snd a (cfg (pci_address b sl f (fst a))) d) (a # as) (pci_devs s dev))\<rparr>"
    using Cons.IH [of "upd_pci dev (snd a (cfg (pci_address b sl f (fst a)))) (s\<lparr>devices := h\<rparr>)"]
    by (auto simp: upd_pci_def fun_upd_same simp del: fun_upd_apply)
  ultimately have "load_bars hw b sl f dev (a # as) s =
    s\<lparr>devices := h', pci_devs := (pci_devs s)(dev := fold (\<lambda>a d. snd a (cfg (pci_address b sl f (fst a))) d) (a # as) (pci_devs s dev))\<rparr>"
    by (rule trans)
  then show ?case by (rule exI)
qed

lemma recorded_devices [simp]: "recorded cfg fs (s\<lparr>devices := h\<rparr>) = recorded cfg fs s"
  by (simp add: recorded_def)

lemma recorded_snoc:
  "recorded cfg fs s \<Longrightarrow>
   (pci_devs s)(length fs := describe cfg x) = (\<lambda>i. if i < length (fs @ [x]) then describe cfg ((fs @ [x]) ! i) else zero_pci_device)"
  by (auto simp: recorded_def nth_append fun_eq_iff)

lemma pci_scan_function_records:
  assumes ok: "config_ok hw cfg" and rec: "recorded cfg fs s" and len: "answers cfg b sl f \<Longrightarrow> length fs < 255"
  shows "\<exists>s'. pci_scan_function hw b sl f s = Some (if answers cfg b sl f then Some (length fs) else None, s')
    \<and> recorded cfg (if answers cfg b sl f then fs @ [(b, sl, f)] else fs) s'"
proof -
  let ?r = "\<lambda>off. cfg (pci_address b sl f off)"
  obtain nx where rd: "\<And>b sl f off (s :: ('a, 'b) pci_state_scheme). pci_config_read_long hw b sl f off s =
    (cfg (pci_address b sl f off), s\<lparr>devices := nx (pci_address b sl f off) (devices s) (ram s)\<rparr>)"
    using config_read [OF ok] by metis
  obtain h1 h2 where r1: "pci_config_read_long hw b sl f 0 s = (?r 0, s\<lparr>devices := h1\<rparr>)"
    "pci_config_read_long hw b sl f 8 (s\<lparr>devices := h1\<rparr>) = (?r 8, s\<lparr>devices := h2\<rparr>)"
    using rd by simp
  show ?thesis
  proof (cases "answers cfg b sl f")
    case False
    then show ?thesis using rec by (auto simp: pci_scan_function_def r1 Let_def answers_def)
  next
    case True
    have n: "unat (pci_device_count s) = length fs" "unat (pci_device_count s + 1) = Suc (length fs)" "pci_devices s \<noteq> NULL"
      using rec len [OF True] by (auto simp: recorded_def unat_word_ariths)
    define d0 where "d0 = zero_pci_device\<lparr>pd_bus := b, pd_slot := sl, pd_func := f, pd_vendor_id := ucast (?r 0),
      pd_device_id := ucast (drop_bit 16 (?r 0)), pd_class := ucast (drop_bit 24 (?r 8)), pd_subclass := ucast (drop_bit 16 (?r 8))\<rparr>"
    define s0 where "s0 = s\<lparr>devices := h2, pci_devs := (pci_devs s)(length fs := d0)\<rparr>"
    define d1 where "d1 = d0\<lparr>pd_bar0 := ?r 0x10, pd_bar1 := ?r 0x14\<rparr>"
    define d2 where "d2 = d1\<lparr>pd_header_type := header_type_of cfg b sl\<rparr>"
    have z: "pci_devs s (length fs) = zero_pci_device" using rec by (simp add: recorded_def)
    obtain h3 where b1: "load_bars hw b sl f (length fs) [(0x10, \<lambda>b. pd_bar0_update (\<lambda>_. b)), (0x14, \<lambda>b. pd_bar1_update (\<lambda>_. b))] s0
        = s0\<lparr>devices := h3, pci_devs := (pci_devs s)(length fs := d1)\<rparr>"
      using load_bars_spec [OF ok, of b sl f "length fs" "[(0x10, \<lambda>b. pd_bar0_update (\<lambda>_. b)), (0x14, \<lambda>b. pd_bar1_update (\<lambda>_. b))]" s0]
      by (auto simp: s0_def d1_def fun_upd_same simp del: fun_upd_apply)
    define s1 where "s1 = s0\<lparr>devices := h3, pci_devs := (pci_devs s)(length fs := d1)\<rparr>"
    obtain h4 where r2: "pci_config_read_long hw b sl 0 0xC s1 = (cfg (pci_address b sl 0 0xC), s1\<lparr>devices := h4\<rparr>)"
      using rd by simp
    define s2 where "s2 = s1\<lparr>devices := h4, pci_devs := (pci_devs s)(length fs := d2)\<rparr>"
    obtain h5 where b2: "load_bars hw b sl f (length fs) [(0x18, \<lambda>b. pd_bar2_update (\<lambda>_. b)), (0x1C, \<lambda>b. pd_bar3_update (\<lambda>_. b)),
             (0x20, \<lambda>b. pd_bar4_update (\<lambda>_. b)), (0x24, \<lambda>b. pd_bar5_update (\<lambda>_. b))] s2
        = s2\<lparr>devices := h5, pci_devs := (pci_devs s)(length fs := d2\<lparr>pd_bar2 := ?r 0x18, pd_bar3 := ?r 0x1C, pd_bar4 := ?r 0x20, pd_bar5 := ?r 0x24\<rparr>)\<rparr>"
      using load_bars_spec [OF ok, of b sl f "length fs" "[(0x18, \<lambda>b. pd_bar2_update (\<lambda>_. b)), (0x1C, \<lambda>b. pd_bar3_update (\<lambda>_. b)),
             (0x20, \<lambda>b. pd_bar4_update (\<lambda>_. b)), (0x24, \<lambda>b. pd_bar5_update (\<lambda>_. b))]" s2]
      by (auto simp: s2_def fun_upd_same simp del: fun_upd_apply)
    have e0: "upd_pci (length fs) (\<lambda>d. d\<lparr>pd_bus := b, pd_slot := sl, pd_func := f, pd_vendor_id := ucast (?r 0),
      pd_device_id := ucast (drop_bit 16 (?r 0)), pd_class := ucast (drop_bit 24 (?r 8)), pd_subclass := ucast (drop_bit 16 (?r 8))\<rparr>) (s\<lparr>devices := h2\<rparr>) = s0"
      by (simp add: upd_pci_def s0_def d0_def z)
    have e2: "upd_pci (length fs) (pd_header_type_update (\<lambda>_. header_type_of cfg b sl)) (s1\<lparr>devices := h4\<rparr>) = s2"
      by (simp add: upd_pci_def s1_def s2_def d2_def fun_upd_same del: fun_upd_apply)
    define s3 where "s3 = (if header_type_of cfg b sl AND 0x0F = 0 then s2\<lparr>devices := h5, pci_devs := (pci_devs s)(length fs :=
      d2\<lparr>pd_bar2 := ?r 0x18, pd_bar3 := ?r 0x1C, pd_bar4 := ?r 0x20, pd_bar5 := ?r 0x24\<rparr>)\<rparr> else s2)"
    have "pci_scan_function hw b sl f s = Some (Some (length fs), s3\<lparr>pci_device_count := pci_device_count s3 + 1\<rparr>)"
      using True n by (simp add: pci_scan_function_def r1 answers_def Let_def n(1) e0 b1 [folded s1_def] r2 e2 [unfolded header_type_of_def] b2 s3_def header_type_of_def
          del: load_bars.simps)
    moreover have "pci_devs s3 = (pci_devs s)(length fs := describe cfg (b, sl, f))"
      by (simp add: s3_def s2_def s1_def d2_def d1_def d0_def zero_pci_device_def Let_def describe.simps del: fun_upd_apply)
    moreover have "pci_device_count s3 = pci_device_count s" "pci_devices s3 = pci_devices s"
      by (simp_all add: s3_def s2_def s1_def s0_def)
    ultimately show ?thesis using True n recorded_snoc [OF rec] by (simp add: recorded_def)
  qed
qed

lemma scan_functions_records:
  assumes ok: "config_ok hw cfg"
  shows "recorded cfg gs s \<Longrightarrow> length gs + length (filter (answers cfg b sl) fs) \<le> 255 \<Longrightarrow>
    \<exists>s'. scan_functions hw b sl fs s = Some s' \<and> recorded cfg (gs @ map (\<lambda>f. (b, sl, f)) (filter (answers cfg b sl) fs)) s'"
proof (induction fs arbitrary: gs s)
  case Nil
  then show ?case by simp
next
  case (Cons f fs)
  obtain nx where rd: "\<And>b sl f off (s :: ('a, 'b) pci_state_scheme). pci_config_read_long hw b sl f off s =
    (cfg (pci_address b sl f off), s\<lparr>devices := nx (pci_address b sl f off) (devices s) (ram s)\<rparr>)"
    using config_read [OF ok] by metis
  define s1 where "s1 = s\<lparr>devices := nx (pci_address b sl f 0) (devices s) (ram s)\<rparr>"
  have s1: "recorded cfg gs s1" using Cons.prems(1) by (simp add: s1_def)
  show ?case
  proof (cases "cfg (pci_address b sl f 0) = 0xFFFFFFFF")
    case True
    then have "\<not> answers cfg b sl f" by (simp add: answers_def)
    then show ?thesis using True Cons.IH [OF s1] Cons.prems(2) by (simp add: rd s1_def)
  next
    case False
    let ?gs = "if answers cfg b sl f then gs @ [(b, sl, f)] else gs"
    have "answers cfg b sl f \<Longrightarrow> length gs < 255" using Cons.prems(2) by auto
    then obtain d s2 where s2: "pci_scan_function hw b sl f s1 = Some (d, s2)" "recorded cfg ?gs s2"
      using pci_scan_function_records [OF ok s1, of b sl f] by blast
    obtain s3 where "scan_functions hw b sl fs s2 = Some s3" "recorded cfg (?gs @ map (\<lambda>f. (b, sl, f)) (filter (answers cfg b sl) fs)) s3"
      using Cons.IH [OF s2(2)] Cons.prems(2) by (auto split: if_splits)
    then show ?thesis using False s2(1) by (auto simp: rd s1_def [symmetric])
  qed
qed

lemma scan_slots_records:
  assumes ok: "config_ok hw cfg"
  shows "recorded cfg gs s \<Longrightarrow> length gs + length (concat (map (slot_functions cfg b) sls)) \<le> 255 \<Longrightarrow>
    \<exists>s'. scan_slots hw b sls s = Some s' \<and> recorded cfg (gs @ concat (map (slot_functions cfg b) sls)) s'"
proof (induction sls arbitrary: gs s)
  case Nil
  then show ?case by simp
next
  case (Cons sl sls)
  have len: "length gs + length (slot_functions cfg b sl) \<le> 255" using Cons.prems(2) by simp
  have "answers cfg b sl 0 \<Longrightarrow> length gs < 255" using len by (simp add: slot_functions_def)
  then obtain s1 where s1: "pci_scan_function hw b sl 0 s = Some (if answers cfg b sl 0 then Some (length gs) else None, s1)"
    "recorded cfg (if answers cfg b sl 0 then gs @ [(b, sl, 0)] else gs) s1"
    using pci_scan_function_records [OF ok Cons.prems(1), of b sl 0] by blast
  have "\<exists>s2. (if answers cfg b sl 0 then if pd_header_type (pci_devs s1 (length gs)) AND 0x80 \<noteq> 0
      then scan_functions hw b sl [1, 2, 3, 4, 5, 6, 7] s1 else Some s1 else Some s1) = Some s2 \<and> recorded cfg (gs @ slot_functions cfg b sl) s2"
  proof (cases "answers cfg b sl 0 \<and> header_type_of cfg b sl AND 0x80 \<noteq> 0")
    case True
    then show ?thesis
      using scan_functions_records [OF ok, of "gs @ [(b, sl, 0)]" s1 b sl "[1, 2, 3, 4, 5, 6, 7]"] s1(2) len
      by (simp add: recorded_def describe.simps Let_def slot_functions_def del: filter.simps)
  next
    case False
    then show ?thesis using s1(2) by (auto simp: recorded_def describe.simps Let_def slot_functions_def)
  qed
  then obtain s2 where s2: "(if answers cfg b sl 0 then if pd_header_type (pci_devs s1 (length gs)) AND 0x80 \<noteq> 0
      then scan_functions hw b sl [1, 2, 3, 4, 5, 6, 7] s1 else Some s1 else Some s1) = Some s2" "recorded cfg (gs @ slot_functions cfg b sl) s2"
    by blast
  obtain s3 where "scan_slots hw b sls s2 = Some s3" "recorded cfg ((gs @ slot_functions cfg b sl) @ concat (map (slot_functions cfg b) sls)) s3"
    using Cons.IH [OF s2(2)] Cons.prems(2) by auto
  then show ?case using s1(1) s2(1) by (auto split: if_splits)
qed

lemma scan_buses_records:
  assumes ok: "config_ok hw cfg"
  shows "recorded cfg gs s \<Longrightarrow> length gs + length (concat (map (\<lambda>b. bus_functions cfg (of_nat b)) bs)) \<le> 255 \<Longrightarrow>
    \<exists>s'. scan_buses hw bs s = Some s' \<and> recorded cfg (gs @ concat (map (\<lambda>b. bus_functions cfg (of_nat b)) bs)) s'"
proof (induction bs arbitrary: gs s)
  case Nil
  then show ?case by simp
next
  case (Cons b bs)
  obtain s1 where s1: "pci_scan_bus hw (of_nat b) s = Some s1" "recorded cfg (gs @ bus_functions cfg (of_nat b)) s1"
    using scan_slots_records [OF ok Cons.prems(1), of "of_nat b" "map of_nat [0..<32]"] Cons.prems(2)
    by (auto simp: bus_functions_def pci_scan_bus_def)
  then show ?case using Cons.IH [OF s1(2)] Cons.prems(2) by auto
qed

text \<open>
  C10. Scanning the buses records exactly the functions of the configuration space: entry \<open>i\<close> of the table describes the \<open>i\<close>-th
  function that answers, in the order of bus, slot and function number, and there are as many entries, provided that there
  are at most 255; \<open>pci_find_device\<close> then finds the first function of a class, if there is one.
\<close>

theorem pci_scan_complete:
  assumes "config_ok hw cfg" "pci_devices s \<noteq> NULL" "pci_devs s = (\<lambda>_. zero_pci_device)" "pci_device_count s = 0"
    and "length (present_functions cfg) \<le> 255"
  shows "\<exists>s'. scan_buses hw [0..<256] s = Some s' \<and> unat (pci_device_count s') = length (present_functions cfg)
    \<and> map (pci_devs s') [0..<length (present_functions cfg)] = map (describe cfg) (present_functions cfg)
    \<and> map_option (pci_devs s') (pci_find_device cls subclass s')
      = find (\<lambda>d. pd_class d = cls \<and> pd_subclass d = subclass) (map (describe cfg) (present_functions cfg))"
proof -
  have "recorded cfg [] s" using assms by (simp add: recorded_def)
  from scan_buses_records [OF assms(1) this, of "[0..<256]", folded present_functions_def, unfolded list.size append_Nil add_0, OF assms(5)]
  obtain s' where s': "scan_buses hw [0..<256] s = Some s'" "recorded cfg (present_functions cfg) s'"
    by (elim exE conjE)
  have m: "map (pci_devs s') [0..<length (present_functions cfg)] = map (describe cfg) (present_functions cfg)"
    using s'(2) by (intro nth_equalityI) (simp_all add: recorded_def)
  have "map_option g (find (\<lambda>i. P (g i)) is) = find P (map g is)" for g :: "nat \<Rightarrow> pci_device" and P "is"
    by (induction "is") auto
  from this [of "pci_devs s'" "\<lambda>d. pd_class d = cls \<and> pd_subclass d = subclass" "[0..<length (present_functions cfg)]"]
  have "map_option (pci_devs s') (pci_find_device cls subclass s')
      = find (\<lambda>d. pd_class d = cls \<and> pd_subclass d = subclass) (map (describe cfg) (present_functions cfg))"
    using s'(2) m by (simp add: recorded_def pci_find_device_def)
  moreover have "unat (pci_device_count s') = length (present_functions cfg)" using s'(2) by (simp add: recorded_def)
  ultimately show ?thesis using s'(1) m by blast
qed

text \<open>The address of a register tells bus and slot apart.\<close>

lemma bit_less_exp: "bit (x :: 'n :: len word) i \<Longrightarrow> x < 2 ^ n \<Longrightarrow> n < LENGTH('n) \<Longrightarrow> i < n"
  by (metis bit_take_bit_iff less_mask_eq mask_eq_decr_exp take_bit_eq_mask)

lemma pci_address_bits:
  assumes "sl < 32" "i < 8"
  shows "bit (pci_address b sl 0 off) (16 + i) = bit b i"
    and "i < 5 \<Longrightarrow> bit (pci_address b sl 0 off) (11 + i) = bit sl i"
proof -
  have "(0x80000000 :: u32) = 2 ^ 31" by simp
  then have t: "bit (0x80000000 :: u32) k \<longleftrightarrow> k = 31" for k by (simp only: bit_exp_iff) auto
  have t': "\<not> bit (0x80000000 :: u32) (16 + i)" "\<not> bit (0x80000000 :: u32) (11 + i)" unfolding t using assms(2) by simp_all
  have "\<not> bit sl (5 + i)" using bit_less_exp [of sl "5 + i" 5] assms(1) by auto
  then show "bit (pci_address b sl 0 off) (16 + i) = bit b i"
    unfolding pci_address_def using assms(2) t' by (auto simp: bit_simps)
  show "bit (pci_address b sl 0 off) (11 + i) = bit sl i" if "i < 5"
    unfolding pci_address_def using assms(2) that t' by (auto simp: bit_simps)
qed

lemma pci_address_zero:
  assumes "sl < 32" "drop_bit 8 (pci_address b sl 0 off) = 0x800000"
  shows "b = 0 \<and> sl = 0"
proof -
  have n: "\<not> bit (pci_address b sl 0 off) (8 + k)" if "k < 23" for k
  proof -
    have "bit (pci_address b sl 0 off) (8 + k) = bit (drop_bit 8 (pci_address b sl 0 off)) k" by (simp add: bit_simps)
    also have "\<dots> = bit (2 ^ 23 :: u32) k" using assms(2) by simp
    also have "\<dots> = False" using that by (simp only: bit_exp_iff) simp
    finally show ?thesis by simp
  qed
  have "b = 0"
    by (rule bit_eqI) (use pci_address_bits(1) [OF assms(1), of _ b off] n [of "8 + i" for i] in \<open>force simp: add.assoc [symmetric]\<close>)
  moreover have "sl = 0"
    by (rule bit_eqI) (use pci_address_bits(2) [OF assms(1), of _ b off] n [of "3 + i" for i] bit_less_exp [of sl _ 5] assms(1) in \<open>force simp: add.assoc [symmetric]\<close>)
  ultimately show ?thesis ..
qed

text \<open>A machine with one function, a SATA controller, at the start of bus 0.\<close>

definition sample_config :: config where
  "sample_config a = (if drop_bit 8 a = 0x800000 then (if a = 0x80000000 then 0x29228086 else if a = 0x80000008 then 0x01060102 else 0) else 0xFFFFFFFF)"

definition latch_hw :: "config \<Rightarrow> u32 hardware" where
  "latch_hw cfg = \<lparr>hw_in8 = (\<lambda>_ b. (0, b)), hw_out8 = (\<lambda>_ _ b. b),
     hw_in32 = (\<lambda>p b. (if p = PCIPM_CONFIG_DATA then cfg (fst b) else 0, b)),
     hw_out32 = (\<lambda>p v b. if p = PCIPM_CONFIG_ADDRESS then (v, snd b) else b),
     hw_read32 = (\<lambda>_ b. (0, b)), hw_write32 = (\<lambda>_ _ b. b), hw_read64 = (\<lambda>_ b. (0, b)), hw_write64 = (\<lambda>_ _ b. b),
     hw_rdmsr = (\<lambda>_ _. 0), hw_wrmsr = (\<lambda>_ _ h. h)\<rparr>"

definition boot_pci :: "'h \<Rightarrow> 'h pci_state" where
  "boot_pci h = desc_state.extend (boot_desc h) (pci_state.fields 0x10000 (\<lambda>_. zero_pci_device) 0)"

lemma latch_hw_ok: "config_ok (latch_hw cfg) cfg"
  by (simp add: config_ok_def latch_hw_def)

lemma concat_only_first: "n > 0 \<Longrightarrow> \<forall>k. 0 < k \<and> k < n \<longrightarrow> f k = [] \<Longrightarrow> concat (map f [0..<n]) = f 0"
  by (subst upt_conv_Cons) auto

lemma sample_slot: "sl < 32 \<Longrightarrow> b \<noteq> 0 \<or> sl \<noteq> 0 \<Longrightarrow> slot_functions sample_config b sl = []"
  using pci_address_zero [of sl b 0] by (auto simp: slot_functions_def answers_def sample_config_def)

lemma of_nat_less_32: "k < 32 \<Longrightarrow> (of_nat k :: u8) < 32 \<and> (of_nat k = (0 :: u8) \<longleftrightarrow> k = 0)"
  by (simp add: word_less_nat_alt unat_of_nat word_unat_eq_iff)

lemma of_nat_u8_zero: "k < 256 \<Longrightarrow> of_nat k = (0 :: u8) \<longleftrightarrow> k = 0"
  by (simp add: unat_of_nat word_unat_eq_iff)

lemma sample_bus: "bus_functions sample_config b = (if b = 0 then [(0, 0, 0)] else [])"
proof -
  have "concat (map (\<lambda>k. slot_functions sample_config b (of_nat k)) [0..<32]) = slot_functions sample_config b (of_nat 0)"
    by (rule concat_only_first) (use of_nat_less_32 in \<open>auto intro!: sample_slot\<close>)
  moreover have "slot_functions sample_config 0 0 = [(0, 0, 0)]"
    by (simp add: slot_functions_def answers_def header_type_of_def pci_address_def sample_config_def)
  ultimately show ?thesis by (simp add: bus_functions_def comp_def sample_slot)
qed

lemma sample_present: "present_functions sample_config = [(0, 0, 0)]"
proof -
  have "concat (map (\<lambda>k. bus_functions sample_config (of_nat k)) [0..<256]) = bus_functions sample_config (of_nat 0)"
    by (rule concat_only_first) (use of_nat_u8_zero in \<open>auto simp: sample_bus\<close>)
  then show ?thesis by (simp only: present_functions_def sample_bus) simp
qed

theorem pci_scan_complete_witness:
  "\<exists>s'. scan_buses (latch_hw sample_config) [0..<256] (boot_pci 0) = Some s' \<and> unat (pci_device_count s') = length (present_functions sample_config)
    \<and> map (pci_devs s') [0..<length (present_functions sample_config)] = map (describe sample_config) (present_functions sample_config)
    \<and> map_option (pci_devs s') (pci_find_device 1 6 s')
      = find (\<lambda>d. pd_class d = 1 \<and> pd_subclass d = 6) (map (describe sample_config) (present_functions sample_config))"
  by (rule pci_scan_complete [OF latch_hw_ok])
    (simp_all add: sample_present boot_pci_def desc_state.defs pci_state.defs boot_desc_def io_state.defs kernel_state.defs)

end
