(* ===== verification/Apic.thy ===== *)
theory Apic
  imports Pci
begin

unbundle bit_operations_syntax

text \<open>
  \<^verbatim>\<open>init/acpi.c\<close> and \<^verbatim>\<open>dev/apic.c\<close>: finding the firmware tables and setting up the interrupt controllers. The tables are
  bytes in memory; the registers of the controllers are device registers at the addresses the kernel maps them to. The address of
  the root pointer, which the boot loader reports, is the argument \<open>rsdp_addr\<close>, and those of the strings \<^verbatim>\<open>APIC\<close> and \<^verbatim>\<open>MCFG\<close> are
  \<open>lit_apic\<close> and \<open>lit_mcfg\<close>.
\<close>

record 'h apic_state = "'h pci_state" +
  ioapic_addr :: u64
  lapic_addr :: u64
  lapic_id :: u8
  ioapic :: addr
  rsdp :: addr
  madt :: addr
  mcfg :: addr

section \<open>Firmware tables\<close>

text \<open>A table header has 36 bytes, with the length of the table at offset 4.\<close>

primrec rsdt_parse_loop :: "nat \<Rightarrow> addr \<Rightarrow> addr \<Rightarrow> addr \<Rightarrow> ('h, 'a) apic_state_scheme \<Rightarrow> ('h, 'a) apic_state_scheme" where
  "rsdt_parse_loop 0 lit_apic lit_mcfg sdt s = s"
| "rsdt_parse_loop (Suc n) lit_apic lit_mcfg sdt s =
    (let h = ucast (load32 (ram s) sdt) OR hhdm_start s;
         s = (if memcmp h lit_apic 4 (ram s) = 0 then s\<lparr>madt := h\<rparr> else s);
         s = (if memcmp h lit_mcfg 4 (ram s) = 0 then s\<lparr>mcfg := h\<rparr> else s)
     in rsdt_parse_loop n lit_apic lit_mcfg (sdt + 4) s)"

definition rsdt_parse :: "addr \<Rightarrow> addr \<Rightarrow> addr \<Rightarrow> ('h, 'a) apic_state_scheme \<Rightarrow> ('h, 'a) apic_state_scheme" where
  "rsdt_parse lit_apic lit_mcfg rsdt s =
    (let num_sdt = sint (ucast (drop_bit 2 (ucast (load32 (ram s) (rsdt + 4)) - 36 :: u64)) :: u32)
     in rsdt_parse_loop (nat num_sdt) lit_apic lit_mcfg (rsdt + 36) s)"

definition acpi_init :: "addr \<Rightarrow> addr \<Rightarrow> addr \<Rightarrow> ('h, 'a) apic_state_scheme \<Rightarrow> ('h, 'a) apic_state_scheme option" where
  "acpi_init rsdp_addr lit_apic lit_mcfg s = do {
     (p, s) \<leftarrow> kmap_device (rsdp_addr AND NOT (hhdm_start s)) 0x1000 s;
     let s = s\<lparr>rsdp := p\<rparr>;
     let rsdt_addr = ucast (load32 (ram s) (p + 16)) AND NOT (hhdm_start s);
     (rsdt, s) \<leftarrow> kmap_device rsdt_addr 0x4000 s;
     Some (rsdt_parse lit_apic lit_mcfg rsdt s)
   }"

section \<open>Interrupt controllers\<close>

definition ioapic_read :: "'h hardware \<Rightarrow> u32 \<Rightarrow> ('h, 'a) apic_state_scheme \<Rightarrow> u32 \<times> ('h, 'a) apic_state_scheme" where
  "ioapic_read hw reg s = reg_read32 hw (ioapic s + 16) (reg_write32 hw (ioapic s) reg s)"

definition ioapic_write :: "'h hardware \<Rightarrow> u32 \<Rightarrow> u32 \<Rightarrow> ('h, 'a) apic_state_scheme \<Rightarrow> ('h, 'a) apic_state_scheme" where
  "ioapic_write hw reg v s = reg_write32 hw (ioapic s + 16) v (reg_write32 hw (ioapic s) reg s)"

definition ioapic_redirect_insert :: "'h hardware \<Rightarrow> u64 \<Rightarrow> u64 \<Rightarrow> u64 \<Rightarrow> u64 \<Rightarrow> ('h, 'a) apic_state_scheme \<Rightarrow> ('h, 'a) apic_state_scheme" where
  "ioapic_redirect_insert hw line isr low_active level_trigger s =
    (let s = ioapic_write hw (ucast (0x10 + 2 * line)) (ucast (push_bit 15 level_trigger OR push_bit 13 low_active OR isr)) s
     in ioapic_write hw (ucast (0x10 + 2 * line + 1)) (push_bit 24 (ucast (lapic_id s))) s)"

definition lapic_read :: "'h hardware \<Rightarrow> u64 \<Rightarrow> u32 \<Rightarrow> ('h, 'a) apic_state_scheme \<Rightarrow> u32 \<times> ('h, 'a) apic_state_scheme" where
  "lapic_read hw a regoffset s = reg_read32 hw (a + 4 * ucast (drop_bit 2 regoffset)) s"

definition lapic_write :: "'h hardware \<Rightarrow> u64 \<Rightarrow> u32 \<Rightarrow> u32 \<Rightarrow> ('h, 'a) apic_state_scheme \<Rightarrow> u32 \<times> ('h, 'a) apic_state_scheme" where
  "lapic_write hw a regoffset v s =
    reg_read32 hw (a + 4 * ucast (drop_bit 2 regoffset)) (reg_write32 hw (a + 4 * ucast (drop_bit 2 regoffset)) v s)"

definition lapic_eoi :: "'h hardware \<Rightarrow> ('h, 'a) apic_state_scheme \<Rightarrow> ('h, 'a) apic_state_scheme" where
  "lapic_eoi hw s = snd (lapic_write hw (lapic_addr s) 0xB0 0 s)"

definition apic_eoi :: "'h hardware \<Rightarrow> ('h, 'a) apic_state_scheme \<Rightarrow> ('h, 'a) apic_state_scheme" where
  "apic_eoi hw s = snd (lapic_write hw (lapic_addr s) 0xB0 0 s)"

definition lapic_enable :: "'h hardware \<Rightarrow> ('h, 'a) apic_state_scheme \<Rightarrow> ('h, 'a) apic_state_scheme" where
  "lapic_enable hw s = snd (lapic_write hw (lapic_addr s) 0xF0 0x1FF s)"

definition lapic_idno :: "'h hardware \<Rightarrow> ('h, 'a) apic_state_scheme \<Rightarrow> u8 \<times> ('h, 'a) apic_state_scheme" where
  "lapic_idno hw s = (case lapic_read hw (lapic_addr s) 0x20 s of (v, s) \<Rightarrow> (ucast (drop_bit 24 v), s))"

text \<open>
  \<open>madt_parse_next_entry\<close>: an entry starts with its type and its length; the result 0 ends the loop. For a local controller (type 0)
  the code reads the identifier through a pointer to the start of the table, not of the entry.
\<close>

abbreviation (input) MADT_LAPIC :: u8 where "MADT_LAPIC \<equiv> 0"

definition madt_parse_next_entry :: "u32 \<Rightarrow> ('h, 'a) apic_state_scheme \<Rightarrow> u32 \<times> ('h, 'a) apic_state_scheme" where
  "madt_parse_next_entry offset s =
    (if offset \<ge> load32 (ram s) (madt s + 4) - 1 then (0, s)
     else let type = ram s (madt s + scast offset);
              len = ram s (madt s + scast (offset + 1));
              s = (if type = MADT_LAPIC then s\<lparr>lapic_id := ram s (madt s + 2)\<rparr> else s)
          in (offset + ucast len, s))"

partial_function (option) madt_loop :: "u32 \<Rightarrow> ('h, 'a) apic_state_scheme \<Rightarrow> ('h, 'a) apic_state_scheme option" where
  "madt_loop offset s =
    (let (offset, s) = madt_parse_next_entry offset s in
     if offset \<noteq> 0 then madt_loop offset s else Some s)"

definition apic_init :: "'h hardware \<Rightarrow> ('h, 'a) apic_state_scheme \<Rightarrow> ('h, 'a) apic_state_scheme option" where
  "apic_init hw s =
    (if madt s = NULL then Some s
     else do {
       s \<leftarrow> madt_loop 0x2C s;
       let s = s\<lparr>lapic_addr := ucast (load32 (ram s) (madt s + 36))\<rparr>;
       (a, s) \<leftarrow> kmap_device (lapic_addr s) 0x1000 s;
       let s = s\<lparr>lapic_addr := a\<rparr>;
       (a, s) \<leftarrow> kmap_device (ioapic_addr s) 0x1000 s;
       let s = s\<lparr>ioapic_addr := a, ioapic := a\<rparr>;
       let (r, s) = ioapic_read hw 0 s;
       let s = ioapic_write hw 0 (r OR 0x04000000) s;
       let (v, s) = lapic_read hw (lapic_addr s) 0x20 s;
       let s = s\<lparr>lapic_id := ucast v\<rparr>;
       let s = ioapic_redirect_insert hw 4 0x24 0 0 s;
       let s = lapic_enable hw s;
       let msr = hw_rdmsr hw 0x1B (devices s) OR push_bit 11 1;
       let s = s\<lparr>devices := hw_wrmsr hw 0x1B msr (devices s)\<rparr>;
       Some (lapic_eoi hw s)
     })"

definition apic_enable_timer :: "'h hardware \<Rightarrow> ('h, 'a) apic_state_scheme \<Rightarrow> ('h, 'a) apic_state_scheme" where
  "apic_enable_timer hw s =
    (let s = snd (lapic_write hw (lapic_addr s) 0x80 0 s);
         s = snd (lapic_write hw (lapic_addr s) 0x3E0 0x3 s);
         s = snd (lapic_write hw (lapic_addr s) 0x380 0xFFF s)
     in snd (lapic_write hw (lapic_addr s) 0x320 (0x20 OR 0x20000) s))"

section \<open>The walk over the entries of the interrupt controller table\<close>

definition madt_bytes :: "('h, 'a) apic_state_scheme \<Rightarrow> nat \<Rightarrow> u8 list \<Rightarrow> bool" where
  "madt_bytes s off bs \<longleftrightarrow> (\<forall>i < length bs. ram s (madt s + of_nat (off + i)) = bs ! i)"

text \<open>An entry is at least two bytes long and says so.\<close>

definition madt_entry_ok :: "u8 list \<Rightarrow> bool" where
  "madt_entry_ok e \<longleftrightarrow> 2 \<le> length e \<and> unat (e ! 1) = length e"

lemma unat_of_nat_pred: "0 < n \<Longrightarrow> n < 2 ^ 31 \<Longrightarrow> unat (of_nat n - 1 :: u32) = n - 1"
  by (subst unat_minus_one) (auto simp: word_unat_eq_iff unat_of_nat)

lemma madt_bytes_append: "madt_bytes s off (xs @ ys) \<Longrightarrow> madt_bytes s (off + length xs) ys"
  unfolding madt_bytes_def
proof (intro allI impI)
  fix i assume "\<forall>i < length (xs @ ys). ram s (madt s + of_nat (off + i)) = (xs @ ys) ! i" "i < length ys"
  then have "ram s (madt s + of_nat (off + (length xs + i))) = (xs @ ys) ! (length xs + i)" by (simp del: of_nat_add)
  then show "ram s (madt s + of_nat (off + length xs + i)) = ys ! i" by (simp add: add.assoc)
qed

lemma madt_bytes_lapic_id [simp]: "madt_bytes (s\<lparr>lapic_id := x\<rparr>) off bs = madt_bytes s off bs"
  by (simp add: madt_bytes_def)

lemma madt_loop_entries:
  assumes "load32 (ram s) (madt s + 4) = of_nat (off + length (concat es))" "off + length (concat es) < 2 ^ 31" "2 \<le> off"
    and "\<forall>e \<in> set es. madt_entry_ok e" "madt_bytes s off (concat es)"
  shows "madt_loop (of_nat off) s = Some (if \<exists>e \<in> set es. e ! 0 = MADT_LAPIC then s\<lparr>lapic_id := ram s (madt s + 2)\<rparr> else s)"
  using assms
proof (induction es arbitrary: off s)
  case Nil
  have "of_nat off \<ge> (of_nat off - 1 :: u32)"
    using Nil unat_of_nat_pred [of off] by (simp add: word_le_nat_alt unat_of_nat)
  then show ?case using Nil by (subst madt_loop.simps) (simp add: madt_parse_next_entry_def)
next
  case (Cons e es)
  let ?s = "if e ! 0 = MADT_LAPIC then s\<lparr>lapic_id := ram s (madt s + 2)\<rparr> else s"
  let ?n = "off + length (concat (e # es))"
  have e: "2 \<le> length e" "unat (e ! 1) = length e" using Cons.prems(4) by (auto simp: madt_entry_ok_def)
  have at: "ram s (madt s + of_nat (off + i)) = e ! i" if "i < length e" for i
    using Cons.prems(5) that by (auto simp: madt_bytes_def nth_append simp del: of_nat_add)
  have "0 < length e" "1 < length e" using e(1) by linarith+
  then have b: "ram s (madt s + of_nat off) = e ! 0" "ram s (madt s + of_nat (off + 1)) = e ! 1"
    using at [of 0] at [of 1] by (simp_all only: add_0_right)
  have n: "\<not> of_nat off \<ge> (of_nat ?n - 1 :: u32)"
    using Cons.prems(2,3) e(1) unat_of_nat_pred [of ?n] by (simp add: word_le_nat_alt unat_of_nat del: of_nat_add)
  have p: "madt_parse_next_entry (of_nat off) s = (of_nat (off + length e), ?s)"
  proof -
    have "ram s (madt s + scast (of_nat off :: u32)) = e ! 0" "ram s (madt s + scast ((of_nat off :: u32) + 1)) = e ! 1"
      using b Cons.prems(2) e(1) scast_of_nat_u32 [of off] scast_of_nat_u32 [of "off + 1"] by (simp_all add: add.commute)
    moreover have "(ucast (e ! 1) :: u32) = of_nat (length e)"
      using e(2) by (metis of_nat_unat)
    ultimately show ?thesis using n Cons.prems(1) by (simp add: madt_parse_next_entry_def)
  qed
  have z: "(of_nat (off + length e) :: u32) \<noteq> 0"
    using Cons.prems(2,3) by (simp add: word_unat_eq_iff unat_of_nat del: of_nat_add)
  have "madt_loop (of_nat off) s = madt_loop (of_nat (off + length e)) ?s"
    using p z by (subst madt_loop.simps) simp
  also have "\<dots> = Some (if \<exists>e \<in> set es. e ! 0 = MADT_LAPIC then ?s\<lparr>lapic_id := ram ?s (madt ?s + 2)\<rparr> else ?s)"
    by (rule Cons.IH) (use Cons.prems madt_bytes_append [of s off e "concat es"] in \<open>auto simp: add.assoc\<close>)
  finally show ?case by auto
qed

text \<open>
  C24. The loop over the interrupt controller table ends for every table whose entries fill it and state their own length, whatever
  their number, and has seen all of them: the local controller's identifier is set exactly if one of the entries is of
  type 0, and nothing else changes. The identifier is byte 2 of the table, part of the signature.
\<close>

theorem madt_loop_terminates:
  assumes "load32 (ram s) (madt s + 4) = of_nat (0x2C + length (concat es))" "0x2C + length (concat es) < 2 ^ 31"
    and "\<forall>e \<in> set es. madt_entry_ok e" "madt_bytes s 0x2C (concat es)"
  shows "madt_loop 0x2C s = Some (if \<exists>e \<in> set es. e ! 0 = MADT_LAPIC then s\<lparr>lapic_id := ram s (madt s + 2)\<rparr> else s)"
  using madt_loop_entries [OF assms(1,2) _ assms(3,4)] by simp

text \<open>An entry of length 0 is met again and again.\<close>

lemma madt_zero_length_hangs:
  assumes "\<not> off \<ge> load32 (ram s) (madt s + 4) - 1" "ram s (madt s + scast (off + 1)) = 0" "off \<noteq> 0"
  shows "madt_loop off s = None"
proof -
  have "\<not> (off = off' \<and> ram s' = ram s \<and> madt s' = madt s)" if "madt_loop off' s' = Some r" for off' s' r
  proof (rule madt_loop.raw_induct [OF _ that, where P = "\<lambda>off' s' r. \<not> (off = off' \<and> ram s' = ram s \<and> madt s' = madt s)"])
    fix f off' s' y
    assume ih: "\<And>o2 s2 y2. f o2 s2 = Some y2 \<Longrightarrow> \<not> (off = o2 \<and> ram s2 = ram s \<and> madt s2 = madt s)"
      and y: "(let (o2, s2) = madt_parse_next_entry off' s' in if o2 \<noteq> 0 then f o2 s2 else Some s2) = Some y"
    show "\<not> (off = off' \<and> ram s' = ram s \<and> madt s' = madt s)"
    proof
      assume eq: "off = off' \<and> ram s' = ram s \<and> madt s' = madt s"
      then obtain s2 where "madt_parse_next_entry off' s' = (off, s2)" "ram s2 = ram s" "madt s2 = madt s"
        using assms by (auto simp: madt_parse_next_entry_def Let_def)
      then show False using y ih [of off s2 y] assms(3) by simp
    qed
  qed
  then show ?thesis by (cases "madt_loop off s") auto
qed

definition boot_apic :: "'h \<Rightarrow> 'h apic_state" where
  "boot_apic h = pci_state.extend (boot_pci h) (apic_state.fields 0xFEC00000 0 0 0 0 0 0)"

definition sample_madt :: "unit apic_state" where
  "sample_madt = (boot_apic ())\<lparr>madt := 0x5000, ram := (\<lambda>a. if a = 0x5002 then 0x49 else if a = 0x5004 then 0x30
     else if a = 0x502C then 0 else if a = 0x502D then 2 else if a = 0x502E then 1 else if a = 0x502F then 2 else 0)\<rparr>"

theorem madt_loop_terminates_witness:
  "madt_loop 0x2C sample_madt = Some (sample_madt\<lparr>lapic_id := 0x49\<rparr>)"
proof -
  have f: "madt sample_madt = 0x5000" "ram sample_madt = (\<lambda>a. if a = 0x5002 then 0x49 else if a = 0x5004 then 0x30
     else if a = 0x502C then 0 else if a = 0x502D then 2 else if a = 0x502E then 1 else if a = 0x502F then 2 else 0)"
    by (simp_all add: sample_madt_def)
  have "madt_bytes sample_madt 0x2C [0, 2, 1, 2]"
    unfolding madt_bytes_def
  proof (intro allI impI)
    fix i :: nat assume "i < length [0, 2, 1, 2 :: u8]"
    then consider "i = 0" | "i = 1" | "i = 2" | "i = 3" by (auto simp: less_Suc_eq)
    then show "ram sample_madt (madt sample_madt + of_nat (0x2C + i)) = [0, 2, 1, 2] ! i" by cases (simp_all add: f)
  qed
  then have "madt_loop 0x2C sample_madt = Some (if \<exists>e \<in> set [[0, 2], [1, 2]]. e ! 0 = MADT_LAPIC
      then sample_madt\<lparr>lapic_id := ram sample_madt (madt sample_madt + 2)\<rparr> else sample_madt)"
    by (intro madt_loop_terminates) (simp_all add: f load32_def load16_def madt_entry_ok_def)
  then show ?thesis by (simp add: f)
qed

end
