(* ===== verification/Serial.thy ===== *)
theory Serial
  imports Apic Ringbuf
begin

unbundle bit_operations_syntax

text \<open>
  \<^verbatim>\<open>dev/serial.c\<close>, \<^verbatim>\<open>dev/char.c\<close> and \<^verbatim>\<open>mem/umem.c\<close>: the serial line behind \<^verbatim>\<open>/dev/tty0\<close>. Local variables whose address is taken are at
  the address \<open>stk\<close> of the kernel stack; \<open>lit_tty0\<close> is the address of the device's name. While a reader waits, \<open>sswtch\<close> lets other processes
  run: the argument \<open>sw\<close> gives the state in which the waiting process continues.
\<close>

abbreviation (input) COM1 :: u16 where "COM1 \<equiv> 0x3F8"

record char_device =
  cd_name :: addr
  cd_data :: addr

record 'h tty_state = "'h apic_state" +
  char_devs :: "addr \<Rightarrow> char_device"
  tty0 :: addr
  serial_dev_ops :: addr

section \<open>Character devices\<close>

definition char_device_create :: "addr \<Rightarrow> addr \<Rightarrow> ('h, 'a) tty_state_scheme \<Rightarrow> (addr \<times> ('h, 'a) tty_state_scheme) option" where
  "char_device_create name data s = do {
     name_len \<leftarrow> strlen name (ram s);
     (cd, s) \<leftarrow> kmalloc kmap 16 ALLOC_KERN s;
     assert_opt (cd \<noteq> NULL);
     (p, s) \<leftarrow> kzalloc kmap (name_len + 1) ALLOC_KERN s;
     Some (cd, s\<lparr>char_devs := (char_devs s)(cd := \<lparr>cd_name = p, cd_data = data\<rparr>)\<rparr>)
   }"

definition char_device_destroy :: "addr \<Rightarrow> ('h, 'a) tty_state_scheme \<Rightarrow> ('h, 'a) tty_state_scheme option" where
  "char_device_destroy cd s = do {
     assert_opt (cd \<noteq> NULL);
     s \<leftarrow> attempt_free (cd_name (char_devs s cd)) s;
     attempt_free cd s
   }"

section \<open>User memory\<close>

definition copy_to_user :: "addr \<Rightarrow> addr \<Rightarrow> addr \<Rightarrow> u64 \<Rightarrow> ('h, 'a) tty_state_scheme \<Rightarrow> ('h, 'a) tty_state_scheme option" where
  "copy_to_user p dst src n s = do {
     assert_opt (p \<noteq> NULL);
     let ucr3 = p_cr3 (procs s p);
     let kernel_cr3 = cr3 s;
     let s = (if kernel_cr3 \<noteq> ucr3 then s\<lparr>cr3 := ucr3\<rparr> else s);
     let s = s\<lparr>ram := snd (memcpy dst src n (ram s))\<rparr>;
     Some (if kernel_cr3 \<noteq> ucr3 then s\<lparr>cr3 := kernel_cr3\<rparr> else s)
   }"

section \<open>The serial line\<close>

definition serial_init :: "'h hardware \<Rightarrow> addr \<Rightarrow> ('h, 'a) tty_state_scheme \<Rightarrow> (int \<times> ('h, 'a) tty_state_scheme) option" where
  "serial_init hw lit_tty0 s = do {
     let s = outb hw (COM1 OR 1) 0x00 s;
     let s = outb hw (COM1 OR 3) 0x80 s;
     let s = outb hw (COM1 OR 0) 0x01 s;
     let s = outb hw (COM1 OR 1) 0x00 s;
     let s = outb hw (COM1 OR 3) 0x03 s;
     let s = outb hw (COM1 OR 2) 0xC7 s;
     let s = outb hw (COM1 OR 4) 0x0B s;
     let s = outb hw (COM1 OR 4) 0x1E s;
     let s = outb hw (COM1 OR 0) 0xAE s;
     let (v, s) = inb hw (COM1 OR 0) s;
     if v \<noteq> 0xAE then Some (1, s)
     else do {
       let s = outb hw (COM1 OR 1) 0x01 s;
       let s = outb hw (COM1 OR 4) 0x0F s;
       (r, s) \<leftarrow> ringbuf_create 1024 s;
       (cd, s) \<leftarrow> char_device_create lit_tty0 r s;
       let s = s\<lparr>tty0 := cd, dev_infos := (dev_infos s)(serial_dev_ops s := \<lparr>di_dev = cd, di_impl = Serial_impl\<rparr>)\<rparr>;
       (e, s) \<leftarrow> devfs_insert NULL lit_tty0 VFS_VNO_CHARDEV (serial_dev_ops s) s;
       Some (0, s)
     }
   }"

partial_function (option) serial_putchar :: "'h hardware \<Rightarrow> u8 \<Rightarrow> ('h, 'a) tty_state_scheme \<Rightarrow> ('h, 'a) tty_state_scheme option" where
  "serial_putchar hw c s =
    (let (v, s) = inb hw (COM1 OR 5) s in
     if v AND 0x20 = 0 then serial_putchar hw c s else Some (outb hw COM1 c s))"

definition serial_read_line :: "'h hardware \<Rightarrow> addr \<Rightarrow> ('h, 'a) tty_state_scheme \<Rightarrow> ('h, 'a) tty_state_scheme option" where
  "serial_read_line hw stk s = do {
     let (v, s) = inb hw (COM1 OR 5) s;
     if v AND 0x01 = 0 then Some s
     else do {
       let (c, s) = inb hw COM1 s;
       assert_opt (tty0 s \<noteq> NULL);
       let r = cd_data (char_devs s (tty0 s));
       (n, rb, m) \<leftarrow> ringbuf_write (ringbufs s r) stk 1 ((ram s)(stk := c));
       Some (s\<lparr>ringbufs := (ringbufs s)(r := rb), ram := m\<rparr>)
     }
   }"

definition serial_trap :: "'h hardware \<Rightarrow> addr \<Rightarrow> ('h, 'a) tty_state_scheme \<Rightarrow> ('h, 'a) tty_state_scheme option" where
  "serial_trap hw stk s = do {
     s \<leftarrow> serial_read_line hw stk s;
     Some (lapic_eoi hw s)
   }"

partial_function (option) serial_wait :: "(('h, 'a) tty_state_scheme \<Rightarrow> ('h, 'a) tty_state_scheme option) \<Rightarrow> addr \<Rightarrow>
    ('h, 'a) tty_state_scheme \<Rightarrow> (u64 \<times> ('h, 'a) tty_state_scheme) option" where
  "serial_wait sw stk s = do {
     assert_opt (tty0 s \<noteq> NULL);
     let r = cd_data (char_devs s (tty0 s));
     (n, rb, m) \<leftarrow> ringbuf_read (ringbufs s r) stk 1 (ram s);
     let s = s\<lparr>ringbufs := (ringbufs s)(r := rb), ram := m\<rparr>;
     if n = 0 then do { s \<leftarrow> sw s; serial_wait sw stk s } else Some (n, s)
   }"

definition serial_read :: "'h hardware \<Rightarrow> (('h, 'a) tty_state_scheme \<Rightarrow> ('h, 'a) tty_state_scheme option) \<Rightarrow> addr \<Rightarrow> addr \<Rightarrow>
    ('h, 'a) tty_state_scheme \<Rightarrow> (int \<times> ('h, 'a) tty_state_scheme) option" where
  "serial_read hw sw stk buf s = do {
     s \<leftarrow> serial_read_line hw stk s;
     p \<leftarrow> proc_find (getpid s) s;
     (n, s) \<leftarrow> serial_wait sw stk s;
     s \<leftarrow> copy_to_user p buf stk 1 s;
     Some (sint n, s)
   }"

primrec serial_write_loop :: "'h hardware \<Rightarrow> nat \<Rightarrow> addr \<Rightarrow> ('h, 'a) tty_state_scheme \<Rightarrow> ('h, 'a) tty_state_scheme option" where
  "serial_write_loop hw 0 buf s = Some s"
| "serial_write_loop hw (Suc n) buf s = do {
     s \<leftarrow> serial_putchar hw (ram s buf) s;
     serial_write_loop hw n (buf + 1) s
   }"

definition serial_write :: "'h hardware \<Rightarrow> addr \<Rightarrow> u64 \<Rightarrow> ('h, 'a) tty_state_scheme \<Rightarrow> (int \<times> ('h, 'a) tty_state_scheme) option" where
  "serial_write hw buf count s = do {
     s \<leftarrow> serial_write_loop hw (unat count) buf s;
     Some (sint count, s)
   }"

definition serial_write_dev :: "'h hardware \<Rightarrow> ('h, 'a) tty_state_scheme transfer" where
  "serial_write_dev hw dev buf offset count s = serial_write hw buf count s"

definition serial_read_dev :: "'h hardware \<Rightarrow> (('h, 'a) tty_state_scheme \<Rightarrow> ('h, 'a) tty_state_scheme option) \<Rightarrow> addr \<Rightarrow> ('h, 'a) tty_state_scheme transfer" where
  "serial_read_dev hw sw stk dev buf offset count s = serial_read hw sw stk buf s"

end
