(* ===== verification/Ahci.thy ===== *)
theory Ahci
  imports Serial
begin

unbundle bit_operations_syntax

text \<open>
  \<^verbatim>\<open>dev/ahci.c\<close>: the SATA disk driver. The registers of the controller are device registers; command lists, command
  tables and received frames are bytes in memory, which the controller reads. A register access is one access of the C code, and
  a compound assignment to a register is a read followed by a write. \<open>sw\<close> is the context switch of a waiting process, as in \<^verbatim>\<open>Serial\<close>.
\<close>

section \<open>Registers and structures (include/dev/ahci.h)\<close>

text \<open>Ports are 0x80 bytes each, from offset 0x100 of the controller's registers.\<close>

definition port_at :: "addr \<Rightarrow> nat \<Rightarrow> addr" where
  "port_at ab i = ab + 0x100 + 0x80 * of_nat i"

abbreviation (input) P_CLB :: addr where "P_CLB \<equiv> 0x00"
abbreviation (input) P_FB :: addr where "P_FB \<equiv> 0x08"
abbreviation (input) P_IS :: addr where "P_IS \<equiv> 0x10"
abbreviation (input) P_CMD :: addr where "P_CMD \<equiv> 0x18"
abbreviation (input) P_TFD :: addr where "P_TFD \<equiv> 0x20"
abbreviation (input) P_SIG :: addr where "P_SIG \<equiv> 0x24"
abbreviation (input) P_SSTS :: addr where "P_SSTS \<equiv> 0x28"
abbreviation (input) P_SACT :: addr where "P_SACT \<equiv> 0x34"
abbreviation (input) P_CI :: addr where "P_CI \<equiv> 0x38"
abbreviation (input) A_GHC :: addr where "A_GHC \<equiv> 0x04"
abbreviation (input) A_PI :: addr where "A_PI \<equiv> 0x0C"

abbreviation (input) HBA_PORT_CMD_ST :: u32 where "HBA_PORT_CMD_ST \<equiv> 0x1"
abbreviation (input) HBA_PORT_CMD_FRE :: u32 where "HBA_PORT_CMD_FRE \<equiv> 0x10"
abbreviation (input) HBA_PORT_CMD_FR :: u32 where "HBA_PORT_CMD_FR \<equiv> 0x4000"
abbreviation (input) HBA_PORT_CMD_CR :: u32 where "HBA_PORT_CMD_CR \<equiv> 0x8000"
abbreviation (input) HBA_PORT_IS_TFES :: u32 where "HBA_PORT_IS_TFES \<equiv> 0x40000000"
abbreviation (input) ATA_BUSY_DRQ :: u32 where "ATA_BUSY_DRQ \<equiv> 0x88"

datatype ahci_dev = AHCI_DEV_NULL | AHCI_DEV_SATA | AHCI_DEV_SEMB | AHCI_DEV_PM | AHCI_DEV_SATAPI

record sata_device =
  sd_controller :: nat
  sd_port :: u8
  sd_sector_size :: u64
  sd_sector_count :: u64
  sd_abar :: addr

record 'h ahci_state = "'h tty_state" +
  abar :: addr
  sata_device_count :: u8
  sata_table :: addr
  sata_devs :: "addr \<Rightarrow> sata_device"
  ahci_pbase :: u64
  ahci_vbase :: u64

text \<open>\<open>struct fis_reg_h2d\<close>, the command frame: its bytes for a transfer of \<open>count\<close> sectors at \<open>lba\<close>.\<close>

definition fis_reg_h2d :: "u64 \<Rightarrow> u16 \<Rightarrow> bool \<Rightarrow> u8 list" where
  "fis_reg_h2d lba count wr = [0x27, 0x80, if wr then 0x35 else 0x25, 0,
     ucast lba, ucast (drop_bit 8 lba), ucast (drop_bit 16 lba), 0x40,
     ucast (drop_bit 24 lba), ucast (drop_bit 32 lba), ucast (drop_bit 40 lba), 0,
     ucast (count AND 0xFF), ucast (drop_bit 8 count AND 0xFF), 0, 0]"

text \<open>\<open>struct hba_prdt_entry\<close> (16 bytes): the address of the data, and its length less one with the interrupt flag.\<close>

definition prdt_entry :: "addr \<Rightarrow> u64 \<Rightarrow> mem \<Rightarrow> mem" where
  "prdt_entry p buf m =
    (let m = Kstring.store64 p buf m;
         w = load32 m (p + 12);
         w = (w AND NOT 0x3FFFFF) OR (8 * 1024 - 1);
         w = w OR 0x80000000
     in store32 (p + 12) w m)"

primrec prdt_loop :: "nat \<Rightarrow> addr \<Rightarrow> u64 \<Rightarrow> mem \<Rightarrow> mem" where
  "prdt_loop 0 p buf m = m"
| "prdt_loop (Suc n) p buf m = prdt_loop n (p + 16) (buf + 8 * 1024) (prdt_entry p buf m)"

section \<open>Ports\<close>

definition ahci_port_type :: "'h hardware \<Rightarrow> addr \<Rightarrow> ('h, 'a) ahci_state_scheme \<Rightarrow> ahci_dev \<times> ('h, 'a) ahci_state_scheme" where
  "ahci_port_type hw port s =
    (let (ssts, s) = reg_read32 hw (port + P_SSTS) s in
     if ssts AND 0x0F \<noteq> 0x3 then (AHCI_DEV_NULL, s)
     else let (clb, s) = reg_read64 hw (port + P_CLB) s in
     if clb = 0 then (AHCI_DEV_NULL, s)
     else let (sig, s) = reg_read32 hw (port + P_SIG) s in
     (if sig = 0xEB140101 then AHCI_DEV_SATAPI else if sig = 0xC33C0101 then AHCI_DEV_SEMB
      else if sig = 0x96690101 then AHCI_DEV_PM else AHCI_DEV_SATA, s))"

definition reg_modify32 :: "'h hardware \<Rightarrow> addr \<Rightarrow> (u32 \<Rightarrow> u32) \<Rightarrow> ('h, 'a) ahci_state_scheme \<Rightarrow> ('h, 'a) ahci_state_scheme" where
  "reg_modify32 hw a f s = (let (v, s) = reg_read32 hw a s in reg_write32 hw a (f v) s)"

partial_function (option) wait_clear :: "'h hardware \<Rightarrow> addr \<Rightarrow> u32 \<Rightarrow> ('h, 'a) ahci_state_scheme \<Rightarrow> ('h, 'a) ahci_state_scheme option" where
  "wait_clear hw a bits s = (let (v, s) = reg_read32 hw a s in if v AND bits \<noteq> 0 then wait_clear hw a bits s else Some s)"

definition halt_cmd :: "'h hardware \<Rightarrow> addr \<Rightarrow> ('h, 'a) ahci_state_scheme \<Rightarrow> ('h, 'a) ahci_state_scheme option" where
  "halt_cmd hw port s = do {
     let s = reg_modify32 hw (port + P_CMD) (\<lambda>v. v AND NOT HBA_PORT_CMD_ST) s;
     let s = reg_modify32 hw (port + P_CMD) (\<lambda>v. v AND NOT HBA_PORT_CMD_FRE) s;
     wait_clear hw (port + P_CMD) (HBA_PORT_CMD_FR OR HBA_PORT_CMD_CR) s
   }"

definition start_cmd :: "'h hardware \<Rightarrow> addr \<Rightarrow> ('h, 'a) ahci_state_scheme \<Rightarrow> ('h, 'a) ahci_state_scheme option" where
  "start_cmd hw port s = do {
     s \<leftarrow> wait_clear hw (port + P_CMD) HBA_PORT_CMD_CR s;
     let s = reg_modify32 hw (port + P_CMD) (\<lambda>v. v OR HBA_PORT_CMD_FRE) s;
     Some (reg_modify32 hw (port + P_CMD) (\<lambda>v. v OR HBA_PORT_CMD_ST) s)
   }"

text \<open>\<open>ahci_rebase\<close>: 32 command headers of 32 bytes, each with a command table of 256 bytes.\<close>

primrec rebase_headers :: "nat list \<Rightarrow> nat \<Rightarrow> addr \<Rightarrow> ('h, 'a) ahci_state_scheme \<Rightarrow> ('h, 'a) ahci_state_scheme" where
  "rebase_headers [] n hdr s = s"
| "rebase_headers (i # is) n hdr s =
    (let h = hdr + 32 * of_nat i;
         m = store16 (h + 2) 8 (ram s);
         m = Kstring.store64 (h + 8) (ahci_pbase s + push_bit 13 (of_nat n) + push_bit 10 40 + push_bit 8 (of_nat i)) m;
         m = snd (memset (load64 m (h + 8) OR hhdm_start s) 0 256 m)
     in rebase_headers is n hdr (s\<lparr>ram := m\<rparr>))"

definition ahci_rebase :: "'h hardware \<Rightarrow> addr \<Rightarrow> nat \<Rightarrow> ('h, 'a) ahci_state_scheme \<Rightarrow> ('h, 'a) ahci_state_scheme option" where
  "ahci_rebase hw port n s = do {
     s \<leftarrow> halt_cmd hw port s;
     let s = reg_write64 hw (port + P_CLB) (ahci_pbase s + push_bit 10 (of_nat n)) s;
     let (clb, s) = reg_read64 hw (port + P_CLB) s;
     let s = s\<lparr>ram := snd (memset (clb OR hhdm_start s) 0 1024 (ram s))\<rparr>;
     let s = reg_write64 hw (port + P_FB) (ahci_pbase s + push_bit 10 32 + push_bit 8 (of_nat n)) s;
     let (fb, s) = reg_read64 hw (port + P_FB) s;
     let s = s\<lparr>ram := snd (memset (fb OR hhdm_start s) 0 256 (ram s))\<rparr>;
     let (clb, s) = reg_read64 hw (port + P_CLB) s;
     start_cmd hw port (rebase_headers [0..<32] n (clb OR hhdm_start s) s)
   }"

section \<open>Transfers\<close>

primrec free_slot :: "nat \<Rightarrow> nat \<Rightarrow> u32 \<Rightarrow> nat option" where
  "free_slot 0 i slots = None"
| "free_slot (Suc n) i slots = (if slots AND 1 \<noteq> 0 then free_slot n (Suc i) (drop_bit 1 slots) else Some i)"

definition cmdslot :: "'h hardware \<Rightarrow> addr \<Rightarrow> ('h, 'a) ahci_state_scheme \<Rightarrow> nat option \<times> ('h, 'a) ahci_state_scheme" where
  "cmdslot hw port s =
    (let (sact, s) = reg_read32 hw (port + P_SACT) s;
         (ci, s) = reg_read32 hw (port + P_CI) s
     in (free_slot 32 0 (sact OR ci), s))"

text \<open>The wait for the port gives up after a million polls.\<close>

primrec wait_port :: "nat \<Rightarrow> 'h hardware \<Rightarrow> addr \<Rightarrow> ('h, 'a) ahci_state_scheme \<Rightarrow> bool \<times> ('h, 'a) ahci_state_scheme" where
  "wait_port 0 hw port s = (let (v, s) = reg_read32 hw (port + P_TFD) s in (False, s))"
| "wait_port (Suc n) hw port s =
    (let (v, s) = reg_read32 hw (port + P_TFD) s in if v AND ATA_BUSY_DRQ \<noteq> 0 then wait_port n hw port s else (True, s))"

partial_function (option) wait_done :: "'h hardware \<Rightarrow> (('h, 'a) ahci_state_scheme \<Rightarrow> ('h, 'a) ahci_state_scheme option) \<Rightarrow>
    addr \<Rightarrow> u32 \<Rightarrow> addr \<Rightarrow> ('h, 'a) ahci_state_scheme \<Rightarrow> (bool \<times> ('h, 'a) ahci_state_scheme) option" where
  "wait_done hw sw port bits p s =
    (let (v, s) = reg_read32 hw (port + P_IS) s in
     if v AND HBA_PORT_IS_TFES \<noteq> 0 then Some (False, s)
     else let (ci, s) = reg_read32 hw (port + P_CI) s in
     if ci AND bits = 0 then Some (True, s)
     else if p = NULL then None
     else do {
       s \<leftarrow> (if p_buddy_proc (procs s p) \<noteq> NULL then sw s else Some s);
       wait_done hw sw port bits p s
     })"

definition prdt_len :: "u16 \<Rightarrow> u16" where
  "prdt_len count = word_of_int ((uint count - 1) div 16) + 1"

definition build_command :: "addr \<Rightarrow> u64 \<Rightarrow> u64 \<Rightarrow> u16 \<Rightarrow> u64 \<Rightarrow> bool \<Rightarrow> mem \<Rightarrow> mem" where
  "build_command hdr hhdm lba count buf wr m =
    (let m = m(hdr := ((m hdr AND NOT 0x1F) OR 5) AND NOT 0x40);
         m = store16 (hdr + 2) (prdt_len count) m;
         tbl = load64 m (hdr + 8) OR hhdm;
         m = snd (memset tbl 0 (144 + (ucast (prdt_len count) - 1) * 16) m);
         m = put_bytes m tbl (fis_reg_h2d lba count wr)
     in prdt_loop (unat (prdt_len count)) (tbl + 128) buf m)"

definition ahci_access_sectors :: "'h hardware \<Rightarrow> (('h, 'a) ahci_state_scheme \<Rightarrow> ('h, 'a) ahci_state_scheme option) \<Rightarrow>
    addr \<Rightarrow> u64 \<Rightarrow> u16 \<Rightarrow> u64 \<Rightarrow> bool \<Rightarrow> ('h, 'a) ahci_state_scheme \<Rightarrow> (bool \<times> ('h, 'a) ahci_state_scheme) option" where
  "ahci_access_sectors hw sw dev lba count buf wr s = do {
     let port = port_at (sd_abar (sata_devs s dev)) (unat (sd_port (sata_devs s dev)));
     let s = reg_write32 hw (port + P_IS) 0xFFFFFFFF s;
     case cmdslot hw port s of
       (None, s) \<Rightarrow> Some (False, s)
     | (Some slt, s) \<Rightarrow> do {
         let (clb, s) = reg_read64 hw (port + P_CLB) s;
         let hdr = (clb OR hhdm_start s) + 32 * of_nat slt;
         let s = s\<lparr>ram := build_command hdr (hhdm_start s) lba count buf wr (ram s)\<rparr>;
         case wait_port 1000000 hw port s of
           (False, s) \<Rightarrow> Some (False, s)
         | (True, s) \<Rightarrow> do {
             let s = reg_write32 hw (port + P_CI) (push_bit slt 1) s;
             p \<leftarrow> proc_find (getpid s) s;
             (ok, s) \<leftarrow> wait_done hw sw port (push_bit slt 1) p s;
             if \<not> ok then Some (False, s)
             else let (v, s) = reg_read32 hw (port + P_IS) s in Some (v AND HBA_PORT_IS_TFES = 0, s)
           }
       }
   }"

partial_function (option) transfer_loop :: "'h hardware \<Rightarrow> (('h, 'a) ahci_state_scheme \<Rightarrow> ('h, 'a) ahci_state_scheme option) \<Rightarrow>
    bool \<Rightarrow> addr \<Rightarrow> addr \<Rightarrow> u64 \<Rightarrow> u64 \<Rightarrow> ('h, 'a) ahci_state_scheme \<Rightarrow> (int \<times> ('h, 'a) ahci_state_scheme) option" where
  "transfer_loop hw sw wr sdev buf offset sector_count s =
    (if sector_count > 0 then do {
       let n = min sector_count 128;
       (ok, s) \<leftarrow> ahci_access_sectors hw sw sdev offset (ucast n) (buf AND NOT (hhdm_start s)) wr s;
       if \<not> ok then Some (- 1, s)
       else if sector_count \<le> 128 then Some (0, s)
       else transfer_loop hw sw wr sdev (buf + push_bit 9 128) (offset + 128) (sector_count - 128) s
     } else Some (0, s))"

definition ahci_block_read :: "'h hardware \<Rightarrow> (('h, 'a) ahci_state_scheme \<Rightarrow> ('h, 'a) ahci_state_scheme option) \<Rightarrow> ('h, 'a) ahci_state_scheme transfer" where
  "ahci_block_read hw sw dev buf offset sector_count s =
    (if dev = NULL then None else transfer_loop hw sw False (bd_data (bdevs s dev)) buf offset sector_count s)"

definition ahci_block_write :: "'h hardware \<Rightarrow> (('h, 'a) ahci_state_scheme \<Rightarrow> ('h, 'a) ahci_state_scheme option) \<Rightarrow> ('h, 'a) ahci_state_scheme transfer" where
  "ahci_block_write hw sw dev buf offset sector_count s =
    (if dev = NULL then None else transfer_loop hw sw True (bd_data (bdevs s dev)) buf offset sector_count s)"

definition ahci_block_ops :: "'h hardware \<Rightarrow> (('h, 'a) ahci_state_scheme \<Rightarrow> ('h, 'a) ahci_state_scheme option) \<Rightarrow> ('h, 'a) ahci_state_scheme block_device_ops" where
  "ahci_block_ops hw sw = \<lparr>op_read = ahci_block_read hw sw, op_write = ahci_block_write hw sw\<rparr>"

section \<open>Initialisation\<close>

text \<open>\<open>lit_ahci\<close> and \<open>fmt\<close> are the addresses of the name formats of disks and of partitions; \<open>sizeof(struct sata_device)\<close> is 40.\<close>

primrec ahci_probe_ports :: "'h hardware \<Rightarrow> (('h, 'a) ahci_state_scheme \<Rightarrow> ('h, 'a) ahci_state_scheme option) \<Rightarrow> addr \<Rightarrow> addr \<Rightarrow> nat \<Rightarrow>
    nat list \<Rightarrow> u32 \<Rightarrow> ('h, 'a) ahci_state_scheme \<Rightarrow> ('h, 'a) ahci_state_scheme option" where
  "ahci_probe_ports hw sw lit_ahci fmt dev [] pi s = Some s"
| "ahci_probe_ports hw sw lit_ahci fmt dev (i # is) pi s = do {
     let port = port_at (abar s) i;
     s \<leftarrow> (if pi AND 1 \<noteq> 0 then
            (case ahci_port_type hw port s of
              (AHCI_DEV_SATA, s) \<Rightarrow> do {
                assert_opt (sata_device_count s < 32);
                let sdev = sata_table s + 40 * ucast (sata_device_count s);
                let s = s\<lparr>sata_devs := (sata_devs s)(sdev := (sata_devs s sdev)\<lparr>sd_port := of_nat i, sd_controller := dev, sd_abar := abar s\<rparr>)\<rparr>;
                (name, s) \<leftarrow> kzalloc kmap 16 ALLOC_KERN s;
                assert_opt (name \<noteq> NULL);
                let s = s\<lparr>ram := (ram s)(name + 15 := 0)\<rparr>;
                (r, out, m) \<leftarrow> snprintf name lit_ahci 15 [Va_int (ucast (sata_device_count s))] (ram s);
                let s = s\<lparr>ram := m\<rparr>;
                let (a, s) = reg_read32 hw (port + P_SSTS) s;
                let (b, s) = reg_read32 hw (port + P_SSTS) s;
                let sector_count = push_bit 32 (ucast a) OR ucast b;
                let s = s\<lparr>sata_devs := (sata_devs s)(sdev := (sata_devs s sdev)\<lparr>sd_sector_count := sector_count, sd_sector_size := 512\<rparr>)\<rparr>;
                (bdev, s) \<leftarrow> block_register name sdev sector_count 512 s;
                s \<leftarrow> block_gpt_init (ahci_block_ops hw sw) fmt bdev s;
                s \<leftarrow> ahci_rebase hw port i s;
                Some (s\<lparr>sata_device_count := sata_device_count s + 1\<rparr>)
              }
            | (_, s) \<Rightarrow> Some s)
          else Some s);
     ahci_probe_ports hw sw lit_ahci fmt dev is (drop_bit 1 pi) s
   }"

definition ahci_init :: "'h hardware \<Rightarrow> (('h, 'a) ahci_state_scheme \<Rightarrow> ('h, 'a) ahci_state_scheme option) \<Rightarrow> addr \<Rightarrow> addr \<Rightarrow>
    ('h, 'a) ahci_state_scheme \<Rightarrow> ('h, 'a) ahci_state_scheme option" where
  "ahci_init hw sw lit_ahci fmt s =
    (case pci_find_device 0x01 0x06 s of
      None \<Rightarrow> Some s
    | Some dev \<Rightarrow> do {
        (ab, s) \<leftarrow> kmap_device (ucast (pd_bar5 (pci_devs s dev))) 0x1100 s;
        let s = s\<lparr>abar := ab\<rparr>;
        let (ghc, s) = reg_read32 hw (ab + A_GHC) s;
        if ghc AND 0x80000000 = 0 then Some s
        else do {
          let s = reg_modify32 hw (ab + A_GHC) (\<lambda>v. v OR 0x2) s;
          let s = reg_modify32 hw (ab + A_GHC) (\<lambda>v. v OR 0x80000000) s;
          (p, s) \<leftarrow> buddy_alloc 0x100000 s;
          let s = s\<lparr>ahci_pbase := p AND NOT (hhdm_start s)\<rparr>;
          let (pi, s) = reg_read32 hw (ab + A_PI) s;
          s \<leftarrow> ahci_probe_ports hw sw lit_ahci fmt dev [0..<32] pi s;
          vb \<leftarrow> mmap_find_unmapped (hhdm_start s) (kmap_tree s) (kmap_lock s) (hhdm_start s) 0x100000 (rbnodes s);
          let s = s\<lparr>ahci_vbase := vb\<rparr>;
          s \<leftarrow> kmap (ahci_pbase s) vb 0x100000 (1 OR PAGE_RW OR PAGE_PCD) s;
          if sata_device_count s = 0 then Some s
          else do {
            let line = (word_of_int (irq_highest_free s) :: u16);
            let d = pci_devs s dev;
            let (tmp, s) = pci_config_read_long hw (pd_bus d) (pd_slot d) (pd_func d) 0x3C s;
            let tmp = (tmp AND 0xFFFFFF00) OR ucast line;
            let s = pci_config_write_long hw (pd_bus d) (pd_slot d) (pd_func d) 0x3C (ucast tmp) s;
            (r, s) \<leftarrow> irq_map (ucast line) Ahci_irq_handler s;
            Some s
          }
        }
      })"

section \<open>Large transfers\<close>

text \<open>
  The specification of a transfer: pieces of 128 sectors and a rest, each with its place in memory, its first sector and its number of sectors;
  they are run in order until one fails.
\<close>

definition pieces :: "addr \<Rightarrow> u64 \<Rightarrow> nat \<Rightarrow> (addr \<times> u64 \<times> nat) list" where
  "pieces buf offset n = map (\<lambda>i. (buf + 65536 * of_nat i, offset + 128 * of_nat i, min 128 (n - 128 * i))) [0..<(n + 127) div 128]"

primrec run_pieces :: "'h hardware \<Rightarrow> (('h, 'a) ahci_state_scheme \<Rightarrow> ('h, 'a) ahci_state_scheme option) \<Rightarrow> bool \<Rightarrow> addr \<Rightarrow>
    (addr \<times> u64 \<times> nat) list \<Rightarrow> ('h, 'a) ahci_state_scheme \<Rightarrow> (int \<times> ('h, 'a) ahci_state_scheme) option" where
  "run_pieces hw sw wr sdev [] s = Some (0, s)"
| "run_pieces hw sw wr sdev (p # ps) s = (case p of (buf, offset, n) \<Rightarrow> do {
     (ok, s) \<leftarrow> ahci_access_sectors hw sw sdev offset (of_nat n) (buf AND NOT (hhdm_start s)) wr s;
     if \<not> ok then Some (- 1, s) else run_pieces hw sw wr sdev ps s
   })"

text \<open>The sectors of a piece, each with the place of its 512 bytes.\<close>

definition sectors_of :: "addr \<times> u64 \<times> nat \<Rightarrow> (u64 \<times> addr) list" where
  "sectors_of p = (case p of (buf, offset, n) \<Rightarrow> map (\<lambda>k. (offset + of_nat k, buf + 512 * of_nat k)) [0..<n])"

lemma pieces_small: "pieces buf offset 0 = []" "0 < n \<Longrightarrow> n \<le> 128 \<Longrightarrow> pieces buf offset n = [(buf, offset, n)]"
proof -
  assume n: "0 < n" "n \<le> 128"
  then have "(n + 127) div 128 = Suc 0" by simp
  with n show "pieces buf offset n = [(buf, offset, n)]" by (simp add: pieces_def)
qed (simp add: pieces_def)

lemma pieces_large:
  assumes "128 < n"
  shows "pieces buf offset n = (buf, offset, 128) # pieces (buf + 65536) (offset + 128) (n - 128)"
proof -
  have d: "(n + 127) div 128 = Suc ((n - 128 + 127) div 128)" using assms by simp
  show ?thesis
    unfolding pieces_def d using assms
    by (simp add: upt_conv_Cons map_Suc_upt [symmetric] algebra_simps del: upt_Suc)
qed

lemma pieces_bounds: "list_all (\<lambda>p. 0 < snd (snd p) \<and> snd (snd p) \<le> 128) (pieces buf offset n)"
proof -
  have "0 < n - 128 * i" if "i < (n + 127) div 128" for i
    using that less_eq_div_iff_mult_less_eq [of 128 "Suc i" "n + 127"] by simp
  then show ?thesis by (auto simp: pieces_def list_all_iff)
qed

lemma sectors_of_add: "sectors_of (buf, offset, m + n) = sectors_of (buf, offset, m) @ sectors_of (buf + 512 * of_nat m, offset + of_nat m, n)"
proof -
  have "[0..<m + n] = [0..<m] @ map (\<lambda>k. k + m) [0..<n]" by (simp add: upt_add_eq_append [of 0] map_add_upt add.commute)
  then show ?thesis by (simp add: sectors_of_def algebra_simps comp_def)
qed

lemma pieces_tile: "concat (map sectors_of (pieces buf offset n)) = sectors_of (buf, offset, n)"
proof (induction n arbitrary: buf offset rule: less_induct)
  case (less n)
  consider "n = 0" | "0 < n" "n \<le> 128" | "128 < n" by linarith
  then show ?case
  proof cases
    case 3
    then show ?thesis
      unfolding pieces_large [OF 3] using less.IH [of "n - 128" "buf + 65536" "offset + 128"] sectors_of_add [of buf offset 128 "n - 128"]
      by simp
  qed (simp_all add: pieces_small sectors_of_def)
qed

text \<open>
  C23. A transfer of any number of sectors is the same as running its pieces of at most 128 sectors one after the other until one fails, and the
  pieces cover each sector of the request exactly once, in order and at its place in the buffer. In particular the loop ends whenever
  each access does, and a failed access is reported.
\<close>

theorem ahci_transfer_pieces:
  "transfer_loop hw sw wr sdev buf offset sector_count s = run_pieces hw sw wr sdev (pieces buf offset (unat sector_count)) s
   \<and> concat (map sectors_of (pieces buf offset (unat sector_count))) = sectors_of (buf, offset, unat sector_count)
   \<and> list_all (\<lambda>p. 0 < snd (snd p) \<and> snd (snd p) \<le> 128) (pieces buf offset (unat sector_count))"
proof (intro conjI pieces_tile pieces_bounds)
  show "transfer_loop hw sw wr sdev buf offset sector_count s = run_pieces hw sw wr sdev (pieces buf offset (unat sector_count)) s"
  proof (induction "unat sector_count" arbitrary: buf offset sector_count s rule: less_induct)
    case less
    consider "sector_count = 0" | "0 < sector_count" "sector_count \<le> 128" | "128 < sector_count"
      by (metis linorder_not_less word_neq_0_conv)
    then show ?case
    proof cases
      case 1
      then show ?thesis by (subst transfer_loop.simps) (simp add: pieces_small)
    next
      case 2
      then have "0 < unat sector_count" "unat sector_count \<le> 128" by (simp_all add: word_less_nat_alt word_le_nat_alt)
      then show ?thesis using 2 by (subst transfer_loop.simps) (auto simp: pieces_small min_def intro!: Option.bind_cong)
    next
      case 3
      then have n: "128 < unat sector_count" "unat (sector_count - 128) = unat sector_count - 128"
        by (simp_all add: word_less_nat_alt unat_sub word_le_nat_alt)
      have ih: "transfer_loop hw sw wr sdev b os (sector_count - 128) t = run_pieces hw sw wr sdev (pieces b os (unat sector_count - 128)) t" for b os t
        using less.hyps [of "sector_count - 128" b os t] n by simp
      have c: "sector_count > 0" "\<not> sector_count \<le> 128" "min sector_count 128 = 128"
        using n(1) by (simp_all add: word_less_nat_alt word_le_nat_alt min_def)
      show ?thesis
        unfolding pieces_large [OF n(1)] by (subst transfer_loop.simps) (auto simp: c ih intro!: Option.bind_cong)
    qed
  qed
qed

end
