(* ===== verification/Klib.thy ===== *)
theory Klib
  imports Ahci
begin

unbundle bit_operations_syntax

text \<open>
  The parts of \<^verbatim>\<open>lib/\<close> that allocate memory or switch processes: \<^verbatim>\<open>lib/stack.c\<close>, \<open>strsplit\<close> of \<^verbatim>\<open>lib/string.c\<close>, creation of
  semaphores (\<^verbatim>\<open>lib/sem.c\<close>) and mutexes (\<^verbatim>\<open>lib/lock.c\<close>); and the error texts of \<^verbatim>\<open>lib/errno.c\<close>.
\<close>

record stack_node =
  sn_next :: addr
  sn_data :: addr

record 'h lib_state = "'h ahci_state" +
  stack_slab :: addr
  stack_tops :: "addr \<Rightarrow> addr"
  stack_nodes :: "addr \<Rightarrow> stack_node"
  sems :: "addr \<Rightarrow> sem"

section \<open>Stacks\<close>

text \<open>\<open>stack_tops\<close> holds the field \<open>top\<close> of each \<open>struct stack\<close>; both structures have 16 bytes.\<close>

definition stack_init :: "('h, 'a) lib_state_scheme \<Rightarrow> ('h, 'a) lib_state_scheme option" where
  "stack_init s = do {
     (p, s) \<leftarrow> slab_create kmap 16 (16 * 1024) 0 s;
     Some (s\<lparr>stack_slab := p\<rparr>)
   }"

definition stack_create :: "('h, 'a) lib_state_scheme \<Rightarrow> (addr \<times> ('h, 'a) lib_state_scheme) option" where
  "stack_create s = do {
     (p, s) \<leftarrow> kmalloc kmap 16 ALLOC_KERN s;
     if p = NULL then Some (NULL, s) else Some (p, s\<lparr>stack_tops := (stack_tops s)(p := NULL)\<rparr>)
   }"

definition stack_push :: "addr \<Rightarrow> addr \<Rightarrow> ('h, 'a) lib_state_scheme \<Rightarrow> ('h, 'a) lib_state_scheme option" where
  "stack_push st data s = do {
     (node, s) \<leftarrow> slab_alloc kmap (stack_slab s) s;
     if node = NULL then Some s
     else do {
       assert_opt (st \<noteq> NULL);
       Some (s\<lparr>stack_nodes := (stack_nodes s)(node := \<lparr>sn_next = stack_tops s st, sn_data = data\<rparr>),
               stack_tops := (stack_tops s)(st := node)\<rparr>)
     }
   }"

definition stack_pop :: "addr \<Rightarrow> ('h, 'a) lib_state_scheme \<Rightarrow> (addr \<times> ('h, 'a) lib_state_scheme) option" where
  "stack_pop st s = do {
     assert_opt (st \<noteq> NULL);
     let node = stack_tops s st;
     if node = NULL then Some (NULL, s)
     else do {
       let s = s\<lparr>stack_tops := (stack_tops s)(st := sn_next (stack_nodes s node))\<rparr>;
       let data = sn_data (stack_nodes s node);
       s \<leftarrow> slab_free kmap (stack_slab s) node s;
       Some (data, s)
     }
   }"

definition stack_peek :: "addr \<Rightarrow> ('h, 'a) lib_state_scheme \<Rightarrow> addr option" where
  "stack_peek st s = do {
     assert_opt (st \<noteq> NULL);
     Some (if stack_tops s st = NULL then NULL else sn_data (stack_nodes s (stack_tops s st)))
   }"

partial_function (option) stack_drain :: "addr \<Rightarrow> ('h, 'a) lib_state_scheme \<Rightarrow> ('h, 'a) lib_state_scheme option" where
  "stack_drain st s =
    (if stack_tops s st = NULL then Some s
     else do { (d, s) \<leftarrow> stack_pop st s; stack_drain st s })"

definition stack_destroy :: "addr \<Rightarrow> ('h, 'a) lib_state_scheme \<Rightarrow> ('h, 'a) lib_state_scheme option" where
  "stack_destroy st s = do {
     assert_opt (st \<noteq> NULL);
     s \<leftarrow> stack_drain st s;
     kfree kmap st s
   }"

section \<open>Splitting strings\<close>

partial_function (option) count_delims :: "addr \<Rightarrow> u8 \<Rightarrow> u64 \<Rightarrow> mem \<Rightarrow> u64 option" where
  "count_delims p delim num m =
    (if m p = 0 then Some num else count_delims (p + 1) delim (if m p = delim then num + 1 else num) m)"

text \<open>Storing the piece from \<open>start\<close> up to \<open>i\<close> in a new string, as the loop and the code after it do.\<close>

definition split_piece :: "addr \<Rightarrow> addr \<Rightarrow> u64 \<Rightarrow> u64 \<Rightarrow> u64 \<Rightarrow> ('h, 'a) lib_state_scheme \<Rightarrow> (addr \<times> ('h, 'a) lib_state_scheme) option" where
  "split_piece str ret idx start i s = do {
     (p, s) \<leftarrow> kmalloc kmap (i - start + 1) ALLOC_KERN s;
     assert_opt (ret \<noteq> NULL \<and> p \<noteq> NULL);
     let m = Kstring.store64 (ret + 8 * idx) p (ram s);
     let m = snd (memcpy p (str + start) (i - start) m);
     Some (p, s\<lparr>ram := m(p + (i - start) := 0)\<rparr>)
   }"

partial_function (option) strsplit_loop :: "addr \<Rightarrow> u8 \<Rightarrow> addr \<Rightarrow> u64 \<Rightarrow> u64 \<Rightarrow> u64 \<Rightarrow> ('h, 'a) lib_state_scheme \<Rightarrow>
    (u64 \<times> u64 \<times> ('h, 'a) lib_state_scheme) option" where
  "strsplit_loop str delim ret idx start i s =
    (if ram s (str + i) = 0 then Some (idx, start, s)
     else if ram s (str + i) = delim then do {
       (p, s) \<leftarrow> split_piece str ret idx start i s;
       if ram s p = 0 then do {
         s \<leftarrow> kfree kmap p s;
         strsplit_loop str delim ret idx (i + 1) (i + 1) s
       } else strsplit_loop str delim ret (idx + 1) (i + 1) (i + 1) s
     } else strsplit_loop str delim ret idx start (i + 1) s)"

definition strsplit :: "addr \<Rightarrow> u8 \<Rightarrow> ('h, 'a) lib_state_scheme \<Rightarrow> (addr \<times> u64 \<times> ('h, 'a) lib_state_scheme) option" where
  "strsplit str delim s = do {
     num \<leftarrow> count_delims str delim 0 (ram s);
     (ret, s) \<leftarrow> kmalloc kmap ((num + 2) * 8) ALLOC_KERN s;
     (idx, start, s) \<leftarrow> strsplit_loop str delim ret 0 0 0 s;
     len \<leftarrow> strlen str (ram s);
     (p, s) \<leftarrow> split_piece str ret idx start len s;
     Some (ret, idx + 1, s\<lparr>ram := Kstring.store64 (ret + 8 * (idx + 1)) NULL (ram s)\<rparr>)
   }"

section \<open>Semaphores and mutexes\<close>

definition sem_new :: "int \<Rightarrow> ('h, 'a) lib_state_scheme \<Rightarrow> (addr \<times> ('h, 'a) lib_state_scheme) option" where
  "sem_new count s = do {
     (p, s) \<leftarrow> kmalloc kmap 8 ALLOC_KERN s;
     assert_opt (p \<noteq> NULL);
     Some (p, s\<lparr>sems := (sems s)(p := sem_create count)\<rparr>)
   }"

definition sem_destroy :: "addr \<Rightarrow> ('h, 'a) lib_state_scheme \<Rightarrow> ('h, 'a) lib_state_scheme option" where
  "sem_destroy p s = attempt_free p s"

text \<open>A mutex is a lock word in the state, read by \<open>get\<close> and written by \<open>put\<close>; a process that finds it taken lets others run.\<close>

partial_function (option) mtx_acquire :: "('s \<Rightarrow> u32) \<Rightarrow> (u32 \<Rightarrow> 's \<Rightarrow> 's) \<Rightarrow> ('s \<Rightarrow> 's option) \<Rightarrow> 's \<Rightarrow> 's option" where
  "mtx_acquire get put sw s =
    (let (busy, l) = spinlock_attempt_acquire (get s); s = put l s in
     if busy \<noteq> 0 then do { s \<leftarrow> sw s; mtx_acquire get put sw s } else Some s)"

definition mtx_release :: "('s \<Rightarrow> u32) \<Rightarrow> (u32 \<Rightarrow> 's \<Rightarrow> 's) \<Rightarrow> 's \<Rightarrow> 's" where
  "mtx_release get put s = put (spinlock_release (get s)) s"

section \<open>Error texts\<close>

definition errno_str :: "string list" where
  "errno_str = [''Success'', ''Out of memory'', ''No such file or directory'', ''Invalid argument'', ''Bad file descriptor'',
     ''Not a directory'', ''Is a directory'', ''No space left on device'', ''File exists'', ''Exec format error'', ''Bad address'',
     ''Try again'', ''Device or resource busy'', ''Function not implemented'']"

definition strerror :: "int \<Rightarrow> string" where
  "strerror errnum = (if errnum < 0 \<or> errnum \<ge> int (length errno_str) then ''Unknown error'' else errno_str ! nat errnum)"

end
