(* ===== verification/Main_Init.thy ===== *)
theory Main_Init
  imports Klib Syscall
begin

unbundle bit_operations_syntax

text \<open>
  \<^verbatim>\<open>init/main.c\<close>, \<^verbatim>\<open>init/trap.c\<close> and \<open>trap_sched\<close>: the boot sequence that brings up every component, the entry of the application
  processors, exceptions and the interrupt handlers. What the boot loader reports is the record \<open>boot_info\<close>, and the addresses of string constants
  and of functions are the record \<open>literals\<close>. The other processors run while the boot processor waits for them: the argument \<open>aps\<close> is what they do between two polls.
  A panic does not return.
\<close>

record boot_info =
  bi_hhdm :: u64
  bi_kmem :: addr
  bi_memmap :: "limine_memmap_entry list"
  bi_physical_base :: u64
  bi_virtual_base :: u64
  bi_cmdline :: addr
  bi_path :: addr
  bi_disk_uuid :: "u64 \<times> u64"
  bi_part_uuid :: "u64 \<times> u64"
  bi_rsdp :: addr
  bi_bsp_lapic_id :: u32
  bi_cpus :: "u32 list"

record literals =
  lit_space :: addr
  lit_root :: addr
  lit_delim :: addr
  lit_dev :: addr
  lit_apic :: addr
  lit_mcfg :: addr
  lit_ahci :: addr
  lit_part :: addr
  lit_tty :: addr
  lit_elf_magic :: addr
  lit_init :: addr
  block_table :: addr
  fn_yield :: addr
  fn_gate_syscall :: addr
  fn_dummy :: addr

record 'h main_state = "'h lib_state" +
  kcmdline :: addr
  kpath :: addr
  kroot_disk :: "u64 \<times> u64"
  kroot_part :: "u64 \<times> u64"
  kstacks :: "nat \<Rightarrow> u64"
  task_register :: u16
  msr_file :: msrs
  page_fault_handler :: bool

section \<open>The kernel command line\<close>

partial_function (option) cmdline_loop :: "addr \<Rightarrow> addr \<Rightarrow> u64 \<Rightarrow> addr \<Rightarrow> addr \<Rightarrow> addr \<Rightarrow> ('h, 'a) main_state_scheme \<Rightarrow>
    (addr \<times> ('h, 'a) main_state_scheme) option" where
  "cmdline_loop space symb symb_len cpy token rest s =
    (if token = NULL then Some (NULL, s)
     else if strncmp token symb symb_len (ram s) = 0 then do {
       ret_len \<leftarrow> strlen (token + symb_len + 1) (ram s);
       (ret, s) \<leftarrow> kzalloc kmap (ret_len + 1) ALLOC_KERN s;
       if ret = NULL then do { s \<leftarrow> kfree kmap cpy s; Some (NULL, s) }
       else do {
         (e, m) \<leftarrow> strcpy ret (token + symb_len + 1) (ram s);
         s \<leftarrow> kfree kmap cpy (s\<lparr>ram := m\<rparr>);
         Some (ret, s)
       }
     } else do {
       (token, rest, m) \<leftarrow> strtok NULL space rest (ram s);
       cmdline_loop space symb symb_len cpy token rest (s\<lparr>ram := m\<rparr>)
     })"

definition kcmdline_get_symbol :: "addr \<Rightarrow> addr \<Rightarrow> ('h, 'a) main_state_scheme \<Rightarrow> (addr \<times> ('h, 'a) main_state_scheme) option" where
  "kcmdline_get_symbol space symb s = do {
     symb_len \<leftarrow> strlen symb (ram s);
     cmd_len \<leftarrow> strlen (kcmdline s) (ram s);
     (cpy, s) \<leftarrow> kmalloc kmap (cmd_len + 1) ALLOC_KERN s;
     if cpy = NULL then Some (NULL, s)
     else do {
       (e, m) \<leftarrow> strcpy cpy (kcmdline s) (ram s);
       (token, rest, m) \<leftarrow> strtok cpy space NULL m;
       cmdline_loop space symb symb_len cpy token rest (s\<lparr>ram := m\<rparr>)
     }
   }"

section \<open>Starting the first program\<close>

definition kexec :: "('h, 'a) main_state_scheme drivers \<Rightarrow> literals \<Rightarrow> addr \<Rightarrow> ('h, 'a) main_state_scheme \<Rightarrow> ('h, 'a) main_state_scheme resume option" where
  "kexec dr lit cmd s = do {
     (pid, s) \<leftarrow> elf_load_proc dr (lit_delim lit) (lit_elf_magic lit) cmd s;
     if pid < 0 then Some (Idle s)
     else do {
       p \<leftarrow> proc_get (word_of_int pid) s;
       if p = NULL then Some (Idle s)
       else Some (Resume p (proc_set_current (word_of_int pid) s))
     }
   }"

section \<open>Interrupts and exceptions\<close>

definition trap_sched :: "'h hardware \<Rightarrow> ('h, 'a) main_state_scheme \<Rightarrow> ('h, 'a) main_state_scheme resume option" where
  "trap_sched hw s = schedule (lapic_eoi hw s)"

text \<open>The handlers an interrupt line may have; \<open>Idle\<close> means that the handler returns to the interrupted program.\<close>

definition handle_irq :: "'h hardware \<Rightarrow> addr \<Rightarrow> nat \<Rightarrow> ('h, 'a) main_state_scheme \<Rightarrow> ('h, 'a) main_state_scheme resume option" where
  "handle_irq hw stk n s = irq (\<lambda>h s. case h of
      Serial_trap \<Rightarrow> do { s \<leftarrow> serial_trap hw stk s; Some (Idle s) }
    | Trap_sched \<Rightarrow> trap_sched hw s
    | Ahci_irq_handler \<Rightarrow> Some (Idle s)) (\<lambda>s. Some (Idle s)) n s"

text \<open>There are 31 exception names; the handler of page faults only prints.\<close>

definition exception :: "nat \<Rightarrow> ('h, 'a) main_state_scheme \<Rightarrow> ('h, 'a) main_state_scheme resume option" where
  "exception vector s = do {
     let pid = getpid s;
     assert_opt (vector < 31);
     p \<leftarrow> proc_find pid s;
     assert_opt (p \<noteq> NULL \<and> p_pid (procs s p) \<noteq> 0);
     s \<leftarrow> proc_term pid (proc_set_current 0 s);
     schedule s
   }"

definition exception_init :: "('h, 'a) main_state_scheme \<Rightarrow> ('h, 'a) main_state_scheme" where
  "exception_init s = s\<lparr>page_fault_handler := True\<rparr>"

section \<open>Booting\<close>

abbreviation (input) KSTACK_SIZE :: u64 where "KSTACK_SIZE \<equiv> 0x4000"

definition kernel_drivers :: "'h hardware \<Rightarrow> (('h, 'a) main_state_scheme \<Rightarrow> ('h, 'a) main_state_scheme option) \<Rightarrow> addr \<Rightarrow> ('h, 'a) main_state_scheme drivers" where
  "kernel_drivers hw sw stk = \<lparr>d_disk = ahci_block_ops hw sw,
     d_tty = \<lparr>op_read = serial_read_dev hw sw stk, op_write = serial_write_dev hw\<rparr>\<rparr>"

definition copy_string :: "addr \<Rightarrow> ('h, 'a) main_state_scheme \<Rightarrow> (addr \<times> ('h, 'a) main_state_scheme) option" where
  "copy_string src s = do {
     n \<leftarrow> strlen src (ram s);
     (p, s) \<leftarrow> kzalloc kmap (n + 1) ALLOC_KERN s;
     assert_opt (p \<noteq> NULL);
     (e, m) \<leftarrow> strcpy p src (ram s);
     Some (p, s\<lparr>ram := m\<rparr>)
   }"

definition ap_kmain :: "'h hardware \<Rightarrow> linkage \<Rightarrow> nat \<Rightarrow> addr \<Rightarrow> ('h, 'a) main_state_scheme \<Rightarrow> ('h, 'a) main_state_scheme option" where
  "ap_kmain hw lk lapic init_sem s = do {
     let s = lapic_enable hw (s\<lparr>cr3 := kcr3 s\<rparr>);
     (kstack, s) \<leftarrow> buddy_alloc KSTACK_SIZE s;
     let ptr = kstack + KSTACK_SIZE - 8;
     assert_opt (lapic < 256);
     let s = s\<lparr>kstacks := (kstacks s)(lapic := ptr)\<rparr>;
     (tss, s) \<leftarrow> gdt_insert_tss lk ptr s;
     let s = s\<lparr>task_register := tss\<rparr>;
     sm \<leftarrow> sem_post (sems s init_sem);
     Some (s\<lparr>sems := (sems s)(init_sem := sm)\<rparr>)
   }"

partial_function (option) wait_sem :: "(('h, 'a) main_state_scheme \<Rightarrow> ('h, 'a) main_state_scheme option) \<Rightarrow> addr \<Rightarrow>
    ('h, 'a) main_state_scheme \<Rightarrow> ('h, 'a) main_state_scheme option" where
  "wait_sem aps p s = do {
     (r, sm) \<leftarrow> sem_trywait (sems s p);
     let s = s\<lparr>sems := (sems s)(p := sm)\<rparr>;
     if r \<noteq> 0 then do { s \<leftarrow> aps s; wait_sem aps p s } else Some s
   }"

primrec wait_aps :: "nat \<Rightarrow> (('h, 'a) main_state_scheme \<Rightarrow> ('h, 'a) main_state_scheme option) \<Rightarrow> addr \<Rightarrow>
    ('h, 'a) main_state_scheme \<Rightarrow> ('h, 'a) main_state_scheme option" where
  "wait_aps 0 aps p s = Some s"
| "wait_aps (Suc n) aps p s = do {
     s \<leftarrow> wait_sem aps p s;
     wait_aps n aps p s
   }"

text \<open>The processors \<open>kmain\<close> sends to \<open>ap_kmain\<close>: all but the boot processor.\<close>

definition start_aps :: "boot_info \<Rightarrow> u32 list" where
  "start_aps bi = filter (\<lambda>c. c \<noteq> bi_bsp_lapic_id bi) (bi_cpus bi)"

definition kmain_early :: "linkage \<Rightarrow> literals \<Rightarrow> boot_info \<Rightarrow> ('h, 'a) main_state_scheme \<Rightarrow> ('h, 'a) main_state_scheme option" where
  "kmain_early lk lit bi s = do {
     let s = s\<lparr>hhdm_start := bi_hhdm bi\<rparr>;
     s \<leftarrow> mem_early_init (bi_kmem bi) 0x40000000 (bi_memmap bi) (bi_physical_base bi) (bi_virtual_base bi) s;
     s \<leftarrow> stack_init s;
     s \<leftarrow> gdt_init lk s;
     s \<leftarrow> idt_init lk s;
     (p, s) \<leftarrow> copy_string (bi_cmdline bi) s;
     let s = s\<lparr>kcmdline := p\<rparr>;
     (p, s) \<leftarrow> copy_string (bi_path bi) s;
     let s = s\<lparr>kpath := p, kroot_disk := bi_disk_uuid bi, kroot_part := bi_part_uuid bi\<rparr>;
     acpi_init (bi_rsdp bi) (lit_apic lit) (lit_mcfg lit) s
   }"

definition kmain_devices :: "'h hardware \<Rightarrow> (('h, 'a) main_state_scheme \<Rightarrow> ('h, 'a) main_state_scheme option) \<Rightarrow> linkage \<Rightarrow> literals \<Rightarrow> boot_info \<Rightarrow>
    ('h, 'a) main_state_scheme \<Rightarrow> (addr \<times> ('h, 'a) main_state_scheme) option" where
  "kmain_devices hw sw lk lit bi s = do {
     s \<leftarrow> pci_init hw s;
     (kstack, s) \<leftarrow> buddy_alloc KSTACK_SIZE s;
     let ptr = kstack + KSTACK_SIZE - 8;
     (tss, s) \<leftarrow> gdt_insert_tss lk ptr s;
     let s = pic_init hw (s\<lparr>task_register := tss\<rparr>);
     s \<leftarrow> apic_init hw s;
     s \<leftarrow> proc_init (length (bi_cpus bi)) (fn_yield lit) (kstacks s) s;
     (r, s) \<leftarrow> syscall_init (fn_gate_syscall lit) (msr_file s) s;
     s \<leftarrow> ahci_init hw sw (lit_ahci lit) (lit_part lit) (s\<lparr>msr_file := r\<rparr>);
     Some (ptr, s)
   }"

definition kmain :: "'h hardware \<Rightarrow> (('h, 'a) main_state_scheme \<Rightarrow> ('h, 'a) main_state_scheme option) \<Rightarrow>
    (u32 list \<Rightarrow> addr \<Rightarrow> ('h, 'a) main_state_scheme \<Rightarrow> ('h, 'a) main_state_scheme option) \<Rightarrow> addr \<Rightarrow> linkage \<Rightarrow> literals \<Rightarrow> boot_info \<Rightarrow>
    ('h, 'a) main_state_scheme \<Rightarrow> ('h, 'a) main_state_scheme resume option" where
  "kmain hw sw aps stk lk lit bi s = do {
     s \<leftarrow> kmain_early lk lit bi s;
     (ptr, s) \<leftarrow> kmain_devices hw sw lk lit bi s;
     let dr = kernel_drivers hw sw stk;
     (root_path, s) \<leftarrow> kcmdline_get_symbol (lit_space lit) (lit_root lit) s;
     assert_opt (root_path \<noteq> NULL);
     s \<leftarrow> vfs_init dr root_path (lit_delim lit) s;
     (f, s) \<leftarrow> devfs_init dr (lit_delim lit) (lit_dev lit) (block_table lit) s;
     (init_sem, s) \<leftarrow> sem_new 0 s;
     s \<leftarrow> wait_aps (length (bi_cpus bi) - 1) (aps (start_aps bi) init_sem) init_sem s;
     s \<leftarrow> sem_destroy init_sem s;
     let s = exception_init s;
     (r, s) \<leftarrow> serial_init hw (lit_tty lit) s;
     (r, s) \<leftarrow> irq_map 0 Trap_sched s;
     let s = apic_enable_timer hw s;
     (p, s) \<leftarrow> proc_createv PT_KERN s;
     s \<leftarrow> proc_init_memory p s;
     let s = proc_set_exec_addr p (fn_dummy lit) (proc_set_flags p 0x46 s);
     s \<leftarrow> proc_set_state (p_pid (procs s p)) PROC_STOPPED s;
     kexec dr lit (lit_init lit) s
   }"

end
