(* ===== verification/Spec2Isabelle.thy ===== *)
theory Spec2Isabelle
  imports Rbt_Walk Sort Page_Walk Syscall_Entry Decimal_Text Ext2_Index Inode_Layout Paths Main_Init
begin

text \<open>
  A model of the kernel of vbos, an operating system for 64-bit PCs written in C with a little assembly, and proofs about it.
  Paths are relative to \<^verbatim>\<open>src/\<close>.

  \<^bold>\<open>The program.\<close> The boot loader starts \<open>kmain\<close>. It sets up physical memory (\<^verbatim>\<open>mem/buddy.c\<close>), page tables (\<^verbatim>\<open>mem/page.c\<close>),
  object caches and the kernel heap (\<^verbatim>\<open>mem/slab.c\<close>), segments and interrupt gates (\<^verbatim>\<open>init/gdt.c\<close>, \<^verbatim>\<open>init/irq.c\<close>), the
  interrupt controllers and firmware tables (\<^verbatim>\<open>dev/apic.c\<close>, \<^verbatim>\<open>init/acpi.c\<close>), the PCI buses and the disk driver (\<^verbatim>\<open>dev/pci.c\<close>,
  \<^verbatim>\<open>dev/ahci.c\<close>), mounts an ext2 file system and a file system of devices (\<^verbatim>\<open>fs/\<close>), and loads the first program (\<^verbatim>\<open>sched/load.c\<close>).
  From then on the processors run processes, which a timer interrupt switches (\<^verbatim>\<open>sched/proc.c\<close>, \<^verbatim>\<open>sched/entry.S\<close>) and which ask for
  services through system calls (\<^verbatim>\<open>sched/syscall.c\<close>). \<^verbatim>\<open>lib/\<close> has the data structures all of this uses.

  \<^bold>\<open>Conventions.\<close> Integers and addresses are words of their C width, so arithmetic wraps. Memory is a function from addresses to bytes
  (\<open>ram\<close>). Structures the code only accesses by field are typed stores indexed by address: headers of regions and slabs, free-list links,
  tree nodes, page table entries, processes, vnodes, files and so on; structures that the code copies or reads as bytes (directory entries, inodes,
  partition tables, firmware tables, descriptors) stay bytes. The globals of a component are fields of a record that extends the record of the components it
  calls: \<open>buddy_state\<close>, \<open>slab_state\<close>, \<open>rbt_state\<close>, \<open>kmalloc_state\<close>, \<open>page_state\<close>, \<open>dev_state\<close>, \<open>vfs_state\<close>, \<open>kernel_state\<close>, \<open>io_state\<close>,
  \<open>desc_state\<close>, \<open>pci_state\<close>, \<open>apic_state\<close>, \<open>tty_state\<close>, \<open>ahci_state\<close>, \<open>lib_state\<close>, \<open>main_state\<close>. Functions are polymorphic in
  what extends their record. A function that may fail to return has an \<open>option\<close> result; \<open>None\<close> stands for a panic, a NULL
  dereference, behaviour C leaves undefined, spinning on a held lock and endless loops alike. Errors the code reports are ordinary results.

  \<^bold>\<open>Theories and sources.\<close>
  \<^item> \<^verbatim>\<open>Kernel_Prelude\<close>: types, error numbers (\<^verbatim>\<open>include/lib/errno.h\<close>), the byte memory, lemmas on words and lists.
  \<^item> \<^verbatim>\<open>Kmath\<close> (\<^verbatim>\<open>lib/math.c\<close>), \<^verbatim>\<open>Kstring\<close> (\<^verbatim>\<open>lib/string.c\<close>), \<^verbatim>\<open>Stdio\<close> (\<^verbatim>\<open>lib/stdio.c\<close>), \<^verbatim>\<open>Sort\<close> (\<^verbatim>\<open>lib/sort.c\<close>),
    \<^verbatim>\<open>Ringbuf\<close> (\<^verbatim>\<open>lib/ringbuf.c\<close>), \<^verbatim>\<open>Locks\<close> (\<^verbatim>\<open>lib/lock.c\<close>, \<^verbatim>\<open>lib/atomic.S\<close>, \<^verbatim>\<open>lib/sem.c\<close>), \<^verbatim>\<open>Klib\<close> (\<^verbatim>\<open>lib/stack.c\<close>,
    \<^verbatim>\<open>lib/errno.c\<close> and what of \<^verbatim>\<open>lib/\<close> allocates), \<^verbatim>\<open>Bytes\<close> (little-endian access to memory).
  \<^item> \<^verbatim>\<open>Buddy\<close> (\<^verbatim>\<open>mem/buddy.c\<close>); \<^verbatim>\<open>Buddy_Tree\<close>, \<^verbatim>\<open>Buddy_Refine\<close>, \<^verbatim>\<open>Buddy_Regions\<close>, \<^verbatim>\<open>Buddy_Alloc\<close> for its proofs.
  \<^item> \<^verbatim>\<open>Slab\<close>, \<^verbatim>\<open>Kmalloc\<close>, \<^verbatim>\<open>Umalloc\<close> (\<^verbatim>\<open>mem/slab.c\<close>); \<^verbatim>\<open>Slab_Refine\<close>, \<^verbatim>\<open>Slab_Pool\<close> for the proofs of the caches.
    \<^verbatim>\<open>Allocator\<close> is the interface of the allocators.
  \<^item> \<^verbatim>\<open>Rbtree\<close> (\<^verbatim>\<open>lib/rbtree.c\<close>); \<^verbatim>\<open>Rbt_Tree\<close>, \<^verbatim>\<open>Rbt_Refine\<close>, \<^verbatim>\<open>Rbt_Insert\<close>, \<^verbatim>\<open>Rbt_Map\<close>, \<^verbatim>\<open>Rbt_Walk\<close> for its proofs.
  \<^item> \<^verbatim>\<open>Paging\<close> (\<^verbatim>\<open>mem/page.c\<close>); \<^verbatim>\<open>Page_Walk\<close> for its proofs.
  \<^item> \<^verbatim>\<open>Block\<close> (\<^verbatim>\<open>dev/block.c\<close>, \<^verbatim>\<open>fs/gpt.c\<close>), \<^verbatim>\<open>Ext2_Disk\<close> and \<^verbatim>\<open>Ext2\<close> (\<^verbatim>\<open>fs/ext2.c\<close>), \<^verbatim>\<open>Vfs_Node\<close> and \<^verbatim>\<open>Vfs\<close> (\<^verbatim>\<open>fs/vfs.c\<close>,
    \<^verbatim>\<open>fs/devfs.c\<close>); \<^verbatim>\<open>Ext2_Index\<close>, \<^verbatim>\<open>Inode_Layout\<close>, \<^verbatim>\<open>Paths\<close> for proofs about them.
  \<^item> \<^verbatim>\<open>Proc\<close> (\<^verbatim>\<open>sched/proc.c\<close>), \<^verbatim>\<open>Syscall\<close> (\<^verbatim>\<open>sched/syscall.c\<close>), \<^verbatim>\<open>Elf\<close> (\<^verbatim>\<open>sched/load.c\<close>), \<^verbatim>\<open>Context\<close>
    (\<^verbatim>\<open>sched/entry.S\<close>); \<^verbatim>\<open>Scheduler\<close> and \<^verbatim>\<open>Syscall_Entry\<close> for proofs about them.
  \<^item> \<^verbatim>\<open>Machine\<close> (\<^verbatim>\<open>init/pio.c\<close>, \<^verbatim>\<open>dev/pic.c\<close>), \<^verbatim>\<open>Descriptors\<close> (\<^verbatim>\<open>init/gdt.c\<close>, \<^verbatim>\<open>init/irq.c\<close>), \<^verbatim>\<open>Pci\<close> (\<^verbatim>\<open>dev/pci.c\<close>),
    \<^verbatim>\<open>Apic\<close> (\<^verbatim>\<open>dev/apic.c\<close>, \<^verbatim>\<open>init/acpi.c\<close>), \<^verbatim>\<open>Serial\<close> (\<^verbatim>\<open>dev/serial.c\<close>, \<^verbatim>\<open>dev/char.c\<close>, \<^verbatim>\<open>mem/umem.c\<close>),
    \<^verbatim>\<open>Ahci\<close> (\<^verbatim>\<open>dev/ahci.c\<close>), \<^verbatim>\<open>Main_Init\<close> (\<^verbatim>\<open>init/main.c\<close>, \<^verbatim>\<open>init/trap.c\<close>).
  \<^item> \<^verbatim>\<open>Sample_State\<close> and \<^verbatim>\<open>Boot_State\<close>: concrete states, from which the witnesses of the theorems start.

  \<^bold>\<open>What is proved.\<close>
  \<^item> Physical memory. The bitmap of a region represents a tree of free, used and split blocks; allocation and release refine the
    abstract operations on that tree (\<^verbatim>\<open>Buddy_Refine\<close>). Over all regions they satisfy the laws of the locale \<open>block_allocator\<close>, so that any
    sequence of calls returns blocks that overlap nothing in use (\<^verbatim>\<open>Buddy_Alloc\<close>). The exceptions found on the way are theorems too: the release of a
    single page reads below the bitmap, and the parser of the boot memory map can extend a region over the kernel.
  \<^item> Object caches. The caches satisfy the same locale (\<^verbatim>\<open>Slab_Pool\<close>); release works for the first slab of a
    cache and loses objects of the second.
  \<^item> Red-black trees. \<open>rbt_insert\<close> returns and keeps order, colours and links; insertion and search implement the interface \<open>key_index\<close>; the
    traversals follow the order of the keys (\<^verbatim>\<open>Rbt_Map\<close>, \<^verbatim>\<open>Rbt_Walk\<close>).
  \<^item> Page tables. Mapping a range makes each of its pages translate to its frame, and no other translation changes. The proof is for any allocator of table pages
    (locale \<open>page_supply\<close>); the one used while booting is an interpretation (\<^verbatim>\<open>Page_Walk\<close>).
  \<^item> Processes. The scheduler gives every ready process its turn, in the order of the pids; with none it does not come back (\<^verbatim>\<open>Scheduler\<close>). An interrupt
    leaves the registers of the interrupted process as they were (\<^verbatim>\<open>Context\<close>), and a system call changes only the one for the result
    (\<^verbatim>\<open>Syscall_Entry\<close>).
  \<^item> Concurrency. Semaphores are a step relation with one step per memory access; mutual exclusion and the count are invariants of every interleaving
    (\<^verbatim>\<open>Locks\<close>).
  \<^item> Hardware. The gates and task segments lead where they should (\<^verbatim>\<open>Descriptors\<close>), the scan of the buses finds exactly what answers (\<^verbatim>\<open>Pci\<close>),
    the walk over the interrupt controller table ends (\<^verbatim>\<open>Apic\<close>), and a disk transfer is cut into pieces that cover it (\<^verbatim>\<open>Ahci\<close>).
  \<^item> File system. Which blocks of a file have indices inside their tables (\<^verbatim>\<open>Ext2_Index\<close>), the round trip of inodes (\<^verbatim>\<open>Inode_Layout\<close>), splitting of paths
    (\<^verbatim>\<open>Paths\<close>).
  \<^item> Library. Sorting, ring buffers as bounded queues (locale \<open>bounded_fifo\<close>), strings, printing and parsing of numbers, powers of two.

  \<^bold>\<open>Loops and bounds.\<close> A loop with a counter is a recursion on the remaining count, over the whole range the code runs through; a loop without one is
  a \<open>partial_function\<close> in the option monad, so the theorems about it state that it returns. No fuel is used. The one large constant is the code's own: the
  disk driver polls a port 1000000 times.

  \<^bold>\<open>Parameters.\<close> Devices are not code: their reaction to an access is the record \<open>hardware\<close>, any functions on a device state and memory. The
  driver of a block device and the context switch of a waiting process are arguments of the functions that call them. Addresses that the linker chooses (string
  constants, functions, tables) and what the boot loader reports are the records \<open>linkage\<close>, \<open>literals\<close> and \<open>boot_info\<close>; what the other processors do while
  the first one waits for them is an argument of \<open>kmain\<close>.

  \<^bold>\<open>Not modelled.\<close> Log output, except for the formatting itself. Privileged instructions that only load a register (\<^verbatim>\<open>init/descriptor.S\<close>,
  \<^verbatim>\<open>init/msr.S\<close>, \<^verbatim>\<open>mem/reg.S\<close>), as far as no later code depends on them. Of \<^verbatim>\<open>sched/entry.S\<close> the single-instruction routines.
  The translation cache of the processor. The declarations of the boot protocol (\<^verbatim>\<open>include/limine/limine.h\<close>) other than the memory map, and structures and
  constants of headers that no code uses. Several processors run the same functions, but apart from \<^verbatim>\<open>Locks\<close> a function is
  modelled as running alone, with the locks it takes; the handlers of interrupts run between functions, not inside them.
\<close>

end
